(* ===== verification/Rufio_Prelude.thy ===== *)
theory Rufio_Prelude
  imports Main "HOL-Library.State_Monad"
begin

text \<open>
  Shared vocabulary of the development: the collections the component theories fill,
  the equations that run a state-monad program on a state, and generic facts on lists
  and strings that several components use.  Nothing here mentions the program.
\<close>

section \<open>Lemma collections\<close>

text \<open>
  \<open>run_simps\<close>: equations that push \<^term>\<open>run_state\<close> through a program text.
  \<open>go_consts\<close>: definitions of the string and number constants of the sources.
  \<open>cond_simps\<close>: what a condition lookup returns after an update.
  \<open>handler_defs\<close>: definitions of the handlers, unfolded to evaluate them.
\<close>

named_theorems run_simps "running a monadic program on a state"
named_theorems go_consts "constants of the Go sources"
named_theorems cond_simps "condition lookups after updates"
named_theorems handler_defs "definitions of handlers and their helpers"

section \<open>Running programs\<close>

type_synonym ('w, 'a) prog = "('w, 'a) state"

lemma run_bind [run_simps]:
  "run_state (State_Monad.bind m f) w = (case run_state m w of (a, w') \<Rightarrow> run_state (f a) w')"
  by simp

lemma run_return [run_simps]: "run_state (State_Monad.return a) w = (a, w)"
  by simp

lemma run_if [run_simps]:
  "run_state (if b then m else n) w = (if b then run_state m w else run_state n w)"
  by simp

lemma run_case_sum [run_simps]:
  "run_state (case x of Inl e \<Rightarrow> f e | Inr v \<Rightarrow> g v) w =
     (case x of Inl e \<Rightarrow> run_state (f e) w | Inr v \<Rightarrow> run_state (g v) w)"
  by (cases x) simp_all

lemma run_case_option [run_simps]:
  "run_state (case x of None \<Rightarrow> m | Some v \<Rightarrow> g v) w =
     (case x of None \<Rightarrow> run_state m w | Some v \<Rightarrow> run_state (g v) w)"
  by (cases x) simp_all

lemma run_case_prod [run_simps]:
  "run_state (case p of (a, b) \<Rightarrow> f a b) w = (case p of (a, b) \<Rightarrow> run_state (f a b) w)"
  by (cases p) simp

section \<open>Weakest preconditions\<close>

text \<open>
  \<open>wp m Q w\<close>: the run of \<open>m\<close> from \<open>w\<close> ends with a result and a state that satisfy
  \<open>Q\<close>.  The equations below, in the collection \<open>wp_simps\<close>, take a program text apart;
  each interface of the model adds the equations or rules of its own operations.
\<close>

named_theorems wp_simps "weakest preconditions of program constructs"

definition wp :: "('w, 'a) prog \<Rightarrow> ('a \<Rightarrow> 'w \<Rightarrow> bool) \<Rightarrow> 'w \<Rightarrow> bool" where
  "wp m Q w \<longleftrightarrow> Q (fst (run_state m w)) (snd (run_state m w))"

lemma wp_return [wp_simps]: "wp (State_Monad.return a) Q w \<longleftrightarrow> Q a w"
  by (simp add: wp_def)

lemma wp_bind [wp_simps]: "wp (State_Monad.bind m f) Q w \<longleftrightarrow> wp m (\<lambda>a. wp (f a) Q) w"
  by (simp add: wp_def case_prod_beta)

lemma wp_if [wp_simps]: "wp (if b then m else n) Q w \<longleftrightarrow> (if b then wp m Q w else wp n Q w)"
  by simp

lemma wp_case_sum [wp_simps]:
  "wp (case x of Inl e \<Rightarrow> f e | Inr v \<Rightarrow> g v) Q w \<longleftrightarrow>
     (case x of Inl e \<Rightarrow> wp (f e) Q w | Inr v \<Rightarrow> wp (g v) Q w)"
  by (cases x) simp_all

lemma wp_case_option [wp_simps]:
  "wp (case x of None \<Rightarrow> m | Some v \<Rightarrow> g v) Q w \<longleftrightarrow>
     (case x of None \<Rightarrow> wp m Q w | Some v \<Rightarrow> wp (g v) Q w)"
  by (cases x) simp_all

lemma wp_case_list [wp_simps]:
  "wp (case xs of [] \<Rightarrow> m | y # ys \<Rightarrow> g y ys) Q w \<longleftrightarrow>
     (case xs of [] \<Rightarrow> wp m Q w | y # ys \<Rightarrow> wp (g y ys) Q w)"
  by (cases xs) simp_all

lemma wp_case_prod [wp_simps]:
  "wp (case p of (a, b) \<Rightarrow> f a b) Q w \<longleftrightarrow> (case p of (a, b) \<Rightarrow> wp (f a b) Q w)"
  by (cases p) simp

lemma wp_mono: "wp m P w \<Longrightarrow> (\<And>a w'. P a w' \<Longrightarrow> Q a w') \<Longrightarrow> wp m Q w"
  by (simp add: wp_def)

lemma wp_conj: "wp m P w \<Longrightarrow> wp m Q w \<Longrightarrow> wp m (\<lambda>a w'. P a w' \<and> Q a w') w"
  by (simp add: wp_def)

lemma wp_run: "run_state m w = (a, w') \<Longrightarrow> wp m Q w \<longleftrightarrow> Q a w'"
  by (simp add: wp_def)

section \<open>The first position of a list that satisfies a test\<close>

text \<open>
  A Go loop \<open>for i, c := range xs { if p(c) { ...; break } }\<close> stops at the first
  element that satisfies the test; \<open>first_index\<close> is the index it stops at.
\<close>

fun first_index :: "('a \<Rightarrow> bool) \<Rightarrow> 'a list \<Rightarrow> nat option" where
  "first_index p [] = None"
| "first_index p (x # xs) = (if p x then Some 0 else map_option Suc (first_index p xs))"

lemma first_index_None: "first_index p xs = None \<longleftrightarrow> (\<forall>x \<in> set xs. \<not> p x)"
  by (induction xs) auto

lemma first_index_Some:
  "first_index p xs = Some i \<Longrightarrow> i < length xs \<and> p (xs ! i) \<and> (\<forall>j < i. \<not> p (xs ! j))"
proof (induction xs arbitrary: i)
  case Nil
  then show ?case by simp
next
  case (Cons x xs)
  then show ?case
    by (cases i) (auto simp: nth_Cons split: if_splits nat.splits)
qed

lemma find_first_index:
  "find p xs = (case first_index p xs of None \<Rightarrow> None | Some i \<Rightarrow> Some (xs ! i))"
  by (induction xs) (auto split: option.splits)

text \<open>Updating the slot the search stopped at changes what a search finds there only.\<close>

lemma find_update_first:
  assumes "first_index p xs = Some i" and "p y"
  shows "find p (xs[i := y]) = Some y"
  using assms
proof (induction xs arbitrary: i)
  case Nil
  then show ?case by simp
next
  case (Cons x xs)
  then show ?case by (cases "p x") (auto split: nat.splits)
qed

lemma find_update_other:
  assumes "first_index p xs = Some i" and "\<And>z. p z \<Longrightarrow> \<not> q z" and "\<not> q y"
  shows "find q (xs[i := y]) = find q xs"
  using assms
proof (induction xs arbitrary: i)
  case Nil
  then show ?case by simp
next
  case (Cons x xs)
  then show ?case by (cases "p x") (auto split: nat.splits)
qed

lemma first_index_update:
  assumes "first_index p xs = Some i" and "p y"
  shows "first_index p (xs[i := y]) = Some i"
  using assms
proof (induction xs arbitrary: i)
  case Nil
  then show ?case by simp
next
  case (Cons x xs)
  then show ?case by (cases "p x") (auto split: nat.splits)
qed

lemma first_index_snoc:
  "first_index p xs = None \<Longrightarrow> p y \<Longrightarrow> first_index p (xs @ [y]) = Some (length xs)"
  by (induction xs) (auto split: if_splits)

lemma find_append: "find p (xs @ ys) = (case find p xs of None \<Rightarrow> find p ys | Some z \<Rightarrow> Some z)"
  by (induction xs) auto

lemma find_None_all: "find p xs = None \<longleftrightarrow> (\<forall>x \<in> set xs. \<not> p x)"
  by (induction xs) auto

lemma map_list_update_same: "i < length xs \<Longrightarrow> f y = f (xs ! i) \<Longrightarrow> map f (xs[i := y]) = map f xs"
  by (metis list_update_id map_update)

section \<open>Splitting a string at its last run of digits\<close>

lemma takeWhile_append_stop:
  "(\<forall>x \<in> set xs. p x) \<Longrightarrow> \<not> p y \<Longrightarrow> takeWhile p (xs @ y # ys) = xs"
  by (induction xs) auto

lemma dropWhile_append_stop:
  "(\<forall>x \<in> set xs. p x) \<Longrightarrow> \<not> p y \<Longrightarrow> dropWhile p (xs @ y # ys) = y # ys"
  by (induction xs) auto

text \<open>A list splits in one way at the first element that satisfies a test.\<close>

lemma split_first:
  assumes eq: "xs @ x # ys = zs @ z # ws" and "p x" "p z"
    and "\<forall>v \<in> set xs. \<not> p v" and "\<forall>v \<in> set zs. \<not> p v"
  shows "xs = zs \<and> x = z \<and> ys = ws"
proof -
  have "takeWhile (\<lambda>v. \<not> p v) (xs @ x # ys) = xs" "takeWhile (\<lambda>v. \<not> p v) (zs @ z # ws) = zs"
    using assms(2-5) by (auto intro!: takeWhile_append_stop)
  with eq have "xs = zs" by simp
  with eq show ?thesis by simp
qed

text \<open>
  Two strings that end in a run of \<open>p\<close>-characters, each preceded by a character that is
  not one, are equal only when both parts are.
\<close>

lemma append_run_inject:
  assumes "a @ x # r = b @ y # s"
    and "\<forall>z \<in> set r. p z" and "\<forall>z \<in> set s. p z" and "\<not> p x" and "\<not> p y"
  shows "a = b \<and> x = y \<and> r = s"
proof -
  have eq: "rev r @ x # rev a = rev s @ y # rev b"
    using arg_cong [OF assms(1), of rev] by simp
  have "takeWhile p (rev r @ x # rev a) = rev r"
    using assms(2,4) by (intro takeWhile_append_stop) auto
  moreover have "takeWhile p (rev s @ y # rev b) = rev s"
    using assms(3,5) by (intro takeWhile_append_stop) auto
  ultimately have "rev r = rev s" using eq by simp
  then show ?thesis using eq by simp
qed

end
