(* ===== verification/Go_Runtime.thy ===== *)
theory Go_Runtime
  imports Rufio_Prelude
begin

text \<open>
  The parts of the Go language and its standard library that the sources use: decimal
  formatting (\<open>fmt\<close> verb \<open>%d\<close>, \<open>strconv.Itoa\<close>), \<open>strings.ToLower\<close> and
  \<open>strings.Contains\<close>, instants and durations of package \<open>time\<close>, and error values
  built by \<open>fmt.Errorf\<close>.
\<close>

section \<open>Decimal formatting\<close>

definition digit_char :: "nat \<Rightarrow> char" where
  "digit_char d = char_of (48 + d)"

definition is_digit :: "char \<Rightarrow> bool" where
  "is_digit c \<longleftrightarrow> 48 \<le> (of_char c :: nat) \<and> (of_char c :: nat) \<le> 57"

fun decimal :: "nat \<Rightarrow> string" where
  "decimal n = (if n < 10 then [digit_char n] else decimal (n div 10) @ [digit_char (n mod 10)])"

declare decimal.simps [simp del]

text \<open>\<open>Itoa\<close> prints any integer in base ten, with a sign when it is negative.\<close>

definition Itoa :: "int \<Rightarrow> string" where
  "Itoa i = (if i < 0 then CHR ''-'' # decimal (nat (- i)) else decimal (nat i))"

definition digit_value :: "char \<Rightarrow> nat" where
  "digit_value c = of_char c - 48"

definition decimal_value :: "string \<Rightarrow> nat" where
  "decimal_value s = foldl (\<lambda>v c. 10 * v + digit_value c) 0 s"

lemma of_char_digit_char: "d < 10 \<Longrightarrow> (of_char (digit_char d) :: nat) = 48 + d"
  by (simp add: digit_char_def of_char_of)

lemma is_digit_digit_char: "d < 10 \<Longrightarrow> is_digit (digit_char d)"
  by (simp add: is_digit_def of_char_digit_char)

lemma digit_value_digit_char: "d < 10 \<Longrightarrow> digit_value (digit_char d) = d"
  by (simp add: digit_value_def of_char_digit_char)

lemma decimal_nonempty: "decimal n \<noteq> []"
  by (subst decimal.simps) simp

lemma decimal_digits: "\<forall>c \<in> set (decimal n). is_digit c"
proof (induction n rule: decimal.induct)
  case (1 n)
  show ?case
  proof (cases "n < 10")
    case True
    then show ?thesis by (subst decimal.simps) (simp add: is_digit_digit_char)
  next
    case False
    with "1.IH" have "\<forall>c \<in> set (decimal (n div 10)). is_digit c" by simp
    with False show ?thesis by (subst decimal.simps) (auto simp: is_digit_digit_char)
  qed
qed

lemma decimal_value_decimal: "decimal_value (decimal n) = n"
proof (induction n rule: decimal.induct)
  case (1 n)
  show ?case
  proof (cases "n < 10")
    case True
    then show ?thesis
      by (subst decimal.simps) (simp add: decimal_value_def digit_value_digit_char)
  next
    case False
    with "1.IH" have "decimal_value (decimal (n div 10)) = n div 10" by simp
    with False show ?thesis
      by (subst decimal.simps) (simp add: decimal_value_def digit_value_digit_char)
  qed
qed

lemma decimal_inject: "decimal m = decimal n \<longleftrightarrow> m = n"
  by (metis decimal_value_decimal)

lemma not_is_digit_minus: "\<not> is_digit (CHR ''-'')"
  by (simp add: is_digit_def)

lemma hd_decimal: "hd (decimal n) \<noteq> CHR ''-''"
  using decimal_digits [of n] decimal_nonempty [of n] not_is_digit_minus
  by (metis hd_in_set)

lemma Itoa_inject: "Itoa i = Itoa j \<longleftrightarrow> i = j"
proof
  assume eq: "Itoa i = Itoa j"
  have sign: "(i < 0) = (j < 0)"
    using eq hd_decimal decimal_nonempty by (auto simp: Itoa_def split: if_splits) (metis list.sel(1))+
  then show "i = j"
    using eq by (auto simp: Itoa_def decimal_inject split: if_splits)
qed simp

section \<open>Strings\<close>

text \<open>
  \<open>strings.ToLower\<close> on the bytes of a string.  ASCII letters are mapped; the other bytes
  are kept.  Go also maps letters beyond ASCII, but none of those maps to one of the
  letters \<open>o\<close>, \<open>n\<close>, \<open>f\<close>, so the searches below give the same answer.
\<close>

definition lower_char :: "char \<Rightarrow> char" where
  "lower_char c = (if 65 \<le> (of_char c :: nat) \<and> (of_char c :: nat) \<le> 90
     then char_of (of_char c + 32 :: nat) else c)"

definition ToLower :: "string \<Rightarrow> string" where
  "ToLower s = map lower_char s"

fun has_prefix :: "string \<Rightarrow> string \<Rightarrow> bool" where
  "has_prefix s [] = True"
| "has_prefix [] (p # ps) = False"
| "has_prefix (c # cs) (p # ps) = (c = p \<and> has_prefix cs ps)"

fun Contains :: "string \<Rightarrow> string \<Rightarrow> bool" where
  "Contains [] sub = (sub = [])"
| "Contains (c # cs) sub = (has_prefix (c # cs) sub \<or> Contains cs sub)"

lemma has_prefix_iff: "has_prefix s p \<longleftrightarrow> (\<exists>t. s = p @ t)"
  by (induction s p rule: has_prefix.induct) auto

lemma Contains_iff: "Contains s sub \<longleftrightarrow> (\<exists>a b. s = a @ sub @ b)"
proof (induction s)
  case Nil
  then show ?case by auto
next
  case (Cons c s)
  have "(\<exists>a b. c # s = a @ sub @ b) \<longleftrightarrow> (\<exists>b. c # s = sub @ b) \<or> (\<exists>a b. s = a @ sub @ b)"
    by (metis append_Cons append_Nil list.exhaust list.inject)
  then show ?case using Cons.IH by (simp add: has_prefix_iff del: has_prefix.simps)
qed

lemma lower_char_idem: "lower_char (lower_char c) = lower_char c"
  by (auto simp: lower_char_def of_char_of)

lemma ToLower_idem: "ToLower (ToLower s) = ToLower s"
  by (simp add: ToLower_def lower_char_idem)

section \<open>Instants and durations\<close>

text \<open>
  An instant is the number of nanoseconds since Go's zero time, so the zero \<open>Time\<close> is 0.
  A pointer to \<open>metav1.Time\<close> is an option; \<open>IsZero\<close> holds for nil and for the zero time.
  A duration is an \<open>int64\<close> of nanoseconds, and \<open>time.Since\<close> clips to its range.
\<close>

type_synonym time = int
type_synonym duration = int

definition Time_IsZero :: "time option \<Rightarrow> bool" where
  "Time_IsZero t = (case t of None \<Rightarrow> True | Some i \<Rightarrow> i = 0)"

definition max_duration :: duration where "max_duration = 2 ^ 63 - 1"
definition min_duration :: duration where "min_duration = - (2 ^ 63)"

definition Since :: "time \<Rightarrow> time \<Rightarrow> duration" where
  "Since now t = max min_duration (min max_duration (now - t))"

definition Second :: duration where "Second = 1000000000"
definition Minute :: duration where "Minute = 60 * Second"

lemma Since_ge: "0 \<le> d \<Longrightarrow> d \<le> max_duration \<Longrightarrow> d \<le> Since now t \<longleftrightarrow> t + d \<le> now"
  by (auto simp: Since_def min_duration_def max_duration_def)

declare Second_def [go_consts] Minute_def [go_consts]

section \<open>Errors\<close>

text \<open>
  An error of the Kubernetes API, of which the sources read the text and, through
  \<open>IsNotFound\<close>, the reason; and Go error values: one from outside with its text, an API
  error, a new one, or one that wraps another (\<open>fmt.Errorf("prefix%w", err)\<close>; every
  format of the sources puts the wrapped error last).  A handler returns one error or
  the aggregate of several (\<open>utilerrors.NewAggregate\<close>).
\<close>

record apierror =
  ae_Reason :: string
  ae_Message :: string

datatype goerr =
    Foreign string
  | Api apierror
  | New string
  | Wrap string goerr

fun Error :: "goerr \<Rightarrow> string" where
  "Error (Foreign s) = s"
| "Error (Api e) = ae_Message e"
| "Error (New s) = s"
| "Error (Wrap prefix e) = prefix @ Error e"

datatype handler_error = One goerr | Aggregate "goerr list"

end
