(* ===== verification/Api_Types.thy ===== *)
theory Api_Types
  imports Go_Runtime
begin

text \<open>
  The data of the API group (\<open>api/v1alpha1\<close>): actions, connections and provider options,
  and the three resource kinds Machine, Job and Task.  A Go struct is a record with the
  struct's fields (each prefixed by an abbreviation of the struct), a pointer or an optional value an
  \<open>option\<close>, a slice a list, and a named string type is a string, because the API accepts
  values beyond the declared constants.  A Go map that the sources iterate over is its
  list of entries in iteration order.  Of the Kubernetes metadata only the fields the
  sources read or write are kept.
\<close>

section \<open>Kubernetes metadata\<close>

record TypeMeta =
  tm_APIVersion :: string
  tm_Kind :: string

record OwnerReference =
  or_APIVersion :: string
  or_Kind :: string
  or_Name :: string
  or_UID :: string
  or_Controller :: "bool option"

record ObjectMeta =
  om_Name :: string
  om_Namespace :: string
  om_UID :: string
  om_DeletionTimestamp :: "time option"
  om_OwnerReferences :: "OwnerReference list"

record ListMeta =
  lm_ResourceVersion :: string
  lm_Continue :: string
  lm_RemainingItemCount :: "int option"

record NamespacedName =
  nn_Namespace :: string
  nn_Name :: string

record SecretReference =
  sr_Name :: string
  sr_Namespace :: string

text \<open>The data of a Secret: its entries by key, each value the bytes stored.\<close>

record Secret =
  secret_Data :: "string \<rightharpoonup> string"

text \<open>\<open>schema.GroupVersion\<close>, and the one this API group registers.\<close>

record GroupVersion_t =
  gv_Group :: string
  gv_Version :: string

definition GroupVersion :: GroupVersion_t where
  "GroupVersion = \<lparr>gv_Group = ''bmc.tinkerbell.org'', gv_Version = ''v1alpha1''\<rparr>"

section \<open>Actions\<close>

type_synonym PowerAction = string

definition PowerOn :: PowerAction where "PowerOn = ''on''"
definition PowerHardOff :: PowerAction where "PowerHardOff = ''off''"
definition PowerSoftOff :: PowerAction where "PowerSoftOff = ''soft''"
definition PowerCycle :: PowerAction where "PowerCycle = ''cycle''"
definition PowerReset :: PowerAction where "PowerReset = ''reset''"
definition PowerStatus :: PowerAction where "PowerStatus = ''status''"

type_synonym BootDevice = string

definition PXE :: BootDevice where "PXE = ''pxe''"
definition Disk :: BootDevice where "Disk = ''disk''"
definition BIOS :: BootDevice where "BIOS = ''bios''"
definition CDROM :: BootDevice where "CDROM = ''cdrom''"
definition Safe :: BootDevice where "Safe = ''safe''"

record OneTimeBootDeviceAction =
  bda_Devices :: "BootDevice list"
  bda_EFIBoot :: bool

type_synonym VirtualMediaKind = string

definition VirtualMediaCD :: VirtualMediaKind where "VirtualMediaCD = ''CD''"

record VirtualMediaAction =
  vma_MediaURL :: string
  vma_Kind :: VirtualMediaKind

record Action =
  act_PowerAction :: "PowerAction option"
  act_OneTimeBootDeviceAction :: "OneTimeBootDeviceAction option"
  act_VirtualMediaAction :: "VirtualMediaAction option"

section \<open>Connections and provider options\<close>

type_synonym ProviderName = string

record RedfishOptions =
  rf_Port :: int
  rf_UseBasicAuth :: bool
  rf_SystemName :: string

record IPMITOOLOptions =
  ipmi_Port :: int
  ipmi_CipherSuite :: string

record IntelAMTOptions =
  amt_Port :: int
  amt_HostScheme :: string

text \<open>The entries of \<open>HMACSecrets\<close> and of an \<open>http.Header\<close>, in iteration order.\<close>

type_synonym HMACAlgorithm = string
type_synonym HMACSecrets = "(HMACAlgorithm \<times> SecretReference list) list"
type_synonym Header = "(string \<times> string list) list"

record RequestOpts =
  rq_HTTPContentType :: string
  rq_HTTPMethod :: string
  rq_StaticHeaders :: Header
  rq_TimestampFormat :: string
  rq_TimestampHeader :: string

record SignatureOpts =
  sg_HeaderName :: string
  sg_AppendAlgoToHeaderDisabled :: bool
  sg_IncludedPayloadHeaders :: "string list"

record HMACOpts =
  hm_PrefixSigDisabled :: bool
  hm_Secrets :: HMACSecrets

record ExperimentalOpts =
  ex_CustomRequestPayload :: string
  ex_DotPath :: string

record RPCOptions =
  rpc_ConsumerURL :: string
  rpc_LogNotificationsDisabled :: bool
  rpc_Request :: "RequestOpts option"
  rpc_Signature :: "SignatureOpts option"
  rpc_HMAC :: "HMACOpts option"
  rpc_Experimental :: "ExperimentalOpts option"

record ProviderOptions =
  po_PreferredOrder :: "ProviderName list"
  po_IntelAMT :: "IntelAMTOptions option"
  po_IPMITOOL :: "IPMITOOLOptions option"
  po_Redfish :: "RedfishOptions option"
  po_RPC :: "RPCOptions option"

record Connection =
  cn_Host :: string
  cn_Port :: int
  cn_AuthSecretRef :: SecretReference
  cn_InsecureTLS :: bool
  cn_ProviderOptions :: "ProviderOptions option"

section \<open>Conditions\<close>

type_synonym ConditionStatus = string

definition ConditionTrue :: ConditionStatus where "ConditionTrue = ''True''"
definition ConditionFalse :: ConditionStatus where "ConditionFalse = ''False''"

type_synonym PowerState = string

definition On :: PowerState where "On = ''on''"
definition Off :: PowerState where "Off = ''off''"
definition Unknown :: PowerState where "Unknown = ''unknown''"

type_synonym MachineConditionType = string
type_synonym JobConditionType = string
type_synonym TaskConditionType = string

definition Contactable :: MachineConditionType where "Contactable = ''Contactable''"
definition JobCompleted :: JobConditionType where "JobCompleted = ''Completed''"
definition JobFailed :: JobConditionType where "JobFailed = ''Failed''"
definition JobRunning :: JobConditionType where "JobRunning = ''Running''"
definition TaskCompleted :: TaskConditionType where "TaskCompleted = ''Completed''"
definition TaskFailed :: TaskConditionType where "TaskFailed = ''Failed''"

record MachineCondition =
  mc_Type :: MachineConditionType
  mc_Status :: ConditionStatus
  mc_LastUpdateTime :: time
  mc_Message :: string

record JobCondition =
  jc_Type :: JobConditionType
  jc_Status :: ConditionStatus
  jc_Message :: string

record TaskCondition =
  tc_Type :: TaskConditionType
  tc_Status :: ConditionStatus
  tc_Message :: string

section \<open>Machine, Job and Task\<close>

record MachineSpec =
  msp_Connection :: Connection

record MachineStatus =
  ms_Power :: PowerState
  ms_Conditions :: "MachineCondition list"

record Machine =
  machine_TypeMeta :: TypeMeta
  machine_ObjectMeta :: ObjectMeta
  machine_Spec :: MachineSpec
  machine_Status :: MachineStatus

record MachineRef =
  mr_Name :: string
  mr_Namespace :: string

record JobSpec =
  jsp_MachineRef :: MachineRef
  jsp_Tasks :: "Action list"

record JobStatus =
  js_Conditions :: "JobCondition list"
  js_StartTime :: "time option"
  js_CompletionTime :: "time option"

record Job =
  job_TypeMeta :: TypeMeta
  job_ObjectMeta :: ObjectMeta
  job_Spec :: JobSpec
  job_Status :: JobStatus

record TaskSpec =
  tsp_Task :: Action
  tsp_Connection :: Connection

record TaskStatus =
  ts_Conditions :: "TaskCondition list"
  ts_StartTime :: "time option"
  ts_CompletionTime :: "time option"

record Task =
  task_TypeMeta :: TypeMeta
  task_ObjectMeta :: ObjectMeta
  task_Spec :: TaskSpec
  task_Status :: TaskStatus

text \<open>The lists the API serves of each kind.\<close>

record MachineList =
  ml_TypeMeta :: TypeMeta
  ml_ListMeta :: ListMeta
  ml_Items :: "Machine list"

record JobList =
  jl_TypeMeta :: TypeMeta
  jl_ListMeta :: ListMeta
  jl_Items :: "Job list"

record TaskList =
  tl_TypeMeta :: TypeMeta
  tl_ListMeta :: ListMeta
  tl_Items :: "Task list"

text \<open>Zero values of the structs the sources build field by field.\<close>

definition empty_TypeMeta :: TypeMeta where
  "empty_TypeMeta = \<lparr>tm_APIVersion = [], tm_Kind = []\<rparr>"

definition empty_ObjectMeta :: ObjectMeta where
  "empty_ObjectMeta = \<lparr>om_Name = [], om_Namespace = [], om_UID = [], om_DeletionTimestamp = None,
     om_OwnerReferences = []\<rparr>"

definition empty_Action :: Action where
  "empty_Action = \<lparr>act_PowerAction = None, act_OneTimeBootDeviceAction = None, act_VirtualMediaAction = None\<rparr>"

definition empty_Connection :: Connection where
  "empty_Connection = \<lparr>cn_Host = [], cn_Port = 0, cn_AuthSecretRef = \<lparr>sr_Name = [], sr_Namespace = []\<rparr>,
     cn_InsecureTLS = False, cn_ProviderOptions = None\<rparr>"

definition empty_TaskStatus :: TaskStatus where
  "empty_TaskStatus = \<lparr>ts_Conditions = [], ts_StartTime = None, ts_CompletionTime = None\<rparr>"

abbreviation job_Name :: "Job \<Rightarrow> string" where "job_Name j \<equiv> om_Name (job_ObjectMeta j)"
abbreviation job_Namespace :: "Job \<Rightarrow> string" where "job_Namespace j \<equiv> om_Namespace (job_ObjectMeta j)"
abbreviation task_Name :: "Task \<Rightarrow> string" where "task_Name t \<equiv> om_Name (task_ObjectMeta t)"
abbreviation task_Namespace :: "Task \<Rightarrow> string" where "task_Namespace t \<equiv> om_Namespace (task_ObjectMeta t)"

abbreviation nn :: "string \<Rightarrow> string \<Rightarrow> NamespacedName" where
  "nn ns n \<equiv> \<lparr>nn_Namespace = ns, nn_Name = n\<rparr>"

declare
  PowerOn_def [go_consts] PowerHardOff_def [go_consts] PowerSoftOff_def [go_consts]
  PowerCycle_def [go_consts] PowerReset_def [go_consts] PowerStatus_def [go_consts]
  ConditionTrue_def [go_consts] ConditionFalse_def [go_consts]
  On_def [go_consts] Off_def [go_consts] Unknown_def [go_consts]
  Contactable_def [go_consts] JobCompleted_def [go_consts] JobFailed_def [go_consts]
  JobRunning_def [go_consts] TaskCompleted_def [go_consts] TaskFailed_def [go_consts]

text \<open>The condition types of one kind are told apart by their names.\<close>

lemma task_types_differ [simp]: "TaskCompleted \<noteq> TaskFailed" "TaskFailed \<noteq> TaskCompleted"
  by (simp_all add: go_consts)

lemma job_types_differ [simp]:
  "JobCompleted \<noteq> JobFailed" "JobFailed \<noteq> JobCompleted" "JobCompleted \<noteq> JobRunning"
  "JobRunning \<noteq> JobCompleted" "JobFailed \<noteq> JobRunning" "JobRunning \<noteq> JobFailed"
  by (simp_all add: go_consts)

lemma statuses_differ [simp]: "ConditionTrue \<noteq> ConditionFalse" "ConditionFalse \<noteq> ConditionTrue"
  by (simp_all add: go_consts)

lemma power_states_differ [simp]:
  "On \<noteq> Off" "Off \<noteq> On" "On \<noteq> Unknown" "Unknown \<noteq> On" "Off \<noteq> Unknown" "Unknown \<noteq> Off"
  by (simp_all add: go_consts)

end
