(* ===== verification/Api_Conditions.thy ===== *)
theory Api_Conditions
  imports Api_Types
begin

text \<open>
  Conditions of Machines, Jobs and Tasks: \<open>SetCondition\<close> and \<open>HasCondition\<close> of
  \<open>api/v1alpha1/machine.go\<close>, \<open>job.go\<close> and \<open>task.go\<close>.  The three kinds share one contract,
  the locale \<open>condition_list\<close>: the list behaves as a map from condition types to statuses,
  and keeps one entry per type.  Jobs and Tasks also have a query, the locale
  \<open>condition_query\<close>.  The model's definitions interpret the locales.
\<close>

section \<open>The slot a condition is written to\<close>

text \<open>
  The common first half of the three \<open>SetCondition\<close> methods: find the first condition that
  satisfies the test, or append a new one; the result is the list and the index written to.
\<close>

definition cond_slot :: "('c \<Rightarrow> bool) \<Rightarrow> 'c \<Rightarrow> 'c list \<Rightarrow> 'c list \<times> nat" where
  "cond_slot p new cs = (case first_index p cs of
     Some i \<Rightarrow> (cs, i)
   | None \<Rightarrow> (cs @ [new], length cs))"

text \<open>Writing a function of the slot's content back to the slot.\<close>

definition write_slot :: "('c \<Rightarrow> bool) \<Rightarrow> 'c \<Rightarrow> ('c \<Rightarrow> 'c) \<Rightarrow> 'c list \<Rightarrow> 'c list" where
  "write_slot p new f cs = (let (cs', i) = cond_slot p new cs in cs'[i := f (cs' ! i)])"

lemma write_slot_find:
  assumes "p new" and "\<And>c. p c \<Longrightarrow> p (f c)"
  shows "find p (write_slot p new f cs) = Some (f (case find p cs of None \<Rightarrow> new | Some c \<Rightarrow> c))"
proof (cases "first_index p cs")
  case None
  then have "find p cs = None" by (simp add: find_first_index)
  with None assms show ?thesis
    by (simp add: write_slot_def cond_slot_def find_append list_update_append)
next
  case (Some i)
  have "p (cs ! i)" using first_index_Some [OF Some] by simp
  then have "find p (cs[i := f (cs ! i)]) = Some (f (cs ! i))"
    using assms(2) by (intro find_update_first [OF Some]) auto
  with Some show ?thesis
    by (simp add: write_slot_def cond_slot_def find_first_index [of p cs])
qed

lemma write_slot_find_other:
  assumes "p new" and "\<And>c. p c \<Longrightarrow> p (f c)" and "\<And>c. p c \<Longrightarrow> \<not> q c"
  shows "find q (write_slot p new f cs) = find q cs"
proof (cases "first_index p cs")
  case None
  with assms show ?thesis
    by (simp add: write_slot_def cond_slot_def find_append list_update_append split: option.splits)
next
  case (Some i)
  have "p (cs ! i)" using first_index_Some [OF Some] by simp
  then have "find q (cs[i := f (cs ! i)]) = find q cs"
    using assms(2,3) by (intro find_update_other [OF Some]) auto
  with Some show ?thesis by (simp add: write_slot_def cond_slot_def)
qed

lemma filter_update_other: "\<not> q (xs ! i) \<Longrightarrow> \<not> q y \<Longrightarrow> filter q (xs[i := y]) = filter q xs"
  by (induction xs arbitrary: i) (auto split: nat.splits)

lemma write_slot_filter:
  assumes "p new" and "\<And>c. p c \<Longrightarrow> p (f c)" and "\<And>c. p c \<Longrightarrow> \<not> q c"
  shows "filter q (write_slot p new f cs) = filter q cs"
proof (cases "first_index p cs")
  case None
  with assms show ?thesis by (simp add: write_slot_def cond_slot_def list_update_append)
next
  case (Some i)
  have "p (cs ! i)" using first_index_Some [OF Some] by simp
  with Some assms show ?thesis by (simp add: write_slot_def cond_slot_def filter_update_other)
qed

lemma write_slot_idem:
  assumes "p new" and "\<And>c. p c \<Longrightarrow> p (f c)" and "\<And>c. g (f c) = f c"
  shows "write_slot p new g (write_slot p new f cs) = write_slot p new f cs"
proof (cases "first_index p cs")
  case None
  with assms show ?thesis
    by (simp add: write_slot_def cond_slot_def list_update_append first_index_snoc)
next
  case (Some i)
  have i: "i < length cs" "p (cs ! i)" using first_index_Some [OF Some] by simp_all
  then have "first_index p (cs[i := f (cs ! i)]) = Some i"
    using assms(2) by (intro first_index_update [OF Some]) auto
  with Some i assms(3) show ?thesis by (simp add: write_slot_def cond_slot_def)
qed

lemma write_slot_keys:
  assumes "key new = k" and "\<And>c. key c = k \<Longrightarrow> key (f c) = k"
  shows "map key (write_slot (\<lambda>c. key c = k) new f cs) =
    (if k \<in> set (map key cs) then map key cs else map key cs @ [k])"
proof (cases "first_index (\<lambda>c. key c = k) cs")
  case None
  then have "k \<notin> set (map key cs)" by (auto simp: first_index_None)
  moreover have "key (f new) = k" using assms by blast
  ultimately show ?thesis
    using None by (simp add: write_slot_def cond_slot_def list_update_append)
next
  case (Some i)
  have i: "i < length cs" "key (cs ! i) = k" using first_index_Some [OF Some] by simp_all
  then have "k \<in> set (map key cs)" using nth_mem by fastforce
  moreover have "map key (cs[i := f (cs ! i)]) = map key cs"
    using i assms(2) by (intro map_list_update_same) auto
  ultimately show ?thesis using Some by (simp add: write_slot_def cond_slot_def)
qed

text \<open>Options (functions on a condition) that leave its type and status alone.\<close>

definition keeps_key :: "('c \<Rightarrow> string) \<Rightarrow> ('c \<Rightarrow> string) \<Rightarrow> ('c \<Rightarrow> 'c) list \<Rightarrow> bool" where
  "keeps_key ty st opts \<longleftrightarrow> list_all (\<lambda>f. \<forall>c. ty (f c) = ty c \<and> st (f c) = st c) opts"

lemma keeps_key_Nil [simp]: "keeps_key ty st []"
  by (simp add: keeps_key_def)

lemma keeps_key_Cons [simp]:
  "keeps_key ty st (f # fs) \<longleftrightarrow> (\<forall>c. ty (f c) = ty c \<and> st (f c) = st c) \<and> keeps_key ty st fs"
  by (simp add: keeps_key_def)

lemma keeps_key_fold:
  "keeps_key ty st opts \<Longrightarrow>
    ty (fold (\<lambda>opt. opt) opts c) = ty c \<and> st (fold (\<lambda>opt. opt) opts c) = st c"
  by (induction opts arbitrary: c) simp_all

section \<open>The contract of a condition list\<close>

locale condition_list =
  fixes conds :: "'o \<Rightarrow> 'c list"
    and ctype :: "'c \<Rightarrow> string"
    and cstatus :: "'c \<Rightarrow> string"
    and set_cond :: "'o \<Rightarrow> string \<Rightarrow> string \<Rightarrow> ('c \<Rightarrow> 'c) list \<Rightarrow> 'o"
  assumes set_status: "keeps_key ctype cstatus opts \<Longrightarrow>
      map_option cstatus (find (\<lambda>c. ctype c = ty) (conds (set_cond x ty st opts))) = Some st"
    and set_other: "keeps_key ctype cstatus opts \<Longrightarrow> ty' \<noteq> ty \<Longrightarrow>
      find (\<lambda>c. ctype c = ty') (conds (set_cond x ty st opts)) = find (\<lambda>c. ctype c = ty') (conds x)"
    and set_types: "keeps_key ctype cstatus opts \<Longrightarrow>
      map ctype (conds (set_cond x ty st opts)) =
        (if ty \<in> set (map ctype (conds x)) then map ctype (conds x) else map ctype (conds x) @ [ty])"
begin

text \<open>The map a condition list stands for.\<close>

definition view :: "'o \<Rightarrow> string \<rightharpoonup> string" where
  "view x = (\<lambda>ty. map_option cstatus (find (\<lambda>c. ctype c = ty) (conds x)))"

lemma view_set: "keeps_key ctype cstatus opts \<Longrightarrow> view (set_cond x ty st opts) = (view x)(ty \<mapsto> st)"
  by (rule ext) (simp add: view_def set_status set_other)

lemma distinct_set:
  "keeps_key ctype cstatus opts \<Longrightarrow> distinct (map ctype (conds x)) \<Longrightarrow>
    distinct (map ctype (conds (set_cond x ty st opts)))"
  by (simp add: set_types)

lemma length_set:
  "keeps_key ctype cstatus opts \<Longrightarrow>
    length (conds (set_cond x ty st opts)) =
      (if ty \<in> ctype ` set (conds x) then length (conds x) else Suc (length (conds x)))"
  using set_types [of opts x ty st] by (metis image_set length_append_singleton length_map)

text \<open>Any sequence of updates: each type ends with the status written to it last.\<close>

definition set_all :: "(string \<times> string \<times> ('c \<Rightarrow> 'c) list) list \<Rightarrow> 'o \<Rightarrow> 'o" where
  "set_all us x = fold (\<lambda>(ty, st, opts) y. set_cond y ty st opts) us x"

definition keep_all :: "(string \<times> string \<times> ('c \<Rightarrow> 'c) list) list \<Rightarrow> bool" where
  "keep_all us \<longleftrightarrow> list_all (\<lambda>(ty, st, opts). keeps_key ctype cstatus opts) us"

lemma view_set_all:
  "keep_all us \<Longrightarrow> view (set_all us x) = view x ++ map_of (rev (map (\<lambda>(ty, st, opts). (ty, st)) us))"
proof (induction us arbitrary: x)
  case Nil
  then show ?case by (simp add: set_all_def)
next
  case (Cons u us)
  obtain ty st opts where u: "u = (ty, st, opts)" by (cases u) auto
  have "keep_all us" "keeps_key ctype cstatus opts" using Cons.prems u by (simp_all add: keep_all_def)
  then have "view (set_all us (set_cond x ty st opts)) =
      (view x)(ty \<mapsto> st) ++ map_of (rev (map (\<lambda>(ty, st, opts). (ty, st)) us))"
    using Cons.IH by (simp add: view_set)
  then show ?case
    using u by (auto simp: set_all_def map_add_def fun_eq_iff split: option.splits)
qed

lemma distinct_set_all:
  "keep_all us \<Longrightarrow> distinct (map ctype (conds x)) \<Longrightarrow> distinct (map ctype (conds (set_all us x)))"
  by (induction us arbitrary: x) (auto simp: set_all_def keep_all_def distinct_set)

end

text \<open>A condition list with a query for a type having a status.\<close>

locale condition_query = condition_list conds ctype cstatus set_cond
  for conds :: "'o \<Rightarrow> 'c list"
    and ctype :: "'c \<Rightarrow> string"
    and cstatus :: "'c \<Rightarrow> string"
    and set_cond :: "'o \<Rightarrow> string \<Rightarrow> string \<Rightarrow> ('c \<Rightarrow> 'c) list \<Rightarrow> 'o" +
  fixes has_cond :: "'o \<Rightarrow> string \<Rightarrow> string \<Rightarrow> bool"
  assumes has_find: "has_cond x ty st \<longleftrightarrow>
      (case find (\<lambda>c. ctype c = ty) (conds x) of None \<Rightarrow> False | Some c \<Rightarrow> cstatus c = st)"
begin

lemma has_view: "has_cond x ty st \<longleftrightarrow> view x ty = Some st"
  by (simp add: has_find view_def split: option.splits)

lemma has_set:
  "keeps_key ctype cstatus opts \<Longrightarrow>
    has_cond (set_cond x ty st opts) ty' st' \<longleftrightarrow> (if ty' = ty then st' = st else has_cond x ty' st')"
  by (auto simp: has_view view_set)

lemma has_set_all:
  "keep_all us \<Longrightarrow> has_cond (set_all us x) ty st \<longleftrightarrow>
    (case map_of (rev (map (\<lambda>(ty, st, opts). (ty, st)) us)) ty of
       None \<Rightarrow> has_cond x ty st | Some st' \<Rightarrow> st' = st)"
  by (simp add: has_view view_set_all map_add_def split: option.splits)

lemma has_unique: "has_cond x ty st \<Longrightarrow> has_cond x ty st' \<Longrightarrow> st = st'"
  by (simp add: has_view)

lemma has_cong: "conds x = conds y \<Longrightarrow> has_cond x = has_cond y"
  by (simp add: has_find fun_eq_iff)

end

section \<open>Tasks\<close>

definition WithTaskConditionMessage :: "string \<Rightarrow> TaskCondition \<Rightarrow> TaskCondition" where
  "WithTaskConditionMessage m c = c\<lparr>tc_Message := m\<rparr>"

definition Task_SetCondition ::
  "Task \<Rightarrow> TaskConditionType \<Rightarrow> ConditionStatus \<Rightarrow> (TaskCondition \<Rightarrow> TaskCondition) list \<Rightarrow> Task" where
  "Task_SetCondition t cType status opts =
     (let (cs, i) = cond_slot (\<lambda>c. tc_Type c = cType)
            \<lparr>tc_Type = cType, tc_Status = [], tc_Message = []\<rparr> (ts_Conditions (task_Status t));
          condition = (cs ! i)\<lparr>tc_Status := status\<rparr>;
          condition = fold (\<lambda>opt. opt) opts condition
      in t\<lparr>task_Status := (task_Status t)\<lparr>ts_Conditions := cs[i := condition]\<rparr>\<rparr>)"

definition Task_HasCondition :: "Task \<Rightarrow> TaskConditionType \<Rightarrow> ConditionStatus \<Rightarrow> bool" where
  "Task_HasCondition t cType cStatus =
     (case find (\<lambda>c. tc_Type c = cType) (ts_Conditions (task_Status t)) of
        Some c \<Rightarrow> tc_Status c = cStatus
      | None \<Rightarrow> False)"

lemma Task_SetCondition_slot:
  "Task_SetCondition t cType status opts =
    t\<lparr>task_Status := (task_Status t)\<lparr>ts_Conditions :=
      write_slot (\<lambda>c. tc_Type c = cType) \<lparr>tc_Type = cType, tc_Status = [], tc_Message = []\<rparr>
        (\<lambda>c. fold (\<lambda>opt. opt) opts (c\<lparr>tc_Status := status\<rparr>)) (ts_Conditions (task_Status t))\<rparr>\<rparr>"
  by (simp add: Task_SetCondition_def write_slot_def Let_def split: prod.splits)

abbreviation task_conds :: "Task \<Rightarrow> TaskCondition list" where
  "task_conds t \<equiv> ts_Conditions (task_Status t)"

interpretation tq: condition_query task_conds tc_Type tc_Status Task_SetCondition Task_HasCondition
proof unfold_locales
  fix opts :: "(TaskCondition \<Rightarrow> TaskCondition) list" and ty ty' st t
  assume keeps: "keeps_key tc_Type tc_Status opts"
  note [simp] = keeps_key_fold [OF keeps]
  show "map_option tc_Status (find (\<lambda>c. tc_Type c = ty) (task_conds (Task_SetCondition t ty st opts))) = Some st"
    by (simp add: Task_SetCondition_slot write_slot_find)
  show "find (\<lambda>c. tc_Type c = ty') (task_conds (Task_SetCondition t ty st opts)) =
      find (\<lambda>c. tc_Type c = ty') (task_conds t)" if "ty' \<noteq> ty"
    using that by (simp add: Task_SetCondition_slot) (rule write_slot_find_other; auto)
  show "map tc_Type (task_conds (Task_SetCondition t ty st opts)) =
      (if ty \<in> set (map tc_Type (task_conds t)) then map tc_Type (task_conds t)
       else map tc_Type (task_conds t) @ [ty])"
    by (simp add: Task_SetCondition_slot write_slot_keys)
qed (simp add: Task_HasCondition_def split: option.splits)

text \<open>A sequence of condition updates as the controllers write them: type, status, messages.\<close>

definition task_updates :: "(string \<times> string \<times> string list) list \<Rightarrow> Task \<Rightarrow> Task" where
  "task_updates us t = fold (\<lambda>(ty, st, ms) y. Task_SetCondition y ty st (map WithTaskConditionMessage ms)) us t"

lemma task_messages_keep: "keeps_key tc_Type tc_Status (map WithTaskConditionMessage ms)"
  by (induction ms) (simp_all add: WithTaskConditionMessage_def)

lemma task_updates_set_all:
  "task_updates us t = tq.set_all (map (\<lambda>(ty, st, ms). (ty, st, map WithTaskConditionMessage ms)) us) t"
  by (induction us arbitrary: t) (auto simp: task_updates_def tq.set_all_def)

lemma task_updates_keys:
  "map (\<lambda>(ty, st, opts). (ty, st)) (map (\<lambda>(ty, st, ms). (ty, st, map WithTaskConditionMessage ms)) us) =
    map (\<lambda>(ty, st, ms). (ty, st)) us"
  by (induction us) auto

lemma task_updates_keep_all:
  "tq.keep_all (map (\<lambda>(ty, st, ms). (ty, st, map WithTaskConditionMessage ms)) us)"
  by (induction us) (auto simp: tq.keep_all_def task_messages_keep)

text \<open>C39. Task conditions behave as a map from types to statuses: after any sequence of
  \<open>SetCondition\<close> calls, with any messages, \<open>HasCondition\<close> answers by the last status written to the type,
  or as before when none was; a list with one entry per type keeps that shape.\<close>

theorem task_conditions_map:
  assumes "distinct (map tc_Type (task_conds t))"
  shows "(Task_HasCondition (task_updates us t) ty st \<longleftrightarrow>
      (case map_of (rev (map (\<lambda>(ty, st, ms). (ty, st)) us)) ty of
         None \<Rightarrow> Task_HasCondition t ty st | Some st' \<Rightarrow> st' = st)) \<and>
    distinct (map tc_Type (task_conds (task_updates us t)))"
proof
  show "Task_HasCondition (task_updates us t) ty st \<longleftrightarrow>
      (case map_of (rev (map (\<lambda>(ty, st, ms). (ty, st)) us)) ty of
         None \<Rightarrow> Task_HasCondition t ty st | Some st' \<Rightarrow> st' = st)"
    unfolding task_updates_set_all tq.has_set_all [OF task_updates_keep_all] task_updates_keys ..
  show "distinct (map tc_Type (task_conds (task_updates us t)))"
    unfolding task_updates_set_all by (rule tq.distinct_set_all [OF task_updates_keep_all assms])
qed

definition blank_task :: Task where
  "blank_task = \<lparr>task_TypeMeta = empty_TypeMeta, task_ObjectMeta = empty_ObjectMeta,
     task_Spec = \<lparr>tsp_Task = empty_Action, tsp_Connection = empty_Connection\<rparr>,
     task_Status = empty_TaskStatus\<rparr>"

theorem task_conditions_map_witness:
  "Task_HasCondition (task_updates [(TaskFailed, ConditionTrue, [''a'']), (TaskFailed, ConditionFalse, [])] blank_task)
     TaskFailed ConditionFalse"
proof -
  have d: "distinct (map tc_Type (task_conds blank_task))"
    by (simp add: blank_task_def empty_TaskStatus_def)
  show ?thesis
    using task_conditions_map [OF d, of "[(TaskFailed, ConditionTrue, [''a'']), (TaskFailed, ConditionFalse, [])]"
        TaskFailed ConditionFalse] by simp
qed

section \<open>Jobs\<close>

definition WithJobConditionMessage :: "string \<Rightarrow> JobCondition \<Rightarrow> JobCondition" where
  "WithJobConditionMessage m c = c\<lparr>jc_Message := m\<rparr>"

definition Job_SetCondition ::
  "Job \<Rightarrow> JobConditionType \<Rightarrow> ConditionStatus \<Rightarrow> (JobCondition \<Rightarrow> JobCondition) list \<Rightarrow> Job" where
  "Job_SetCondition j cType status opts =
     (let (cs, i) = cond_slot (\<lambda>c. jc_Type c = cType)
            \<lparr>jc_Type = cType, jc_Status = [], jc_Message = []\<rparr> (js_Conditions (job_Status j));
          condition = (cs ! i)\<lparr>jc_Status := status\<rparr>;
          condition = fold (\<lambda>opt. opt) opts condition
      in j\<lparr>job_Status := (job_Status j)\<lparr>js_Conditions := cs[i := condition]\<rparr>\<rparr>)"

definition Job_HasCondition :: "Job \<Rightarrow> JobConditionType \<Rightarrow> ConditionStatus \<Rightarrow> bool" where
  "Job_HasCondition j cType cStatus =
     (case find (\<lambda>c. jc_Type c = cType) (js_Conditions (job_Status j)) of
        Some c \<Rightarrow> jc_Status c = cStatus
      | None \<Rightarrow> False)"

lemma Job_SetCondition_slot:
  "Job_SetCondition j cType status opts =
    j\<lparr>job_Status := (job_Status j)\<lparr>js_Conditions :=
      write_slot (\<lambda>c. jc_Type c = cType) \<lparr>jc_Type = cType, jc_Status = [], jc_Message = []\<rparr>
        (\<lambda>c. fold (\<lambda>opt. opt) opts (c\<lparr>jc_Status := status\<rparr>)) (js_Conditions (job_Status j))\<rparr>\<rparr>"
  by (simp add: Job_SetCondition_def write_slot_def Let_def split: prod.splits)

abbreviation job_conds :: "Job \<Rightarrow> JobCondition list" where
  "job_conds j \<equiv> js_Conditions (job_Status j)"

interpretation jq: condition_query job_conds jc_Type jc_Status Job_SetCondition Job_HasCondition
proof unfold_locales
  fix opts :: "(JobCondition \<Rightarrow> JobCondition) list" and ty ty' st j
  assume keeps: "keeps_key jc_Type jc_Status opts"
  note [simp] = keeps_key_fold [OF keeps]
  show "map_option jc_Status (find (\<lambda>c. jc_Type c = ty) (job_conds (Job_SetCondition j ty st opts))) = Some st"
    by (simp add: Job_SetCondition_slot write_slot_find)
  show "find (\<lambda>c. jc_Type c = ty') (job_conds (Job_SetCondition j ty st opts)) =
      find (\<lambda>c. jc_Type c = ty') (job_conds j)" if "ty' \<noteq> ty"
    using that by (simp add: Job_SetCondition_slot) (rule write_slot_find_other; auto)
  show "map jc_Type (job_conds (Job_SetCondition j ty st opts)) =
      (if ty \<in> set (map jc_Type (job_conds j)) then map jc_Type (job_conds j)
       else map jc_Type (job_conds j) @ [ty])"
    by (simp add: Job_SetCondition_slot write_slot_keys)
qed (simp add: Job_HasCondition_def split: option.splits)

text \<open>A sequence of condition updates as the controllers write them: type, status, messages.\<close>

definition job_updates :: "(string \<times> string \<times> string list) list \<Rightarrow> Job \<Rightarrow> Job" where
  "job_updates us j = fold (\<lambda>(ty, st, ms) y. Job_SetCondition y ty st (map WithJobConditionMessage ms)) us j"

lemma job_messages_keep: "keeps_key jc_Type jc_Status (map WithJobConditionMessage ms)"
  by (induction ms) (simp_all add: WithJobConditionMessage_def)

lemma job_updates_set_all:
  "job_updates us j = jq.set_all (map (\<lambda>(ty, st, ms). (ty, st, map WithJobConditionMessage ms)) us) j"
  by (induction us arbitrary: j) (auto simp: job_updates_def jq.set_all_def)

lemma job_updates_keys:
  "map (\<lambda>(ty, st, opts). (ty, st)) (map (\<lambda>(ty, st, ms). (ty, st, map WithJobConditionMessage ms)) us) =
    map (\<lambda>(ty, st, ms). (ty, st)) us"
  by (induction us) auto

lemma job_updates_keep_all:
  "jq.keep_all (map (\<lambda>(ty, st, ms). (ty, st, map WithJobConditionMessage ms)) us)"
  by (induction us) (auto simp: jq.keep_all_def job_messages_keep)

text \<open>C40. Job conditions behave as a map from types to statuses: after any sequence of
  \<open>SetCondition\<close> calls, with any messages, \<open>HasCondition\<close> answers by the last status written to the type,
  or as before when none was; a list with one entry per type keeps that shape.\<close>

theorem job_conditions_map:
  assumes "distinct (map jc_Type (job_conds j))"
  shows "(Job_HasCondition (job_updates us j) ty st \<longleftrightarrow>
      (case map_of (rev (map (\<lambda>(ty, st, ms). (ty, st)) us)) ty of
         None \<Rightarrow> Job_HasCondition j ty st | Some st' \<Rightarrow> st' = st)) \<and>
    distinct (map jc_Type (job_conds (job_updates us j)))"
proof
  show "Job_HasCondition (job_updates us j) ty st \<longleftrightarrow>
      (case map_of (rev (map (\<lambda>(ty, st, ms). (ty, st)) us)) ty of
         None \<Rightarrow> Job_HasCondition j ty st | Some st' \<Rightarrow> st' = st)"
    unfolding job_updates_set_all jq.has_set_all [OF job_updates_keep_all] job_updates_keys ..
  show "distinct (map jc_Type (job_conds (job_updates us j)))"
    unfolding job_updates_set_all by (rule jq.distinct_set_all [OF job_updates_keep_all assms])
qed

definition blank_job :: Job where
  "blank_job = \<lparr>job_TypeMeta = empty_TypeMeta, job_ObjectMeta = empty_ObjectMeta,
     job_Spec = \<lparr>jsp_MachineRef = \<lparr>mr_Name = [], mr_Namespace = []\<rparr>, jsp_Tasks = []\<rparr>,
     job_Status = \<lparr>js_Conditions = [], js_StartTime = None, js_CompletionTime = None\<rparr>\<rparr>"

theorem job_conditions_map_witness:
  "Job_HasCondition (job_updates [(JobRunning, ConditionTrue, []), (JobFailed, ConditionTrue, [''e''])] blank_job)
     JobRunning ConditionTrue"
proof -
  have d: "distinct (map jc_Type (job_conds blank_job))"
    by (simp add: blank_job_def)
  show ?thesis
    using job_conditions_map [OF d, of "[(JobRunning, ConditionTrue, []), (JobFailed, ConditionTrue, [''e''])]"
        JobRunning ConditionTrue] by simp
qed

section \<open>Machines\<close>

text \<open>
  A Machine condition also has the time of its last change.  \<open>now\<close> is what
  \<open>metav1.Now()\<close> returns if the method calls it, which it does when the status changes; the
  handlers read the clock before the call in any case, and the time is not used otherwise.
\<close>

definition WithMachineConditionMessage :: "string \<Rightarrow> MachineCondition \<Rightarrow> MachineCondition" where
  "WithMachineConditionMessage m c = c\<lparr>mc_Message := m\<rparr>"

definition Machine_SetCondition ::
  "time \<Rightarrow> Machine \<Rightarrow> MachineConditionType \<Rightarrow> ConditionStatus \<Rightarrow>
    (MachineCondition \<Rightarrow> MachineCondition) list \<Rightarrow> Machine" where
  "Machine_SetCondition now bm cType status opts =
     (let (cs, i) = cond_slot (\<lambda>c. mc_Type c = cType)
            \<lparr>mc_Type = cType, mc_Status = [], mc_LastUpdateTime = 0, mc_Message = []\<rparr>
            (ms_Conditions (machine_Status bm));
          condition = cs ! i;
          condition = (if mc_Status condition \<noteq> status
            then condition\<lparr>mc_Status := status, mc_LastUpdateTime := now\<rparr> else condition);
          condition = fold (\<lambda>opt. opt) opts condition
      in bm\<lparr>machine_Status := (machine_Status bm)\<lparr>ms_Conditions := cs[i := condition]\<rparr>\<rparr>)"

lemma Machine_SetCondition_slot:
  "Machine_SetCondition now bm cType status opts =
    bm\<lparr>machine_Status := (machine_Status bm)\<lparr>ms_Conditions :=
      write_slot (\<lambda>c. mc_Type c = cType)
        \<lparr>mc_Type = cType, mc_Status = [], mc_LastUpdateTime = 0, mc_Message = []\<rparr>
        (\<lambda>c. fold (\<lambda>opt. opt) opts (if mc_Status c \<noteq> status
            then c\<lparr>mc_Status := status, mc_LastUpdateTime := now\<rparr> else c))
        (ms_Conditions (machine_Status bm))\<rparr>\<rparr>"
  by (simp add: Machine_SetCondition_def write_slot_def Let_def split: prod.splits)

abbreviation machine_conds :: "Machine \<Rightarrow> MachineCondition list" where
  "machine_conds bm \<equiv> ms_Conditions (machine_Status bm)"

interpretation mq: condition_list machine_conds mc_Type mc_Status "Machine_SetCondition now" for now
proof unfold_locales
  fix opts :: "(MachineCondition \<Rightarrow> MachineCondition) list" and ty ty' st bm
  assume keeps: "keeps_key mc_Type mc_Status opts"
  note [simp] = keeps_key_fold [OF keeps]
  show "map_option mc_Status
      (find (\<lambda>c. mc_Type c = ty) (machine_conds (Machine_SetCondition now bm ty st opts))) = Some st"
    by (simp add: Machine_SetCondition_slot write_slot_find)
  show "find (\<lambda>c. mc_Type c = ty') (machine_conds (Machine_SetCondition now bm ty st opts)) =
      find (\<lambda>c. mc_Type c = ty') (machine_conds bm)" if "ty' \<noteq> ty"
    using that by (simp add: Machine_SetCondition_slot) (rule write_slot_find_other; auto)
  show "map mc_Type (machine_conds (Machine_SetCondition now bm ty st opts)) =
      (if ty \<in> set (map mc_Type (machine_conds bm)) then map mc_Type (machine_conds bm)
       else map mc_Type (machine_conds bm) @ [ty])"
    by (simp add: Machine_SetCondition_slot write_slot_keys)
qed

lemma Machine_SetCondition_found:
  "find (\<lambda>c. mc_Type c = ty)
      (machine_conds (Machine_SetCondition now bm ty st [WithMachineConditionMessage m])) =
    Some \<lparr>mc_Type = ty, mc_Status = st,
      mc_LastUpdateTime = (case find (\<lambda>c. mc_Type c = ty) (machine_conds bm) of
         Some c \<Rightarrow> if mc_Status c = st then mc_LastUpdateTime c else now
       | None \<Rightarrow> if st = [] then 0 else now),
      mc_Message = m\<rparr>"
proof -
  let ?f = "\<lambda>c. fold (\<lambda>opt. opt) [WithMachineConditionMessage m] (if mc_Status c \<noteq> st
      then c\<lparr>mc_Status := st, mc_LastUpdateTime := now\<rparr> else c)"
  let ?new = "\<lparr>mc_Type = ty, mc_Status = [], mc_LastUpdateTime = 0, mc_Message = []\<rparr>"
  have keep: "mc_Type (?f c) = ty" if "mc_Type c = ty" for c
    using that by (simp add: WithMachineConditionMessage_def)
  have found: "mc_Type c = ty" if "find (\<lambda>c. mc_Type c = ty) (machine_conds bm) = Some c" for c
    using that by (auto simp: find_Some_iff)
  have set: "find (\<lambda>c. mc_Type c = ty) (write_slot (\<lambda>c. mc_Type c = ty) ?new ?f (machine_conds bm)) =
      Some (?f (case find (\<lambda>c. mc_Type c = ty) (machine_conds bm) of None \<Rightarrow> ?new | Some c \<Rightarrow> c))"
    by (rule write_slot_find) (simp_all add: keep WithMachineConditionMessage_def)
  show ?thesis
  proof (cases "find (\<lambda>c. mc_Type c = ty) (machine_conds bm)")
    case None
    with set show ?thesis by (simp add: Machine_SetCondition_slot WithMachineConditionMessage_def)
  next
    case (Some c)
    moreover have "mc_Type c = ty" using Some by (rule found)
    ultimately show ?thesis
      using set by (simp add: Machine_SetCondition_slot WithMachineConditionMessage_def)
  qed
qed

lemma Machine_SetCondition_others:
  "filter (\<lambda>c. mc_Type c \<noteq> ty)
      (machine_conds (Machine_SetCondition now bm ty st [WithMachineConditionMessage m])) =
    filter (\<lambda>c. mc_Type c \<noteq> ty) (machine_conds bm)"
  by (simp add: Machine_SetCondition_slot) (rule write_slot_filter; simp add: WithMachineConditionMessage_def)

lemma Machine_SetCondition_idem:
  "Machine_SetCondition now' (Machine_SetCondition now bm ty st [WithMachineConditionMessage m]) ty st
      [WithMachineConditionMessage m] =
    Machine_SetCondition now bm ty st [WithMachineConditionMessage m]"
  by (simp add: Machine_SetCondition_slot) (subst write_slot_idem; simp add: WithMachineConditionMessage_def)

lemma Machine_SetCondition_found_other:
  assumes "ty' \<noteq> ty"
  shows "find (\<lambda>c. mc_Type c = ty')
      (machine_conds (Machine_SetCondition now bm ty st [WithMachineConditionMessage m])) =
    find (\<lambda>c. mc_Type c = ty') (machine_conds bm)"
  using assms by (simp add: Machine_SetCondition_slot)
    (rule write_slot_find_other; auto simp: WithMachineConditionMessage_def)

text \<open>
  A sequence of calls, each at its time, with a type, a status and a message; and the status, time of the last
  change and message of a condition after those to its own type.
\<close>

definition machine_updates :: "(time \<times> MachineConditionType \<times> ConditionStatus \<times> string) list \<Rightarrow> Machine \<Rightarrow> Machine" where
  "machine_updates us bm =
     fold (\<lambda>(now, ty, st, m) bm. Machine_SetCondition now bm ty st [WithMachineConditionMessage m]) us bm"

fun last_change :: "time \<Rightarrow> ConditionStatus \<Rightarrow> (time \<times> ConditionStatus) list \<Rightarrow> time" where
  "last_change t st [] = t"
| "last_change t st ((now, st') # us) = last_change (if st' = st then t else now) st' us"

definition own_updates :: "MachineConditionType \<Rightarrow> (time \<times> MachineConditionType \<times> ConditionStatus \<times> string) list \<Rightarrow>
    (time \<times> ConditionStatus \<times> string) list" where
  "own_updates ty us = map (\<lambda>(now, ty', st, m). (now, st, m)) (filter (\<lambda>(now, ty', st, m). ty' = ty) us)"

definition blank_machine_condition :: "MachineConditionType \<Rightarrow> MachineCondition" where
  "blank_machine_condition ty = \<lparr>mc_Type = ty, mc_Status = [], mc_LastUpdateTime = 0, mc_Message = []\<rparr>"

definition updated_condition :: "MachineCondition option \<Rightarrow> MachineConditionType \<Rightarrow>
    (time \<times> ConditionStatus \<times> string) list \<Rightarrow> MachineCondition option" where
  "updated_condition before ty us =
     (if us = [] then before
      else let c = (case before of None \<Rightarrow> blank_machine_condition ty | Some c \<Rightarrow> c) in
        Some \<lparr>mc_Type = ty, mc_Status = fst (snd (last us)),
          mc_LastUpdateTime = last_change (mc_LastUpdateTime c) (mc_Status c) (map (\<lambda>(now, st, m). (now, st)) us),
          mc_Message = snd (snd (last us))\<rparr>)"

text \<open>C38. The conditions of a Machine after any sequence of \<open>SetCondition\<close> calls at any times: a type that
  was set has the status and message of its last call and, as the time of its last change, the time of the
  call that last gave it another status than it had, calls to other types notwithstanding; a type that was not
  set is as before.\<close>

theorem machine_conditions_map:
  "find (\<lambda>c. mc_Type c = ty) (machine_conds (machine_updates us bm)) =
    updated_condition (find (\<lambda>c. mc_Type c = ty) (machine_conds bm)) ty (own_updates ty us)"
proof (induction us arbitrary: bm)
  case Nil
  then show ?case by (simp add: machine_updates_def own_updates_def updated_condition_def)
next
  case (Cons u us)
  obtain now ty' st m where u: "u = (now, ty', st, m)" by (cases u)
  let ?bm = "Machine_SetCondition now bm ty' st [WithMachineConditionMessage m]"
  have "machine_updates (u # us) bm = machine_updates us ?bm" by (simp add: machine_updates_def u)
  then show ?case
    using Machine_SetCondition_found [of ty now bm st m] Machine_SetCondition_found_other [of ty ty' now bm st m]
    by (cases "ty' = ty") (auto simp: Cons.IH u own_updates_def updated_condition_def blank_machine_condition_def
        Let_def split: option.splits)
qed

end
