(* ===== verification/External_Interfaces.thy ===== *)
theory External_Interfaces
  imports Api_Conditions "HOL-Library.Word"
begin

text \<open>
  What the sources call and do not contain, as parameters of the model.  The type variable
  \<open>'w\<close> is everything outside the controller process (API server, caches, BMCs, clock); a
  call is a program on it.  The record \<open>kube\<close> holds the operations of the Kubernetes
  client, the event recorder and the clock, the record \<open>bmclib\<close> those of the BMC client
  library, whose client handles have the type \<open>'c\<close>; building and opening a client is in \<open>bmcdial\<close>.  The definitions of the controllers
  take these records as arguments; no property of them is built in.
\<close>

section \<open>The Kubernetes client\<close>

text \<open>
  \<open>kListTasks\<close> is \<open>List\<close> with \<open>MatchingFields{jobOwnerKey: name}\<close> and
  \<open>InNamespace(ns)\<close>, the arguments in this order.  A status patch
  (\<open>client.Status().Patch\<close> with \<open>client.MergeFrom(base)\<close>) takes the modified object and
  the base.  \<open>kEventf\<close> is the event recorder's, for a Warning event on a Machine.
\<close>

record 'w kube =
  kGetMachine :: "NamespacedName \<Rightarrow> ('w, apierror + Machine) prog"
  kGetJob :: "NamespacedName \<Rightarrow> ('w, apierror + Job) prog"
  kGetTask :: "NamespacedName \<Rightarrow> ('w, apierror + Task) prog"
  kGetSecret :: "NamespacedName \<Rightarrow> ('w, apierror + Secret) prog"
  kListTasks :: "string \<Rightarrow> string \<Rightarrow> ('w, apierror + Task list) prog"
  kCreateTask :: "Task \<Rightarrow> ('w, apierror option) prog"
  kPatchMachine :: "Machine \<Rightarrow> Machine \<Rightarrow> ('w, apierror option) prog"
  kPatchJob :: "Job \<Rightarrow> Job \<Rightarrow> ('w, apierror option) prog"
  kPatchTask :: "Task \<Rightarrow> Task \<Rightarrow> ('w, apierror option) prog"
  kEventf :: "Machine \<Rightarrow> string \<Rightarrow> string \<Rightarrow> ('w, unit) prog"
  kNow :: "('w, time) prog"
  kIsNotFound :: "apierror \<Rightarrow> bool"
  kKeyString :: "NamespacedName \<Rightarrow> string"
  kRefString :: "SecretReference \<Rightarrow> string"

section \<open>What a reconciler returns\<close>

text \<open>
  \<open>ctrl.Result\<close>, and the outcome of a call: a result with an optional error, or a Go
  panic that leaves the handler with its run-time error message.
\<close>

record Result =
  res_Requeue :: bool
  res_RequeueAfter :: duration

definition zero_Result :: Result where
  "zero_Result = \<lparr>res_Requeue = False, res_RequeueAfter = 0\<rparr>"

definition Result_IsZero :: "Result \<Rightarrow> bool" where
  "Result_IsZero r \<longleftrightarrow> r = zero_Result"

definition requeue_after :: "duration \<Rightarrow> Result" where
  "requeue_after d = zero_Result\<lparr>res_RequeueAfter := d\<rparr>"

datatype outcome = Return Result "handler_error option" | Panic string

text \<open>
  The result of a helper that returns an error and can panic: no error, an error, a panic.
\<close>

datatype step_result = StepOk | StepErr goerr | StepPanic string

lemma wp_case_step [wp_simps]:
  "wp (case r of StepOk \<Rightarrow> m | StepErr e \<Rightarrow> f e | StepPanic s \<Rightarrow> g s) Q w \<longleftrightarrow>
     (case r of StepOk \<Rightarrow> wp m Q w | StepErr e \<Rightarrow> wp (f e) Q w | StepPanic s \<Rightarrow> wp (g s) Q w)"
  by (cases r) simp_all

lemma requeue_after_zero [simp]: "requeue_after d = zero_Result \<longleftrightarrow> d = 0"
  by (simp add: requeue_after_def zero_Result_def)

section \<open>The BMC client library\<close>

text \<open>
  The structs of bmclib and its rpc provider that the sources fill in, with the fields they
  set, and the options they pass to \<open>NewClient\<close>.  \<open>Secrets\<close> is a map from algorithms to
  secrets, kept as an association list with distinct keys.
\<close>

type_synonym Secrets = "(string \<times> string list) list"

record rpc_RequestOpts =
  ro_HTTPContentType :: string
  ro_HTTPMethod :: string
  ro_StaticHeaders :: Header
  ro_TimestampFormat :: string
  ro_TimestampHeader :: string

record rpc_SignatureOpts =
  so_HeaderName :: string
  so_AppendAlgoToHeaderDisabled :: bool
  so_IncludedPayloadHeaders :: "string list"

record rpc_HMACOpts =
  ho_PrefixSigDisabled :: bool
  ho_Secrets :: Secrets

record rpc_Experimental =
  eo_CustomRequestPayload :: string
  eo_DotPath :: string

record rpc_Opts =
  op_Request :: rpc_RequestOpts
  op_Signature :: rpc_SignatureOpts
  op_HMAC :: rpc_HMACOpts
  op_Experimental :: rpc_Experimental

record rpc_Provider =
  pv_ConsumerURL :: string
  pv_Host :: string
  pv_Opts :: rpc_Opts

datatype bmc_option =
    WithRedfishPort string
  | WithRedfishUseBasicAuth bool
  | WithRedfishSystemName string
  | WithIpmitoolPort string
  | WithIpmitoolCipherSuite string
  | WithIntelAMTPort "32 word"
  | WithIntelAMTHostScheme string
  | WithRPCOpt rpc_Provider
  | WithLogger

record ('w, 'c) bmcdial =
  NewClient :: "string \<Rightarrow> string \<Rightarrow> string \<Rightarrow> bmc_option list \<Rightarrow> ('w, 'c) prog"
  PreferDriver :: "'c \<Rightarrow> string list \<Rightarrow> ('w, unit) prog"
  Open :: "'c \<Rightarrow> duration \<Rightarrow> ('w, goerr option) prog"

record ('w, 'c) bmclib =
  Close :: "'c \<Rightarrow> ('w, goerr option) prog"
  GetPowerState :: "'c \<Rightarrow> ('w, goerr + string) prog"
  SetPowerState :: "'c \<Rightarrow> string \<Rightarrow> ('w, goerr + bool) prog"
  SetBootDevice :: "'c \<Rightarrow> string \<Rightarrow> bool \<Rightarrow> bool \<Rightarrow> ('w, goerr + bool) prog"
  SetVirtualMedia :: "'c \<Rightarrow> string \<Rightarrow> string \<Rightarrow> ('w, goerr + bool) prog"

text \<open>
  A handler that opened a client closes it in a deferred call, which runs after the body
  has produced its outcome, a panic included.  An error of \<open>Close\<close> is only logged.
\<close>

definition deferred_close :: "('w, 'c) bmclib \<Rightarrow> 'c \<Rightarrow> ('w, outcome) prog \<Rightarrow> ('w, outcome) prog" where
  "deferred_close B client body = do {
     out \<leftarrow> body;
     _ \<leftarrow> Close B client;
     State_Monad.return out
   }"

text \<open>
  Two pure library functions the options translation calls: \<open>safecast.ToUint32\<close> (\<open>None\<close>
  for its error) and \<open>mergo.Merge\<close> with \<open>WithOverride\<close> (destination, then source).
\<close>

record convlib =
  ToUint32 :: "int \<Rightarrow> 32 word option"
  MergeWithOverride :: "rpc_Provider \<Rightarrow> rpc_Provider \<Rightarrow> rpc_Provider"

end
