(* ===== verification/Task_Naming.thy ===== *)
theory Task_Naming
  imports External_Interfaces
begin

text \<open>
  The names and owners of a Job's Tasks: \<open>FormatTaskName\<close> (\<open>api/v1alpha1/job.go\<close>), the Task
  that \<open>createTaskWithOwner\<close> builds, and the field index \<open>TaskOwnerIndexFunc\<close> by which the
  Job controller finds its Tasks again (\<open>controller/job.go\<close>).
\<close>

section \<open>Names and owners of Tasks\<close>

definition FormatTaskName :: "Job \<Rightarrow> int \<Rightarrow> string" where
  "FormatTaskName job n = job_Name job @ ''-task-'' @ Itoa n"

text \<open>An API object as the indexer receives it; only Tasks have an index entry.\<close>

datatype client_object = TaskObject Task | JobObject Job | MachineObject Machine | OtherObject

text \<open>
  \<open>getControllerOf\<close> stands for \<open>metav1.GetControllerOf\<close> (on the owner references) and
  \<open>gvString\<close> for \<open>GroupVersion.String\<close>.
\<close>

definition TaskOwnerIndexFunc ::
  "(OwnerReference list \<Rightarrow> OwnerReference option) \<Rightarrow> (GroupVersion_t \<Rightarrow> string) \<Rightarrow>
    client_object \<Rightarrow> string list" where
  "TaskOwnerIndexFunc getControllerOf gvString obj = (case obj of
     TaskObject task \<Rightarrow>
       (case getControllerOf (om_OwnerReferences (task_ObjectMeta task)) of
          None \<Rightarrow> []
        | Some owner \<Rightarrow>
            if or_Kind owner \<noteq> ''Job'' \<or> or_APIVersion owner \<noteq> gvString GroupVersion then []
            else [or_Name owner])
   | _ \<Rightarrow> [])"

text \<open>The Task for the action at an index, as \<open>createTaskWithOwner\<close> builds it.\<close>

definition task_for :: "Job \<Rightarrow> nat \<Rightarrow> Action \<Rightarrow> Connection \<Rightarrow> Task" where
  "task_for job taskIndex action conn =
     \<lparr>task_TypeMeta = empty_TypeMeta,
      task_ObjectMeta =
        \<lparr>om_Name = FormatTaskName job (int taskIndex),
         om_Namespace = job_Namespace job,
         om_UID = [],
         om_DeletionTimestamp = None,
         om_OwnerReferences =
           [\<lparr>or_APIVersion = tm_APIVersion (job_TypeMeta job),
             or_Kind = tm_Kind (job_TypeMeta job),
             or_Name = job_Name job,
             or_UID = om_UID (job_ObjectMeta job),
             or_Controller = Some True\<rparr>]\<rparr>,
      task_Spec = \<lparr>tsp_Task = action, tsp_Connection = conn\<rparr>,
      task_Status = empty_TaskStatus\<rparr>"

section \<open>Task names are unique\<close>

lemma task_suffix_inject:
  "a @ ''-task-'' @ Itoa m = b @ ''-task-'' @ Itoa n \<longleftrightarrow> a = b \<and> m = n"
proof
  have split: "\<exists>c. x @ ''-task-'' @ Itoa i = c @ CHR ''-'' # decimal (nat \<bar>i\<bar>) \<and>
      c = x @ (if i < 0 then ''-task-'' else ''-task'')" for x i
    by (simp add: Itoa_def)
  assume eq: "a @ ''-task-'' @ Itoa m = b @ ''-task-'' @ Itoa n"
  then obtain c d where "c @ CHR ''-'' # decimal (nat \<bar>m\<bar>) = d @ CHR ''-'' # decimal (nat \<bar>n\<bar>)"
    and c: "c = a @ (if m < 0 then ''-task-'' else ''-task'')"
    and d: "d = b @ (if n < 0 then ''-task-'' else ''-task'')"
    using split by metis
  then have cd: "c = d" and mn: "nat \<bar>m\<bar> = nat \<bar>n\<bar>"
    using append_run_inject [OF _ decimal_digits decimal_digits not_is_digit_minus not_is_digit_minus]
    by (metis decimal_inject)+
  then have "last c = last d" by simp
  then have "(m < 0) = (n < 0)" using c d by (simp split: if_splits)
  then show "a = b \<and> m = n" using cd c d mn by (auto split: if_splits)
qed simp

lemma FormatTaskName_inject:
  "FormatTaskName j m = FormatTaskName j' n \<longleftrightarrow> job_Name j = job_Name j' \<and> m = n"
  by (simp only: FormatTaskName_def task_suffix_inject)

section \<open>The owner index\<close>

text \<open>
  What \<open>metav1.GetControllerOf\<close> documents: it finds the owner reference marked as the
  controller, when there is one.
\<close>

definition controller_of_docs :: "(OwnerReference list \<Rightarrow> OwnerReference option) \<Rightarrow> bool" where
  "controller_of_docs getControllerOf \<longleftrightarrow>
     (\<forall>refs. case getControllerOf refs of
        None \<Rightarrow> list_all (\<lambda>r. or_Controller r \<noteq> Some True) refs
      | Some r \<Rightarrow> r \<in> set refs \<and> or_Controller r = Some True)"

lemma controller_of_single:
  "controller_of_docs g \<Longrightarrow> or_Controller r = Some True \<Longrightarrow> g [r] = Some r"
  by (auto simp: controller_of_docs_def dest!: spec [of _ "[r]"] split: option.splits)

lemma owner_index_task_for:
  assumes "controller_of_docs g"
  shows "TaskOwnerIndexFunc g gvs (TaskObject (task_for job i a conn)) =
    (if tm_Kind (job_TypeMeta job) = ''Job'' \<and> tm_APIVersion (job_TypeMeta job) = gvs GroupVersion
     then [job_Name job] else [])"
  by (simp add: TaskOwnerIndexFunc_def task_for_def controller_of_single [OF assms])

text \<open>C27. The names of Tasks are unique: two Jobs and indices give the same Task name only if the Jobs
  have the same name and the indices are equal, whatever the names look like.\<close>

theorem task_names_unique:
  "FormatTaskName j m = FormatTaskName j' n \<longleftrightarrow> job_Name j = job_Name j' \<and> m = n"
  by (rule FormatTaskName_inject)

text \<open>C26. The owner index finds a Job's Tasks: the Task built for a Job is indexed under the Job's name,
  provided that the Job carries its kind and API version, and under nothing otherwise.  The Job's UID
  plays no part: a Job deleted and created again finds the Tasks of its predecessor.\<close>

theorem owner_index_round_trip:
  assumes "controller_of_docs g"
  shows "TaskOwnerIndexFunc g gvs (TaskObject (task_for job i a conn)) =
      (if tm_Kind (job_TypeMeta job) = ''Job'' \<and> tm_APIVersion (job_TypeMeta job) = gvs GroupVersion
       then [job_Name job] else []) \<and>
    TaskOwnerIndexFunc g gvs (TaskObject (task_for (job\<lparr>job_ObjectMeta := (job_ObjectMeta job)\<lparr>om_UID := uid\<rparr>\<rparr>) i a conn)) =
      TaskOwnerIndexFunc g gvs (TaskObject (task_for job i a conn))"
  by (simp add: owner_index_task_for [OF assms])

definition first_controller :: "OwnerReference list \<Rightarrow> OwnerReference option" where
  "first_controller refs = find (\<lambda>r. or_Controller r = Some True) refs"

definition gv_string :: "GroupVersion_t \<Rightarrow> string" where
  "gv_string g = gv_Group g @ ''/'' @ gv_Version g"

lemma first_controller_docs: "controller_of_docs first_controller"
  by (auto simp: controller_of_docs_def first_controller_def find_None_iff find_Some_iff list_all_iff
      split: option.split)

theorem owner_index_round_trip_witness:
  "TaskOwnerIndexFunc first_controller gv_string (TaskObject (task_for (blank_job
      \<lparr>job_TypeMeta := \<lparr>tm_APIVersion = gv_string GroupVersion, tm_Kind = ''Job''\<rparr>,
       job_ObjectMeta := empty_ObjectMeta\<lparr>om_Name := ''j''\<rparr>\<rparr>) 0 empty_Action empty_Connection)) = [''j'']"
  using owner_index_round_trip [OF first_controller_docs, of gv_string] by simp

end
