(* ===== verification/Memory_Cluster.thy ===== *)
theory Memory_Cluster
  imports Task_Naming
begin

text \<open>
  An in-memory outside world: objects in association lists by key, one power state per BMC
  host, a clock.  It plays the part the fake client and the test provider play in the
  repository's tests: the parameters of the model instantiated by functions one can run.
  The controllers do not depend on it; examples and the interpretations of the interfaces
  do.
\<close>

record cluster =
  cl_Machines :: "(NamespacedName \<times> Machine) list"
  cl_Jobs :: "(NamespacedName \<times> Job) list"
  cl_Tasks :: "(NamespacedName \<times> Task) list"
  cl_Secrets :: "(NamespacedName \<times> Secret) list"
  cl_Power :: "string \<Rightarrow> string"
  cl_Events :: "string list"
  cl_Now :: time

definition lookup_or_404 :: "(NamespacedName \<times> 'a) list \<Rightarrow> NamespacedName \<Rightarrow> apierror + 'a" where
  "lookup_or_404 xs k = (case map_of xs k of
     None \<Rightarrow> Inl \<lparr>ae_Reason = ''NotFound'', ae_Message = nn_Name k @ '' not found''\<rparr>
   | Some x \<Rightarrow> Inr x)"

text \<open>Replacing the value at a key that is present, keeping the order of the entries.\<close>

definition put :: "NamespacedName \<Rightarrow> 'a \<Rightarrow> (NamespacedName \<times> 'a) list \<Rightarrow> (NamespacedName \<times> 'a) list" where
  "put k x xs = map (\<lambda>(k', y). if k' = k then (k', x) else (k', y)) xs"

definition object_key :: "ObjectMeta \<Rightarrow> NamespacedName" where
  "object_key m = nn (om_Namespace m) (om_Name m)"

text \<open>
  A JSON merge patch from \<open>base\<close> to \<open>new\<close> holds the fields that differ; applied to the
  stored object it writes these and keeps the others.  A list is one field.
\<close>

definition patched :: "('a \<Rightarrow> 'f) \<Rightarrow> 'a \<Rightarrow> 'a \<Rightarrow> 'a \<Rightarrow> 'f" where
  "patched f base new cur = (if f new = f base then f cur else f new)"

definition patch_task_status :: "TaskStatus \<Rightarrow> TaskStatus \<Rightarrow> TaskStatus \<Rightarrow> TaskStatus" where
  "patch_task_status base new cur =
     \<lparr>ts_Conditions = patched ts_Conditions base new cur,
      ts_StartTime = patched ts_StartTime base new cur,
      ts_CompletionTime = patched ts_CompletionTime base new cur\<rparr>"

definition patch_job_status :: "JobStatus \<Rightarrow> JobStatus \<Rightarrow> JobStatus \<Rightarrow> JobStatus" where
  "patch_job_status base new cur =
     \<lparr>js_Conditions = patched js_Conditions base new cur,
      js_StartTime = patched js_StartTime base new cur,
      js_CompletionTime = patched js_CompletionTime base new cur\<rparr>"

definition patch_machine_status :: "MachineStatus \<Rightarrow> MachineStatus \<Rightarrow> MachineStatus \<Rightarrow> MachineStatus" where
  "patch_machine_status base new cur =
     \<lparr>ms_Power = patched ms_Power base new cur,
      ms_Conditions = patched ms_Conditions base new cur\<rparr>"

lemma patched_same [simp]: "patched f base new base = f new"
  by (simp add: patched_def)

lemma patch_task_status_same [simp]: "patch_task_status base new base = new"
  by (simp add: patch_task_status_def)

lemma patch_job_status_same [simp]: "patch_job_status base new base = new"
  by (simp add: patch_job_status_def)

lemma patch_machine_status_same [simp]: "patch_machine_status base new base = new"
  by (simp add: patch_machine_status_def)

text \<open>
  The Kubernetes operations.  \<open>index\<close> is the field index the Tasks are listed by.
\<close>

definition mem_kube :: "(client_object \<Rightarrow> string list) \<Rightarrow> 'z cluster_scheme kube" where
  "mem_kube index = \<lparr>
     kGetMachine = (\<lambda>k. State (\<lambda>c. (lookup_or_404 (cl_Machines c) k, c))),
     kGetJob = (\<lambda>k. State (\<lambda>c. (lookup_or_404 (cl_Jobs c) k, c))),
     kGetTask = (\<lambda>k. State (\<lambda>c. (lookup_or_404 (cl_Tasks c) k, c))),
     kGetSecret = (\<lambda>k. State (\<lambda>c. (lookup_or_404 (cl_Secrets c) k, c))),
     kListTasks = (\<lambda>name ns. State (\<lambda>c. (Inr (filter
       (\<lambda>t. name \<in> set (index (TaskObject t)) \<and> task_Namespace t = ns) (map snd (cl_Tasks c))), c))),
     kCreateTask = (\<lambda>t. State (\<lambda>c. (case map_of (cl_Tasks c) (object_key (task_ObjectMeta t)) of
         Some _ \<Rightarrow> (Some \<lparr>ae_Reason = ''AlreadyExists'', ae_Message = task_Name t @ '' already exists''\<rparr>, c)
       | None \<Rightarrow> (None, c\<lparr>cl_Tasks := cl_Tasks c @ [(object_key (task_ObjectMeta t), t)]\<rparr>)))),
     kPatchMachine = (\<lambda>m base. State (\<lambda>c. let k = object_key (machine_ObjectMeta m) in
       (case lookup_or_404 (cl_Machines c) k of
         Inl e \<Rightarrow> (Some e, c)
       | Inr cur \<Rightarrow> (None, c\<lparr>cl_Machines := put k (cur\<lparr>machine_Status :=
           patch_machine_status (machine_Status base) (machine_Status m) (machine_Status cur)\<rparr>) (cl_Machines c)\<rparr>)))),
     kPatchJob = (\<lambda>j base. State (\<lambda>c. let k = object_key (job_ObjectMeta j) in
       (case lookup_or_404 (cl_Jobs c) k of
         Inl e \<Rightarrow> (Some e, c)
       | Inr cur \<Rightarrow> (None, c\<lparr>cl_Jobs := put k (cur\<lparr>job_Status :=
           patch_job_status (job_Status base) (job_Status j) (job_Status cur)\<rparr>) (cl_Jobs c)\<rparr>)))),
     kPatchTask = (\<lambda>t base. State (\<lambda>c. let k = object_key (task_ObjectMeta t) in
       (case lookup_or_404 (cl_Tasks c) k of
         Inl e \<Rightarrow> (Some e, c)
       | Inr cur \<Rightarrow> (None, c\<lparr>cl_Tasks := put k (cur\<lparr>task_Status :=
           patch_task_status (task_Status base) (task_Status t) (task_Status cur)\<rparr>) (cl_Tasks c)\<rparr>)))),
     kEventf = (\<lambda>m reason msg. State (\<lambda>c. ((), c\<lparr>cl_Events := cl_Events c @ [msg]\<rparr>))),
     kNow = State (\<lambda>c. (cl_Now c, c)),
     kIsNotFound = (\<lambda>e. ae_Reason e = ''NotFound''),
     kKeyString = (\<lambda>k. nn_Namespace k @ ''/'' @ nn_Name k),
     kRefString = (\<lambda>s. sr_Namespace s @ ''/'' @ sr_Name s)\<rparr>"

text \<open>
  The BMCs: a client handle is the host name; a power action sets the host's state at once;
  the client factory accepts every host.
\<close>

definition mem_power :: "string \<Rightarrow> string \<Rightarrow> string" where
  "mem_power action cur = (if action = ''on'' \<or> action = ''cycle'' \<or> action = ''reset'' then ''on''
     else if action = ''off'' \<or> action = ''soft'' then ''off'' else cur)"

definition mem_bmc :: "(cluster, string) bmclib" where
  "mem_bmc = \<lparr>
     Close = (\<lambda>h. State_Monad.return None),
     GetPowerState = (\<lambda>h. State (\<lambda>c. (Inr (cl_Power c h), c))),
     SetPowerState = (\<lambda>h s. State (\<lambda>c. (Inr True, c\<lparr>cl_Power := (cl_Power c)(h := mem_power s (cl_Power c h))\<rparr>))),
     SetBootDevice = (\<lambda>h d p e. State_Monad.return (Inr True)),
     SetVirtualMedia = (\<lambda>h k u. State_Monad.return (Inr True))\<rparr>"

definition mem_dial :: "('w, string) bmcdial" where
  "mem_dial = \<lparr>
     NewClient = (\<lambda>host user pass opts. State_Monad.return host),
     PreferDriver = (\<lambda>h order. State_Monad.return ()),
     Open = (\<lambda>h timeout. State_Monad.return None)\<rparr>"

text \<open>
  BMCs that take their time: a power action is accepted at once and shows in the power state
  after a latency, which may depend on the host, the action and the instant.
\<close>

record slow_cluster = cluster +
  cl_Change :: "string \<Rightarrow> (string \<times> time) option"

definition power_at :: "slow_cluster \<Rightarrow> string \<Rightarrow> string" where
  "power_at c h = (case cl_Change c h of
     Some (p, t) \<Rightarrow> if t \<le> cl_Now c then p else cl_Power c h
   | None \<Rightarrow> cl_Power c h)"

definition slow_bmc :: "(string \<Rightarrow> string \<Rightarrow> time \<Rightarrow> duration) \<Rightarrow> (slow_cluster, string) bmclib" where
  "slow_bmc latency = \<lparr>
     Close = (\<lambda>h. State_Monad.return None),
     GetPowerState = (\<lambda>h. State (\<lambda>c. (Inr (power_at c h), c))),
     SetPowerState = (\<lambda>h s. State (\<lambda>c. (Inr True, c
       \<lparr>cl_Power := (cl_Power c)(h := power_at c h),
        cl_Change := (cl_Change c)(h \<mapsto> (mem_power s (power_at c h), cl_Now c + latency h s (cl_Now c)))\<rparr>))),
     SetBootDevice = (\<lambda>h d p e. State_Monad.return (Inr True)),
     SetVirtualMedia = (\<lambda>h k u. State_Monad.return (Inr True))\<rparr>"

lemmas mem_simps = mem_kube_def mem_bmc_def mem_dial_def

lemma map_of_put: "map_of (put k x xs) k' = (if k' = k \<and> map_of xs k \<noteq> None then Some x else map_of xs k')"
  by (induction xs) (auto simp: put_def)

lemma fst_put [simp]: "map fst (put k x xs) = map fst xs"
  by (induction xs) (auto simp: put_def)

end
