(* ===== verification/Kube_Helpers.thy ===== *)
theory Kube_Helpers
  imports Memory_Cluster "HOL-Library.AList" "HOL-Library.Multiset"
begin

text \<open>
  The helpers both BMC-facing controllers share: \<open>resolveAuthSecretRef\<close> and
  \<open>toPowerState\<close> of \<open>controller/kube.go\<close>, and \<open>retrieveHMACSecrets\<close> of
  \<open>controller/machine.go\<close>.
\<close>

section \<open>Credentials of a connection\<close>

definition username_required :: goerr where
  "username_required = New '''username' required in Machine secret''"

definition password_required :: goerr where
  "password_required = New '''password' required in Machine secret''"

definition secret_key :: "SecretReference \<Rightarrow> NamespacedName" where
  "secret_key s = nn (sr_Namespace s) (sr_Name s)"

text \<open>The error a failed \<open>Get\<close> of a Secret is turned into; both helpers use the same texts.\<close>

definition secret_error :: "'w kube \<Rightarrow> SecretReference \<Rightarrow> apierror \<Rightarrow> goerr" where
  "secret_error K s e =
     (if kIsNotFound K e then Wrap (''secret '' @ kKeyString K (secret_key s) @ '' not found: '') (Api e)
      else Wrap (''failed to retrieve secret '' @ kRefString K s @ '' : '') (Api e))"

definition resolveAuthSecretRef ::
  "'w kube \<Rightarrow> SecretReference \<Rightarrow> ('w, goerr + string \<times> string) prog" where
  "resolveAuthSecretRef K secretRef = do {
     r \<leftarrow> kGetSecret K (secret_key secretRef);
     case r of
       Inl e \<Rightarrow> State_Monad.return (Inl (secret_error K secretRef e))
     | Inr secret \<Rightarrow> State_Monad.return
         (case secret_Data secret ''username'' of
            None \<Rightarrow> Inl username_required
          | Some username \<Rightarrow>
              (case secret_Data secret ''password'' of
                 None \<Rightarrow> Inl password_required
               | Some password \<Rightarrow> Inr (username, password)))
   }"

section \<open>Power states\<close>

definition toPowerState :: "string \<Rightarrow> PowerState" where
  "toPowerState state =
     (let state = ToLower state in
      if Contains state ''on'' then On
      else if Contains state ''off'' then Off
      else Unknown)"

section \<open>HMAC secrets\<close>

text \<open>Reading a Go map at an absent key gives the zero value.\<close>

definition secrets_at :: "Secrets \<Rightarrow> string \<Rightarrow> string list" where
  "secrets_at sec k = (case map_of sec k of None \<Rightarrow> [] | Some v \<Rightarrow> v)"

definition data_at :: "Secret \<Rightarrow> string \<Rightarrow> string" where
  "data_at s k = (case secret_Data s k of None \<Rightarrow> [] | Some v \<Rightarrow> v)"

text \<open>\<open>sec[k] = append(sec[k], x)\<close>\<close>

definition append_secret :: "string \<Rightarrow> string \<Rightarrow> Secrets \<Rightarrow> Secrets" where
  "append_secret k x sec = AList.update k (secrets_at sec k @ [x]) sec"

text \<open>
  The two nested loops.  The outer one ranges over a Go map: the list is the order the run
  visits its entries in.  Each \<open>return nil, err\<close> ends both.
\<close>

fun retrieve_refs ::
  "'w kube \<Rightarrow> HMACAlgorithm \<Rightarrow> SecretReference list \<Rightarrow> Secrets \<Rightarrow> ('w, goerr + Secrets) prog" where
  "retrieve_refs K k [] sec = State_Monad.return (Inr sec)"
| "retrieve_refs K k (s # ss) sec = do {
     r \<leftarrow> kGetSecret K (secret_key s);
     case r of
       Inl e \<Rightarrow> State_Monad.return (Inl (secret_error K s e))
     | Inr secret \<Rightarrow> retrieve_refs K k ss (append_secret k (data_at secret ''secret'') sec)
   }"

fun retrieve_algorithms :: "'w kube \<Rightarrow> HMACSecrets \<Rightarrow> Secrets \<Rightarrow> ('w, goerr + Secrets) prog" where
  "retrieve_algorithms K [] sec = State_Monad.return (Inr sec)"
| "retrieve_algorithms K ((k, v) # kvs) sec = do {
     r \<leftarrow> retrieve_refs K k v sec;
     case r of
       Inl e \<Rightarrow> State_Monad.return (Inl e)
     | Inr sec' \<Rightarrow> retrieve_algorithms K kvs sec'
   }"

definition retrieveHMACSecrets :: "'w kube \<Rightarrow> HMACSecrets \<Rightarrow> ('w, goerr + Secrets) prog" where
  "retrieveHMACSecrets K hmacSecrets = retrieve_algorithms K hmacSecrets []"

section \<open>What the helpers compute\<close>

text \<open>
  For facts on the values of Secrets, reads of Secrets are lookups in a fixed function
  \<open>g\<close>.  \<open>hmac_map\<close> is the map the loops are to build.
\<close>

lemma map_of_append_secret:
  "map_of (append_secret k x sec) = (map_of sec)(k \<mapsto> secrets_at sec k @ [x])"
  by (simp add: append_secret_def update_conv')

lemma secrets_at_append_secret:
  "secrets_at (append_secret k x sec) k' = (if k' = k then secrets_at sec k @ [x] else secrets_at sec k')"
  by (simp add: secrets_at_def map_of_append_secret)

definition secret_value :: "(NamespacedName \<Rightarrow> apierror + Secret) \<Rightarrow> SecretReference \<Rightarrow> string" where
  "secret_value g s = (case g (secret_key s) of Inl e \<Rightarrow> [] | Inr secret \<Rightarrow> data_at secret ''secret'')"

definition secret_found :: "(NamespacedName \<Rightarrow> apierror + Secret) \<Rightarrow> SecretReference \<Rightarrow> bool" where
  "secret_found g s \<longleftrightarrow> \<not> isl (g (secret_key s))"

lemma retrieve_refs_found:
  assumes pure: "\<And>k. run_state (kGetSecret K k) w = (g k, w)"
  shows "list_all (secret_found g) ss \<Longrightarrow> \<exists>sec'. run_state (retrieve_refs K k ss sec) w = (Inr sec', w) \<and>
    map_of sec' = (if ss = [] then map_of sec
      else (map_of sec)(k \<mapsto> secrets_at sec k @ map (secret_value g) ss))"
proof (induction ss arbitrary: sec)
  case Nil
  then show ?case by simp
next
  case (Cons s ss)
  then obtain secret where s: "g (secret_key s) = Inr secret"
    by (cases "g (secret_key s)") (auto simp: secret_found_def)
  let ?sec = "append_secret k (data_at secret ''secret'') sec"
  obtain sec' where "run_state (retrieve_refs K k ss ?sec) w = (Inr sec', w)"
    and "map_of sec' = (if ss = [] then map_of ?sec
      else (map_of ?sec)(k \<mapsto> secrets_at ?sec k @ map (secret_value g) ss))"
    using Cons by auto
  then show ?case
    using s by (auto simp: pure map_of_append_secret secrets_at_append_secret secret_value_def fun_eq_iff)
qed

text \<open>The first reference of a list that is not found.\<close>

definition first_missing :: "(NamespacedName \<Rightarrow> apierror + Secret) \<Rightarrow> SecretReference list \<Rightarrow> SecretReference option" where
  "first_missing g ss = find (\<lambda>s. \<not> secret_found g s) ss"

lemma first_missing_some: "first_missing g ss = Some s \<Longrightarrow> s \<in> set ss \<and> (\<exists>e. g (secret_key s) = Inl e)"
  by (auto simp: first_missing_def find_Some_iff secret_found_def isl_def in_set_conv_nth)

lemma first_missing_none [simp]: "first_missing g ss = None \<longleftrightarrow> list_all (secret_found g) ss"
  by (auto simp: first_missing_def find_None_iff list_all_iff)

lemma retrieve_refs_missing:
  assumes pure: "\<And>k. run_state (kGetSecret K k) w = (g k, w)"
  shows "first_missing g ss = Some s \<Longrightarrow> g (secret_key s) = Inl e \<Longrightarrow>
    run_state (retrieve_refs K k ss sec) w = (Inl (secret_error K s e), w)"
proof (induction ss arbitrary: sec)
  case (Cons s' ss)
  then show ?case
    by (cases "g (secret_key s')") (auto simp: pure first_missing_def secret_found_def)
qed (simp add: first_missing_def)

definition hmac_found :: "(NamespacedName \<Rightarrow> apierror + Secret) \<Rightarrow> HMACSecrets \<Rightarrow> bool" where
  "hmac_found g kvs \<longleftrightarrow> list_all (\<lambda>(k, ss). list_all (secret_found g) ss) kvs"

definition hmac_map :: "(NamespacedName \<Rightarrow> apierror + Secret) \<Rightarrow> HMACSecrets \<Rightarrow> string \<rightharpoonup> string list" where
  "hmac_map g kvs k = (case map_of kvs k of
     None \<Rightarrow> None
   | Some ss \<Rightarrow> if ss = [] then None else Some (map (secret_value g) ss))"

lemma retrieve_algorithms_found:
  assumes pure: "\<And>k. run_state (kGetSecret K k) w = (g k, w)"
  shows "hmac_found g kvs \<Longrightarrow> distinct (map fst kvs) \<Longrightarrow> \<forall>k \<in> set (map fst kvs). map_of sec k = None \<Longrightarrow>
    \<exists>sec'. run_state (retrieve_algorithms K kvs sec) w = (Inr sec', w) \<and>
      map_of sec' = map_of sec ++ hmac_map g kvs"
proof (induction kvs arbitrary: sec)
  case Nil
  then show ?case by (simp add: hmac_map_def map_add_def fun_eq_iff)
next
  case (Cons kv kvs)
  obtain k ss where kv: "kv = (k, ss)" by (cases kv)
  have "list_all (secret_found g) ss" using Cons.prems(1) kv by (simp add: hmac_found_def)
  then obtain sec1 where run1: "run_state (retrieve_refs K k ss sec) w = (Inr sec1, w)"
    and sec1: "map_of sec1 = (if ss = [] then map_of sec
        else (map_of sec)(k \<mapsto> secrets_at sec k @ map (secret_value g) ss))"
    using retrieve_refs_found [OF pure] by blast
  have "\<forall>k' \<in> set (map fst kvs). map_of sec1 k' = None"
    using Cons.prems(2,3) kv by (auto simp: sec1)
  then obtain sec' where run2: "run_state (retrieve_algorithms K kvs sec1) w = (Inr sec', w)"
    and sec': "map_of sec' = map_of sec1 ++ hmac_map g kvs"
    using Cons.IH [of sec1] Cons.prems(1,2) kv by (auto simp: hmac_found_def)
  have "map_of sec k = None" using Cons.prems(3) kv by simp
  then have at: "secrets_at sec k = []" by (simp only: secrets_at_def option.case)
  have fresh: "map_of kvs k = None" using Cons.prems(2) kv by (simp add: map_of_eq_None_iff)
  have "map_of sec1 ++ hmac_map g kvs = map_of sec ++ hmac_map g (kv # kvs)"
    using at fresh kv by (auto simp: sec1 map_add_def hmac_map_def fun_eq_iff split: option.splits)
  then show ?case using run1 run2 sec' kv by simp
qed

text \<open>The errors of the first missing reference of each algorithm.\<close>

definition hmac_errors :: "'w kube \<Rightarrow> (NamespacedName \<Rightarrow> apierror + Secret) \<Rightarrow> HMACSecrets \<Rightarrow> goerr list" where
  "hmac_errors K g kvs = concat (map (\<lambda>(k, ss). case first_missing g ss of
       None \<Rightarrow> []
     | Some s \<Rightarrow> (case g (secret_key s) of Inl e \<Rightarrow> [secret_error K s e] | Inr _ \<Rightarrow> [])) kvs)"

lemma in_hmac_errors: "err \<in> set (hmac_errors K g kvs) \<longleftrightarrow> (\<exists>k ss s e.
    (k, ss) \<in> set kvs \<and> first_missing g ss = Some s \<and> g (secret_key s) = Inl e \<and> err = secret_error K s e)"
  by (force simp: hmac_errors_def split: option.splits sum.splits)
lemma retrieve_algorithms_missing:
  assumes pure: "\<And>k. run_state (kGetSecret K k) w = (g k, w)"
  shows "\<not> hmac_found g kvs \<Longrightarrow>
    \<exists>e \<in> set (hmac_errors K g kvs). run_state (retrieve_algorithms K kvs sec) w = (Inl e, w)"
proof (induction kvs arbitrary: sec)
  case Nil
  then show ?case by (simp add: hmac_found_def)
next
  case (Cons kv kvs)
  obtain k ss where kv: "kv = (k, ss)" by (cases kv)
  show ?case
  proof (cases "first_missing g ss")
    case None
    then obtain sec1 where "run_state (retrieve_refs K k ss sec) w = (Inr sec1, w)"
      using retrieve_refs_found [OF pure] by fastforce
    moreover have "\<not> hmac_found g kvs" using None Cons.prems kv by (simp add: hmac_found_def)
    moreover have "set (hmac_errors K g kvs) \<subseteq> set (hmac_errors K g (kv # kvs))" by (simp add: hmac_errors_def)
    ultimately show ?thesis using Cons.IH [of sec1] kv by auto
  next
    case (Some s)
    then obtain e where "g (secret_key s) = Inl e" using first_missing_some by blast
    then show ?thesis
      using retrieve_refs_missing [OF pure Some, of e k sec] Some kv by (auto simp: in_hmac_errors)
  qed
qed


lemma toPowerState_cases: "toPowerState s \<in> {On, Off, Unknown}"
  by (simp add: toPowerState_def Let_def)

lemma toPowerState_fixed: "p \<in> {On, Off, Unknown} \<Longrightarrow> toPowerState p = p"
  by (elim insertE emptyE; hypsubst; code_simp)

text \<open>C34. A raw BMC answer is On exactly when it contains "on" in any letter case, Off exactly
  when it contains "off" and not "on", and Unknown otherwise; letter case does not matter, and
  the three power states written to a Machine's status are read back as themselves.\<close>

theorem toPowerState_spec:
  "(toPowerState s = On \<longleftrightarrow> (\<exists>a b. ToLower s = a @ ''on'' @ b)) \<and>
   (toPowerState s = Off \<longleftrightarrow> (\<nexists>a b. ToLower s = a @ ''on'' @ b) \<and> (\<exists>a b. ToLower s = a @ ''off'' @ b)) \<and>
   toPowerState s \<in> {On, Off, Unknown} \<and>
   toPowerState (ToLower s) = toPowerState s \<and>
   toPowerState (toPowerState s) = toPowerState s"
proof (intro conjI)
  show "toPowerState (ToLower s) = toPowerState s" by (simp add: toPowerState_def ToLower_idem)
  show "toPowerState (toPowerState s) = toPowerState s"
    by (rule toPowerState_fixed [OF toPowerState_cases])
qed (auto simp: toPowerState_def Let_def Contains_iff simp del: append_Cons)

lemma hmac_map_order:
  assumes "mset kvs = mset kvs'" and "distinct (map fst kvs)"
  shows "hmac_map g kvs = hmac_map g kvs'" 
proof -
  have "map_of kvs = map_of kvs'"
    using assms by (metis distinct_map map_of_inject_set mset_eq_setD mset_map mset_eq_imp_distinct_iff)
  then show ?thesis by (simp add: hmac_map_def fun_eq_iff)
qed

lemma retrieveHMACSecrets_found:
  assumes "\<And>k. run_state (kGetSecret K k) w = (g k, w)"
    and "distinct (map fst kvs)" and "hmac_found g kvs"
  shows "\<exists>sec. run_state (retrieveHMACSecrets K kvs) w = (Inr sec, w) \<and> map_of sec = hmac_map g kvs"
  using retrieve_algorithms_found [OF assms(1,3,2), of "[]"] by (simp add: retrieveHMACSecrets_def)

lemma retrieveHMACSecrets_missing:
  assumes "\<And>k. run_state (kGetSecret K k) w = (g k, w)" and "\<not> hmac_found g kvs"
  shows "\<exists>e \<in> set (hmac_errors K g kvs). run_state (retrieveHMACSecrets K kvs) w = (Inl e, w)"
  using retrieve_algorithms_missing [OF assms, of "[]"] by (simp add: retrieveHMACSecrets_def)

text \<open>C36. With every referenced Secret present, \<open>retrieveHMACSecrets\<close> returns, for each
  algorithm with at least one reference, the values under the key \<open>secret\<close> in the order of the
  references, a Secret without that key giving the empty string; with one missing it returns the
  error of a missing one and no secrets.  Nothing else of the world changes.\<close>

theorem retrieveHMACSecrets_result:
  assumes "\<And>k. run_state (kGetSecret K k) w = (g k, w)" and "distinct (map fst kvs)"
  shows "if hmac_found g kvs
    then \<exists>sec. run_state (retrieveHMACSecrets K kvs) w = (Inr sec, w) \<and> map_of sec = hmac_map g kvs
    else \<exists>k ss s e. (k, ss) \<in> set kvs \<and> s \<in> set ss \<and> g (secret_key s) = Inl e \<and>
      run_state (retrieveHMACSecrets K kvs) w = (Inl (secret_error K s e), w)"
proof (cases "hmac_found g kvs")
  case True
  then show ?thesis using retrieveHMACSecrets_found [OF assms(1,2)] by simp
next
  case False
  then obtain k ss s e where "(k, ss) \<in> set kvs" and "first_missing g ss = Some s" and "g (secret_key s) = Inl e"
    and "run_state (retrieveHMACSecrets K kvs) w = (Inl (secret_error K s e), w)"
    using retrieveHMACSecrets_missing [OF assms(1), of kvs] by (auto simp: in_hmac_errors)
  then show ?thesis using False first_missing_some [of g ss s] by auto
qed

text \<open>Three Secrets of an in-memory cluster, for the examples below.\<close>

definition hmac_cluster :: cluster where
  "hmac_cluster = \<lparr>cl_Machines = [], cl_Jobs = [], cl_Tasks = [],
     cl_Secrets = [(nn ''default'' ''secret1'', \<lparr>secret_Data = [''secret'' \<mapsto> ''superSecret1'']\<rparr>),
       (nn ''default'' ''secret2'', \<lparr>secret_Data = [''secret'' \<mapsto> ''superSecret2'']\<rparr>),
       (nn ''default'' ''nokey'', \<lparr>secret_Data = [''password'' \<mapsto> ''x'']\<rparr>)],
     cl_Power = (\<lambda>_. ''off''), cl_Events = [], cl_Now = 1\<rparr>"

definition hmac_example :: HMACSecrets where
  "hmac_example =
     [(''sha256'', [\<lparr>sr_Name = ''secret1'', sr_Namespace = ''default''\<rparr>,
                   \<lparr>sr_Name = ''secret2'', sr_Namespace = ''default''\<rparr>]),
      (''sha512'', [\<lparr>sr_Name = ''secret1'', sr_Namespace = ''default''\<rparr>])]"

lemma hmac_cluster_get:
  "run_state (kGetSecret (mem_kube ix) k) hmac_cluster =
    (lookup_or_404 (cl_Secrets hmac_cluster) k, hmac_cluster)"
  by (simp add: mem_kube_def)

lemma hmac_example_found: "hmac_found (lookup_or_404 (cl_Secrets hmac_cluster)) hmac_example"
  by (simp add: hmac_found_def hmac_example_def secret_found_def lookup_or_404_def hmac_cluster_def secret_key_def)

theorem retrieveHMACSecrets_result_witness:
  "\<exists>sec. run_state (retrieveHMACSecrets (mem_kube (\<lambda>_. [])) hmac_example) hmac_cluster = (Inr sec, hmac_cluster) \<and>
    map_of sec = hmac_map (lookup_or_404 (cl_Secrets hmac_cluster)) hmac_example"
proof -
  have "distinct (map fst hmac_example)" by (simp add: hmac_example_def)
  from retrieveHMACSecrets_result [OF hmac_cluster_get this] hmac_example_found
  show ?thesis by simp
qed

text \<open>An entry can be visited first, and then the first missing reference of its own is reported.\<close>

lemma hmac_error_reported:
  assumes "\<And>k. run_state (kGetSecret K k) w = (g k, w)" and "e \<in> set (hmac_errors K g kvs)"
  shows "\<exists>kvs'. mset kvs' = mset kvs \<and> run_state (retrieveHMACSecrets K kvs') w = (Inl e, w)"
proof -
  from assms(2) obtain k ss s ae where kv: "(k, ss) \<in> set kvs" and missing: "first_missing g ss = Some s"
    "g (secret_key s) = Inl ae" and e: "e = secret_error K s ae" by (auto simp: in_hmac_errors)
  have "run_state (retrieveHMACSecrets K ((k, ss) # remove1 (k, ss) kvs)) w = (Inl e, w)"
    using retrieve_refs_missing [OF assms(1) missing, of k "[]"] e by (simp add: retrieveHMACSecrets_def)
  then show ?thesis using kv by (intro exI [of _ "(k, ss) # remove1 (k, ss) kvs"]) simp
qed

text \<open>C37. What the random order in which Go visits the secrets map can change: when every
  referenced Secret is found, nothing - all orders of the same entries give the same map; otherwise
  every order fails, only the error depends on it, and the errors that can be returned are exactly
  those of the first missing reference of each algorithm.\<close>

theorem retrieveHMACSecrets_order:
  assumes "\<And>k. run_state (kGetSecret K k) w = (g k, w)" and "distinct (map fst kvs)"
  shows "if hmac_found g kvs
    then \<exists>sec. \<forall>kvs'. mset kvs' = mset kvs \<longrightarrow>
      (\<exists>sec'. run_state (retrieveHMACSecrets K kvs') w = (Inr sec', w) \<and> map_of sec' = map_of sec)
    else (\<lambda>kvs'. run_state (retrieveHMACSecrets K kvs') w) ` {kvs'. mset kvs' = mset kvs} =
      (\<lambda>e. (Inl e, w)) ` set (hmac_errors K g kvs)"
proof (cases "hmac_found g kvs")
  case True
  have "\<exists>sec'. run_state (retrieveHMACSecrets K kvs') w = (Inr sec', w) \<and> map_of sec' = hmac_map g kvs"
    if order: "mset kvs' = mset kvs" for kvs'
  proof -
    have d: "distinct (map fst kvs')" using assms(2) order by (metis mset_map mset_eq_imp_distinct_iff)
    have f: "hmac_found g kvs'" using True order by (metis hmac_found_def list_all_iff mset_eq_setD)
    show ?thesis using retrieveHMACSecrets_found [OF assms(1) d f] hmac_map_order [OF order d, of g] by simp
  qed
  then show ?thesis using True by (simp add: if_P) (metis (full_types))
next
  case False
  have "run_state (retrieveHMACSecrets K kvs') w \<in> (\<lambda>e. (Inl e, w)) ` set (hmac_errors K g kvs)"
    if order: "mset kvs' = mset kvs" for kvs'
  proof -
    have "set kvs' = set kvs" using order by (rule mset_eq_setD)
    then show ?thesis
      using False retrieveHMACSecrets_missing [OF assms(1), of kvs'] by (auto simp: hmac_found_def in_hmac_errors list_all_iff)
  qed
  moreover have "(Inl e, w) \<in> (\<lambda>kvs'. run_state (retrieveHMACSecrets K kvs') w) ` {kvs'. mset kvs' = mset kvs}"
    if "e \<in> set (hmac_errors K g kvs)" for e
    using hmac_error_reported [OF assms(1) that] by (force intro: rev_image_eqI)
  ultimately show ?thesis using False by (simp add: if_not_P) blast
qed

text \<open>Two algorithms with a missing Secret each: either may be reported.\<close>

definition hmac_gone :: "string \<Rightarrow> SecretReference" where
  "hmac_gone n = \<lparr>sr_Name = n, sr_Namespace = ''default''\<rparr>"

definition hmac_incomplete :: HMACSecrets where
  "hmac_incomplete = [(''sha256'', [\<lparr>sr_Name = ''secret1'', sr_Namespace = ''default''\<rparr>, hmac_gone ''gone1'']),
     (''sha512'', [hmac_gone ''gone2'', hmac_gone ''gone1''])]"

definition gone_error :: "string \<Rightarrow> goerr" where
  "gone_error n = Wrap (''secret default/'' @ n @ '' not found: '')
     (Api \<lparr>ae_Reason = ''NotFound'', ae_Message = n @ '' not found''\<rparr>)"

theorem retrieveHMACSecrets_order_witness:
  "(\<lambda>kvs'. run_state (retrieveHMACSecrets (mem_kube (\<lambda>_. [])) kvs') hmac_cluster) `
     {kvs'. mset kvs' = mset hmac_incomplete} =
   {(Inl (gone_error ''gone1''), hmac_cluster), (Inl (gone_error ''gone2''), hmac_cluster)}"
proof -
  let ?g = "lookup_or_404 (cl_Secrets hmac_cluster)"
  note eval = hmac_incomplete_def hmac_gone_def lookup_or_404_def hmac_cluster_def secret_key_def secret_found_def
  have "\<not> hmac_found ?g hmac_incomplete" by (simp add: hmac_found_def eval)
  moreover have "hmac_errors (mem_kube (\<lambda>_. []) :: cluster kube) ?g hmac_incomplete = [gone_error ''gone1'', gone_error ''gone2'']"
    by (simp add: hmac_errors_def first_missing_def secret_error_def mem_kube_def gone_error_def eval)
  moreover have "distinct (map fst hmac_incomplete)" by (simp add: hmac_incomplete_def)
  ultimately show ?thesis using retrieveHMACSecrets_order [OF hmac_cluster_get, of hmac_incomplete] by simp
qed

text \<open>C35. \<open>resolveAuthSecretRef\<close> succeeds exactly when the Secret is found and has both keys,
  with their values; each failure has its own error; the one call it makes is the read of the
  Secret the reference names.\<close>

theorem resolveAuthSecretRef_spec:
  "(fst (run_state (resolveAuthSecretRef K ref) w) = Inr (u, p) \<longleftrightarrow>
     (\<exists>s. fst (run_state (kGetSecret K (secret_key ref)) w) = Inr s \<and>
       secret_Data s ''username'' = Some u \<and> secret_Data s ''password'' = Some p)) \<and>
   (fst (run_state (resolveAuthSecretRef K ref) w) = Inl e \<longleftrightarrow>
     (\<exists>ae. fst (run_state (kGetSecret K (secret_key ref)) w) = Inl ae \<and> e = secret_error K ref ae) \<or>
     (\<exists>s. fst (run_state (kGetSecret K (secret_key ref)) w) = Inr s \<and>
       (if secret_Data s ''username'' = None then e = username_required
        else secret_Data s ''password'' = None \<and> e = password_required))) \<and>
   snd (run_state (resolveAuthSecretRef K ref) w) = snd (run_state (kGetSecret K (secret_key ref)) w)"
  by (cases "run_state (kGetSecret K (secret_key ref)) w")
    (auto simp: resolveAuthSecretRef_def split: sum.splits option.splits)

end
