(* ===== verification/Bmc_Options.thy ===== *)
theory Bmc_Options
  imports Kube_Helpers
begin

text \<open>
  The BMC client factory of \<open>controller/client.go\<close>: the translation of a connection's
  provider options to bmclib options, the rpc provider's settings, and \<open>NewClientFunc\<close>,
  which builds a client and opens it.  Also the part the two BMC-facing \<open>doReconcile\<close>
  methods have in common: the credentials and options of a connection.
\<close>

record BMCOptions =
  bo_ProviderOptions :: "ProviderOptions option"
  bo_rpcSecrets :: "Secrets option"

type_synonym ('w, 'c) ClientFunc =
  "string \<Rightarrow> string \<Rightarrow> string \<Rightarrow> BMCOptions option \<Rightarrow> ('w, goerr + 'c) prog"

section \<open>The rpc provider's options\<close>

definition zero_rpc_RequestOpts :: rpc_RequestOpts where
  "zero_rpc_RequestOpts = \<lparr>ro_HTTPContentType = [], ro_HTTPMethod = [], ro_StaticHeaders = [],
     ro_TimestampFormat = [], ro_TimestampHeader = []\<rparr>"

definition zero_rpc_SignatureOpts :: rpc_SignatureOpts where
  "zero_rpc_SignatureOpts = \<lparr>so_HeaderName = [], so_AppendAlgoToHeaderDisabled = False,
     so_IncludedPayloadHeaders = []\<rparr>"

definition zero_rpc_HMACOpts :: rpc_HMACOpts where
  "zero_rpc_HMACOpts = \<lparr>ho_PrefixSigDisabled = False, ho_Secrets = []\<rparr>"

definition zero_rpc_Experimental :: rpc_Experimental where
  "zero_rpc_Experimental = \<lparr>eo_CustomRequestPayload = [], eo_DotPath = []\<rparr>"

definition zero_rpc_Opts :: rpc_Opts where
  "zero_rpc_Opts = \<lparr>op_Request = zero_rpc_RequestOpts, op_Signature = zero_rpc_SignatureOpts,
     op_HMAC = zero_rpc_HMACOpts, op_Experimental = zero_rpc_Experimental\<rparr>"

definition toRequestOpts :: "RequestOpts option \<Rightarrow> rpc_RequestOpts" where
  "toRequestOpts r = (case r of None \<Rightarrow> zero_rpc_RequestOpts | Some r \<Rightarrow>
     (let opt = zero_rpc_RequestOpts;
          opt = (if rq_HTTPContentType r \<noteq> [] then opt\<lparr>ro_HTTPContentType := rq_HTTPContentType r\<rparr> else opt);
          opt = (if rq_HTTPMethod r \<noteq> [] then opt\<lparr>ro_HTTPMethod := rq_HTTPMethod r\<rparr> else opt);
          opt = (if length (rq_StaticHeaders r) > 0 then opt\<lparr>ro_StaticHeaders := rq_StaticHeaders r\<rparr> else opt);
          opt = (if rq_TimestampFormat r \<noteq> [] then opt\<lparr>ro_TimestampFormat := rq_TimestampFormat r\<rparr> else opt);
          opt = (if rq_TimestampHeader r \<noteq> [] then opt\<lparr>ro_TimestampHeader := rq_TimestampHeader r\<rparr> else opt)
      in opt))"

definition toSignatureOpts :: "SignatureOpts option \<Rightarrow> rpc_SignatureOpts" where
  "toSignatureOpts s = (case s of None \<Rightarrow> zero_rpc_SignatureOpts | Some s \<Rightarrow>
     (let opt = zero_rpc_SignatureOpts;
          opt = (if sg_HeaderName s \<noteq> [] then opt\<lparr>so_HeaderName := sg_HeaderName s\<rparr> else opt);
          opt = (if sg_AppendAlgoToHeaderDisabled s
                 then opt\<lparr>so_AppendAlgoToHeaderDisabled := sg_AppendAlgoToHeaderDisabled s\<rparr> else opt);
          opt = (if length (sg_IncludedPayloadHeaders s) > 0
                 then opt\<lparr>so_IncludedPayloadHeaders := sg_IncludedPayloadHeaders s\<rparr> else opt)
      in opt))"

definition toHMACOpts :: "HMACOpts option \<Rightarrow> rpc_HMACOpts" where
  "toHMACOpts h = (case h of None \<Rightarrow> zero_rpc_HMACOpts | Some h \<Rightarrow>
     (let opt = zero_rpc_HMACOpts;
          opt = (if hm_PrefixSigDisabled h then opt\<lparr>ho_PrefixSigDisabled := hm_PrefixSigDisabled h\<rparr> else opt)
      in opt))"

definition toExperimentalOpts :: "ExperimentalOpts option \<Rightarrow> rpc_Experimental" where
  "toExperimentalOpts e = (case e of None \<Rightarrow> zero_rpc_Experimental | Some e \<Rightarrow>
     (let opt = zero_rpc_Experimental;
          opt = (if ex_CustomRequestPayload e \<noteq> []
                 then opt\<lparr>eo_CustomRequestPayload := ex_CustomRequestPayload e\<rparr> else opt);
          opt = (if ex_DotPath e \<noteq> [] then opt\<lparr>eo_DotPath := ex_DotPath e\<rparr> else opt)
      in opt))"

definition toRPCOpts :: "RPCOptions option \<Rightarrow> rpc_Opts" where
  "toRPCOpts r = (case r of None \<Rightarrow> zero_rpc_Opts | Some r \<Rightarrow>
     (let opt = zero_rpc_Opts;
          opt = opt\<lparr>op_Request := toRequestOpts (rpc_Request r)\<rparr>;
          opt = opt\<lparr>op_Signature := toSignatureOpts (rpc_Signature r)\<rparr>;
          opt = opt\<lparr>op_HMAC := toHMACOpts (rpc_HMAC r)\<rparr>;
          opt = opt\<lparr>op_Experimental := toExperimentalOpts (rpc_Experimental r)\<rparr>
      in opt))"

definition rpc_defaults :: rpc_Provider where
  "rpc_defaults = \<lparr>pv_ConsumerURL = [], pv_Host = [], pv_Opts = zero_rpc_Opts
     \<lparr>op_Request := zero_rpc_RequestOpts\<lparr>ro_TimestampHeader := ''X-Rufio-Timestamp''\<rparr>,
      op_Signature := zero_rpc_SignatureOpts
        \<lparr>so_HeaderName := ''X-Rufio-Signature'',
         so_IncludedPayloadHeaders := [''X-Rufio-Timestamp'']\<rparr>\<rparr>\<rparr>"

text \<open>\<open>translateRPC\<close> is called with the rpc options present.\<close>

definition translateRPC :: "convlib \<Rightarrow> BMCOptions \<Rightarrow> RPCOptions \<Rightarrow> string \<Rightarrow> rpc_Provider" where
  "translateRPC L b rpc host =
     (let s = (case bo_rpcSecrets b of None \<Rightarrow> [] | Some sec \<Rightarrow> sec);
          o1 = \<lparr>pv_ConsumerURL = rpc_ConsumerURL rpc, pv_Host = host, pv_Opts = toRPCOpts (Some rpc)\<rparr>;
          o2 = (if length s > 0
                then o1\<lparr>pv_Opts := (pv_Opts o1)\<lparr>op_HMAC := (op_HMAC (pv_Opts o1))\<lparr>ho_Secrets := s\<rparr>\<rparr>\<rparr>
                else o1)
      in MergeWithOverride L o2 rpc_defaults)"

section \<open>Provider options to client options\<close>

definition translate_redfish :: "RedfishOptions \<Rightarrow> bmc_option list" where
  "translate_redfish r =
     (if rf_Port r \<noteq> 0 then [WithRedfishPort (Itoa (rf_Port r))] else []) @
     (if rf_UseBasicAuth r then [WithRedfishUseBasicAuth True] else []) @
     (if rf_SystemName r \<noteq> [] then [WithRedfishSystemName (rf_SystemName r)] else [])"

definition translate_ipmitool :: "IPMITOOLOptions \<Rightarrow> bmc_option list" where
  "translate_ipmitool i =
     (if ipmi_Port i \<noteq> 0 then [WithIpmitoolPort (Itoa (ipmi_Port i))] else []) @
     (if ipmi_CipherSuite i \<noteq> [] then [WithIpmitoolCipherSuite (ipmi_CipherSuite i)] else [])"

definition translate_amt :: "convlib \<Rightarrow> IntelAMTOptions \<Rightarrow> bmc_option list" where
  "translate_amt L a =
     (let p = (case ToUint32 L (amt_Port a) of None \<Rightarrow> 16992 | Some p \<Rightarrow> p)
      in [WithIntelAMTPort p, WithIntelAMTHostScheme (amt_HostScheme a)])"

definition Translate :: "convlib \<Rightarrow> BMCOptions \<Rightarrow> string \<Rightarrow> bmc_option list" where
  "Translate L b host =
     (case bo_ProviderOptions b of
        None \<Rightarrow> []
      | Some po \<Rightarrow>
          (case po_Redfish po of None \<Rightarrow> [] | Some r \<Rightarrow> translate_redfish r) @
          (case po_IPMITOOL po of None \<Rightarrow> [] | Some i \<Rightarrow> translate_ipmitool i) @
          (case po_IntelAMT po of None \<Rightarrow> [] | Some a \<Rightarrow> translate_amt L a) @
          (case po_RPC po of None \<Rightarrow> [] | Some r \<Rightarrow> [WithRPCOpt (translateRPC L b r host)]))"

section \<open>Building and opening a client\<close>

definition ProviderName_String :: "ProviderName \<Rightarrow> string" where
  "ProviderName_String p = p"

definition toStringSlice :: "ProviderName list \<Rightarrow> string list" where
  "toStringSlice p = map ProviderName_String p"

lemma toStringSlice_same: "toStringSlice p = p"
  by (simp add: toStringSlice_def ProviderName_String_def map_idI)

definition preferred_order :: "BMCOptions option \<Rightarrow> ProviderName list" where
  "preferred_order opts = (case opts of None \<Rightarrow> [] | Some b \<Rightarrow>
     (case bo_ProviderOptions b of None \<Rightarrow> [] | Some po \<Rightarrow> po_PreferredOrder po))"

definition NewClientFunc ::
  "convlib \<Rightarrow> ('w, 'c) bmcdial \<Rightarrow> duration \<Rightarrow> ('w, 'c) ClientFunc" where
  "NewClientFunc L D timeout = (\<lambda>hostIP username password opts. do {
     client \<leftarrow> NewClient D hostIP username password
       ((case opts of None \<Rightarrow> [] | Some b \<Rightarrow> Translate L b hostIP) @ [WithLogger]);
     _ \<leftarrow> (if length (preferred_order opts) > 0
           then PreferDriver D client (toStringSlice (preferred_order opts))
           else State_Monad.return ());
     err \<leftarrow> Open D client timeout;
     State_Monad.return (case err of
       Some e \<Rightarrow> Inl (Wrap ''failed to open connection to BMC: '' e)
     | None \<Rightarrow> Inr client)
   })"

section \<open>Credentials and options of a connection\<close>

text \<open>
  The opening of both \<open>doReconcile\<close> methods.  With rpc options present the HMAC secrets
  are fetched, if there are any, and user name and password stay empty; otherwise they
  come from the Secret that \<open>AuthSecretRef\<close> names.  \<open>prefix\<close> is the text its error is
  wrapped with, which differs between the two controllers.
\<close>

definition rpc_options :: "Connection \<Rightarrow> RPCOptions option" where
  "rpc_options conn = (case cn_ProviderOptions conn of None \<Rightarrow> None | Some po \<Rightarrow> po_RPC po)"

definition hmac_secrets :: "RPCOptions \<Rightarrow> HMACSecrets" where
  "hmac_secrets rpc = (case rpc_HMAC rpc of None \<Rightarrow> [] | Some h \<Rightarrow> hm_Secrets h)"

definition connection_credentials ::
  "'w kube \<Rightarrow> Connection \<Rightarrow> string \<Rightarrow> ('w, goerr + string \<times> string \<times> BMCOptions) prog" where
  "connection_credentials K conn prefix =
     (let opts = \<lparr>bo_ProviderOptions = cn_ProviderOptions conn, bo_rpcSecrets = None\<rparr> in
      case rpc_options conn of
        Some rpc \<Rightarrow>
          if length (hmac_secrets rpc) > 0 then do {
            r \<leftarrow> retrieveHMACSecrets K (hmac_secrets rpc);
            State_Monad.return (case r of
              Inl e \<Rightarrow> Inl (Wrap ''unable to get hmac secrets: '' e)
            | Inr se \<Rightarrow> Inr ([], [], opts\<lparr>bo_rpcSecrets := Some se\<rparr>))
          }
          else State_Monad.return (Inr ([], [], opts))
      | None \<Rightarrow> do {
          r \<leftarrow> resolveAuthSecretRef K (cn_AuthSecretRef conn);
          State_Monad.return (case r of
            Inl e \<Rightarrow> Inl (Wrap prefix e)
          | Inr (username, password) \<Rightarrow> Inr (username, password, opts))
        })"

section \<open>What the translation computes\<close>

text \<open>The rpc options as a plain copy of every field the user can set; an absent part is zero.\<close>

definition copy_RequestOpts :: "RequestOpts \<Rightarrow> rpc_RequestOpts" where
  "copy_RequestOpts r = \<lparr>ro_HTTPContentType = rq_HTTPContentType r, ro_HTTPMethod = rq_HTTPMethod r,
     ro_StaticHeaders = rq_StaticHeaders r, ro_TimestampFormat = rq_TimestampFormat r,
     ro_TimestampHeader = rq_TimestampHeader r\<rparr>"

definition copy_SignatureOpts :: "SignatureOpts \<Rightarrow> rpc_SignatureOpts" where
  "copy_SignatureOpts s = \<lparr>so_HeaderName = sg_HeaderName s,
     so_AppendAlgoToHeaderDisabled = sg_AppendAlgoToHeaderDisabled s,
     so_IncludedPayloadHeaders = sg_IncludedPayloadHeaders s\<rparr>"

definition copy_HMACOpts :: "HMACOpts \<Rightarrow> rpc_HMACOpts" where
  "copy_HMACOpts h = \<lparr>ho_PrefixSigDisabled = hm_PrefixSigDisabled h, ho_Secrets = []\<rparr>"

definition copy_ExperimentalOpts :: "ExperimentalOpts \<Rightarrow> rpc_Experimental" where
  "copy_ExperimentalOpts e = \<lparr>eo_CustomRequestPayload = ex_CustomRequestPayload e, eo_DotPath = ex_DotPath e\<rparr>"

definition or_zero :: "'b \<Rightarrow> ('a \<Rightarrow> 'b) \<Rightarrow> 'a option \<Rightarrow> 'b" where
  "or_zero z f x = (case x of None \<Rightarrow> z | Some a \<Rightarrow> f a)"

lemma toRequestOpts_copy: "toRequestOpts r = or_zero zero_rpc_RequestOpts copy_RequestOpts r"
  by (cases r) (simp_all add: toRequestOpts_def or_zero_def copy_RequestOpts_def zero_rpc_RequestOpts_def Let_def)

lemma toSignatureOpts_copy: "toSignatureOpts s = or_zero zero_rpc_SignatureOpts copy_SignatureOpts s"
  by (cases s) (simp_all add: toSignatureOpts_def or_zero_def copy_SignatureOpts_def zero_rpc_SignatureOpts_def Let_def)

lemma toHMACOpts_copy: "toHMACOpts h = or_zero zero_rpc_HMACOpts copy_HMACOpts h"
  by (cases h) (simp_all add: toHMACOpts_def or_zero_def copy_HMACOpts_def zero_rpc_HMACOpts_def Let_def)

lemma toExperimentalOpts_copy: "toExperimentalOpts e = or_zero zero_rpc_Experimental copy_ExperimentalOpts e"
  by (cases e) (simp_all add: toExperimentalOpts_def or_zero_def copy_ExperimentalOpts_def zero_rpc_Experimental_def Let_def)

lemma toRPCOpts_some:
  "toRPCOpts (Some r) =
     \<lparr>op_Request = or_zero zero_rpc_RequestOpts copy_RequestOpts (rpc_Request r),
      op_Signature = or_zero zero_rpc_SignatureOpts copy_SignatureOpts (rpc_Signature r),
      op_HMAC = or_zero zero_rpc_HMACOpts copy_HMACOpts (rpc_HMAC r),
      op_Experimental = or_zero zero_rpc_Experimental copy_ExperimentalOpts (rpc_Experimental r)\<rparr>"
  by (simp add: toRPCOpts_def zero_rpc_Opts_def Let_def
      toRequestOpts_copy toSignatureOpts_copy toHMACOpts_copy toExperimentalOpts_copy)

definition option_kind :: "bmc_option \<Rightarrow> nat" where
  "option_kind x = (case x of
     WithRedfishPort _ \<Rightarrow> 0 | WithRedfishUseBasicAuth _ \<Rightarrow> 1 | WithRedfishSystemName _ \<Rightarrow> 2
   | WithIpmitoolPort _ \<Rightarrow> 3 | WithIpmitoolCipherSuite _ \<Rightarrow> 4 | WithIntelAMTPort _ \<Rightarrow> 5
   | WithIntelAMTHostScheme _ \<Rightarrow> 6 | WithRPCOpt _ \<Rightarrow> 7 | WithLogger \<Rightarrow> 8)"

definition wanted_option :: "convlib \<Rightarrow> BMCOptions \<Rightarrow> string \<Rightarrow> ProviderOptions \<Rightarrow> bmc_option \<Rightarrow> bool" where
  "wanted_option L b host po x = (case x of
     WithRedfishPort s \<Rightarrow> (case po_Redfish po of None \<Rightarrow> False | Some r \<Rightarrow> rf_Port r \<noteq> 0 \<and> s = Itoa (rf_Port r))
   | WithRedfishUseBasicAuth v \<Rightarrow> (case po_Redfish po of None \<Rightarrow> False | Some r \<Rightarrow> rf_UseBasicAuth r \<and> v)
   | WithRedfishSystemName s \<Rightarrow> (case po_Redfish po of None \<Rightarrow> False | Some r \<Rightarrow> rf_SystemName r \<noteq> [] \<and> s = rf_SystemName r)
   | WithIpmitoolPort s \<Rightarrow> (case po_IPMITOOL po of None \<Rightarrow> False | Some i \<Rightarrow> ipmi_Port i \<noteq> 0 \<and> s = Itoa (ipmi_Port i))
   | WithIpmitoolCipherSuite s \<Rightarrow>
       (case po_IPMITOOL po of None \<Rightarrow> False | Some i \<Rightarrow> ipmi_CipherSuite i \<noteq> [] \<and> s = ipmi_CipherSuite i)
   | WithIntelAMTPort p \<Rightarrow> (case po_IntelAMT po of None \<Rightarrow> False
       | Some a \<Rightarrow> p = (case ToUint32 L (amt_Port a) of None \<Rightarrow> 16992 | Some q \<Rightarrow> q))
   | WithIntelAMTHostScheme s \<Rightarrow> (case po_IntelAMT po of None \<Rightarrow> False | Some a \<Rightarrow> s = amt_HostScheme a)
   | WithRPCOpt v \<Rightarrow> (case po_RPC po of None \<Rightarrow> False | Some r \<Rightarrow> v = translateRPC L b r host)
   | WithLogger \<Rightarrow> False)"

text \<open>C32. \<open>Translate\<close> passes, for redfish and ipmitool, exactly the settings that are not the zero value; for
  Intel AMT always the port and the host scheme, set or not; for rpc always its one option; each only
  when the provider is present, at most once, and in the fixed order redfish, ipmitool, Intel AMT, rpc.
  With no provider options it passes none.\<close>

theorem Translate_spec:
  "set (Translate L b host) =
     (case bo_ProviderOptions b of None \<Rightarrow> {} | Some po \<Rightarrow> {x. wanted_option L b host po x}) \<and>
   sorted_wrt (\<lambda>x y. option_kind x < option_kind y) (Translate L b host)"
proof
  have "x \<in> set (Translate L b host) \<longleftrightarrow> wanted_option L b host po x" if "bo_ProviderOptions b = Some po" for po x
    using that
    by (cases x) (auto simp: Translate_def wanted_option_def translate_redfish_def translate_ipmitool_def
        translate_amt_def Let_def split: option.splits)
  note member = this
  show "set (Translate L b host) =
     (case bo_ProviderOptions b of None \<Rightarrow> {} | Some po \<Rightarrow> {x. wanted_option L b host po x})"
  proof (cases "bo_ProviderOptions b")
    case None
    then show ?thesis by (simp add: Translate_def)
  next
    case (Some po)
    then show ?thesis by (simp add: set_eq_iff member)
  qed
  show "sorted_wrt (\<lambda>x y. option_kind x < option_kind y) (Translate L b host)"
    by (auto simp: Translate_def translate_redfish_def translate_ipmitool_def translate_amt_def
        option_kind_def sorted_wrt_append Let_def split: option.splits)
qed

definition safecast_docs :: "convlib \<Rightarrow> bool" where
  "safecast_docs L \<longleftrightarrow> (\<forall>i. ToUint32 L i = (if 0 \<le> i \<and> i < 2 ^ 32 then Some (word_of_int i) else None))"

text \<open>C33. The Intel AMT port is passed unchanged when it fits an unsigned 32-bit integer and as
  16992 otherwise; an unset port (0) fits, so port 0 is passed and not the default 16992.\<close>

theorem translate_amt_port:
  assumes "safecast_docs L"
  shows "\<exists>w. translate_amt L a = [WithIntelAMTPort w, WithIntelAMTHostScheme (amt_HostScheme a)] \<and>
    uint w = (if 0 \<le> amt_Port a \<and> amt_Port a < 2 ^ 32 then amt_Port a else 16992)"
  using assms by (simp add: translate_amt_def safecast_docs_def Let_def take_bit_int_eq_self unsigned_of_int)

text \<open>
  What \<open>mergo.Merge\<close> documents for \<open>WithOverride\<close>: a field of the source that is not empty
  replaces the destination's, an empty one leaves it.  (For the two maps only the second
  half is needed.)
\<close>

definition override :: "'a \<Rightarrow> 'a \<Rightarrow> 'a \<Rightarrow> 'a" where
  "override z dst src = (if src = z then dst else src)"

definition merge_docs :: "convlib \<Rightarrow> bool" where
  "merge_docs L \<longleftrightarrow> (\<forall>dst src. let m = MergeWithOverride L dst src;
      o_m = pv_Opts m; o_d = pv_Opts dst; o_s = pv_Opts src in
    pv_ConsumerURL m = override [] (pv_ConsumerURL dst) (pv_ConsumerURL src) \<and>
    pv_Host m = override [] (pv_Host dst) (pv_Host src) \<and>
    ro_HTTPContentType (op_Request o_m) =
      override [] (ro_HTTPContentType (op_Request o_d)) (ro_HTTPContentType (op_Request o_s)) \<and>
    ro_HTTPMethod (op_Request o_m) = override [] (ro_HTTPMethod (op_Request o_d)) (ro_HTTPMethod (op_Request o_s)) \<and>
    (ro_StaticHeaders (op_Request o_s) = [] \<longrightarrow>
      ro_StaticHeaders (op_Request o_m) = ro_StaticHeaders (op_Request o_d)) \<and>
    ro_TimestampFormat (op_Request o_m) =
      override [] (ro_TimestampFormat (op_Request o_d)) (ro_TimestampFormat (op_Request o_s)) \<and>
    ro_TimestampHeader (op_Request o_m) =
      override [] (ro_TimestampHeader (op_Request o_d)) (ro_TimestampHeader (op_Request o_s)) \<and>
    so_HeaderName (op_Signature o_m) =
      override [] (so_HeaderName (op_Signature o_d)) (so_HeaderName (op_Signature o_s)) \<and>
    so_AppendAlgoToHeaderDisabled (op_Signature o_m) = override False
      (so_AppendAlgoToHeaderDisabled (op_Signature o_d)) (so_AppendAlgoToHeaderDisabled (op_Signature o_s)) \<and>
    so_IncludedPayloadHeaders (op_Signature o_m) = override []
      (so_IncludedPayloadHeaders (op_Signature o_d)) (so_IncludedPayloadHeaders (op_Signature o_s)) \<and>
    ho_PrefixSigDisabled (op_HMAC o_m) =
      override False (ho_PrefixSigDisabled (op_HMAC o_d)) (ho_PrefixSigDisabled (op_HMAC o_s)) \<and>
    (ho_Secrets (op_HMAC o_s) = [] \<longrightarrow> ho_Secrets (op_HMAC o_m) = ho_Secrets (op_HMAC o_d)) \<and>
    eo_CustomRequestPayload (op_Experimental o_m) = override []
      (eo_CustomRequestPayload (op_Experimental o_d)) (eo_CustomRequestPayload (op_Experimental o_s)) \<and>
    eo_DotPath (op_Experimental o_m) =
      override [] (eo_DotPath (op_Experimental o_d)) (eo_DotPath (op_Experimental o_s)))"

text \<open>The two library functions as functions one can run.\<close>

definition override_provider :: "rpc_Provider \<Rightarrow> rpc_Provider \<Rightarrow> rpc_Provider" where
  "override_provider dst src = (let o_d = pv_Opts dst; o_s = pv_Opts src in
     \<lparr>pv_ConsumerURL = override [] (pv_ConsumerURL dst) (pv_ConsumerURL src),
      pv_Host = override [] (pv_Host dst) (pv_Host src),
      pv_Opts = \<lparr>
        op_Request = \<lparr>
          ro_HTTPContentType = override [] (ro_HTTPContentType (op_Request o_d)) (ro_HTTPContentType (op_Request o_s)),
          ro_HTTPMethod = override [] (ro_HTTPMethod (op_Request o_d)) (ro_HTTPMethod (op_Request o_s)),
          ro_StaticHeaders = override [] (ro_StaticHeaders (op_Request o_d)) (ro_StaticHeaders (op_Request o_s)),
          ro_TimestampFormat = override [] (ro_TimestampFormat (op_Request o_d)) (ro_TimestampFormat (op_Request o_s)),
          ro_TimestampHeader = override [] (ro_TimestampHeader (op_Request o_d)) (ro_TimestampHeader (op_Request o_s))\<rparr>,
        op_Signature = \<lparr>
          so_HeaderName = override [] (so_HeaderName (op_Signature o_d)) (so_HeaderName (op_Signature o_s)),
          so_AppendAlgoToHeaderDisabled = override False
            (so_AppendAlgoToHeaderDisabled (op_Signature o_d)) (so_AppendAlgoToHeaderDisabled (op_Signature o_s)),
          so_IncludedPayloadHeaders = override []
            (so_IncludedPayloadHeaders (op_Signature o_d)) (so_IncludedPayloadHeaders (op_Signature o_s))\<rparr>,
        op_HMAC = \<lparr>
          ho_PrefixSigDisabled = override False (ho_PrefixSigDisabled (op_HMAC o_d)) (ho_PrefixSigDisabled (op_HMAC o_s)),
          ho_Secrets = override [] (ho_Secrets (op_HMAC o_d)) (ho_Secrets (op_HMAC o_s))\<rparr>,
        op_Experimental = \<lparr>
          eo_CustomRequestPayload = override []
            (eo_CustomRequestPayload (op_Experimental o_d)) (eo_CustomRequestPayload (op_Experimental o_s)),
          eo_DotPath = override [] (eo_DotPath (op_Experimental o_d)) (eo_DotPath (op_Experimental o_s))\<rparr>\<rparr>\<rparr>)"

definition mem_convlib :: convlib where
  "mem_convlib = \<lparr>ToUint32 = (\<lambda>i. if 0 \<le> i \<and> i < 2 ^ 32 then Some (word_of_int i) else None),
     MergeWithOverride = override_provider\<rparr>"

lemma mem_convlib_safecast: "safecast_docs mem_convlib"
  by (simp add: safecast_docs_def mem_convlib_def)

lemma mem_convlib_merge: "merge_docs mem_convlib"
  by (simp add: merge_docs_def mem_convlib_def override_provider_def override_def Let_def)

theorem translate_amt_port_witness:
  "\<exists>w. translate_amt mem_convlib \<lparr>amt_Port = 0, amt_HostScheme = ''http''\<rparr> =
     [WithIntelAMTPort w, WithIntelAMTHostScheme ''http''] \<and> uint w = 0"
proof -
  from translate_amt_port [OF mem_convlib_safecast, of "\<lparr>amt_Port = 0, amt_HostScheme = ''http''\<rparr>"]
  show ?thesis by simp
qed

text \<open>The rpc provider a connection with rpc options gets.\<close>

definition expected_rpc :: "BMCOptions \<Rightarrow> RPCOptions \<Rightarrow> string \<Rightarrow> rpc_Provider" where
  "expected_rpc b rpc host =
     \<lparr>pv_ConsumerURL = rpc_ConsumerURL rpc, pv_Host = host,
      pv_Opts =
        \<lparr>op_Request = (or_zero zero_rpc_RequestOpts copy_RequestOpts (rpc_Request rpc))
           \<lparr>ro_TimestampHeader := ''X-Rufio-Timestamp''\<rparr>,
         op_Signature = (or_zero zero_rpc_SignatureOpts copy_SignatureOpts (rpc_Signature rpc))
           \<lparr>so_HeaderName := ''X-Rufio-Signature'', so_IncludedPayloadHeaders := [''X-Rufio-Timestamp'']\<rparr>,
         op_HMAC = (or_zero zero_rpc_HMACOpts copy_HMACOpts (rpc_HMAC rpc))
           \<lparr>ho_Secrets := or_zero [] (\<lambda>sec. sec) (bo_rpcSecrets b)\<rparr>,
         op_Experimental = or_zero zero_rpc_Experimental copy_ExperimentalOpts (rpc_Experimental rpc)\<rparr>\<rparr>"

lemma or_zero_HMAC_secrets [simp]:
  "(or_zero zero_rpc_HMACOpts copy_HMACOpts h)\<lparr>ho_Secrets := []\<rparr> = or_zero zero_rpc_HMACOpts copy_HMACOpts h"
  by (cases h) (simp_all add: or_zero_def copy_HMACOpts_def zero_rpc_HMACOpts_def)

lemmas merged = merge_docs_def [THEN iffD1, THEN spec, THEN spec, unfolded Let_def]

lemmas zero_rpc_defs = zero_rpc_Opts_def zero_rpc_RequestOpts_def zero_rpc_SignatureOpts_def
  zero_rpc_HMACOpts_def zero_rpc_Experimental_def

lemma merge_rpc_defaults:
  assumes "merge_docs L"
  shows "MergeWithOverride L dst rpc_defaults =
    dst\<lparr>pv_Opts := (pv_Opts dst)
      \<lparr>op_Request := (op_Request (pv_Opts dst))\<lparr>ro_TimestampHeader := ''X-Rufio-Timestamp''\<rparr>,
       op_Signature := (op_Signature (pv_Opts dst))
         \<lparr>so_HeaderName := ''X-Rufio-Signature'', so_IncludedPayloadHeaders := [''X-Rufio-Timestamp'']\<rparr>\<rparr>\<rparr>"
proof -
  note m = merged [OF assms, of dst rpc_defaults,
      unfolded rpc_defaults_def override_def zero_rpc_defs, simplified]
  show ?thesis
    unfolding rpc_defaults_def zero_rpc_defs
    by (intro rpc_Provider.equality rpc_Opts.equality rpc_RequestOpts.equality
        rpc_SignatureOpts.equality rpc_HMACOpts.equality rpc_Experimental.equality) (simp_all add: m)
qed

text \<open>C31. The rpc provider gets the consumer URL, the host, the user's request, signature,
  HMAC and experimental options and the fetched secrets, except that the time stamp header, the
  signature header and the signed headers are always Rufio's defaults, whatever the user set.\<close>

theorem translateRPC_result:
  assumes "merge_docs L"
  shows "translateRPC L b rpc host = expected_rpc b rpc host"
  by (simp add: translateRPC_def Let_def merge_rpc_defaults [OF assms] expected_rpc_def toRPCOpts_some
      or_zero_def [of "[]"] split: option.split)

theorem translateRPC_result_witness:
  "translateRPC mem_convlib \<lparr>bo_ProviderOptions = None, bo_rpcSecrets = None\<rparr>
     \<lparr>rpc_ConsumerURL = ''http://c'', rpc_LogNotificationsDisabled = False, rpc_Request = None,
      rpc_Signature = Some \<lparr>sg_HeaderName = ''X-Mine'', sg_AppendAlgoToHeaderDisabled = True,
        sg_IncludedPayloadHeaders = []\<rparr>, rpc_HMAC = None, rpc_Experimental = None\<rparr> ''host'' =
   expected_rpc \<lparr>bo_ProviderOptions = None, bo_rpcSecrets = None\<rparr>
     \<lparr>rpc_ConsumerURL = ''http://c'', rpc_LogNotificationsDisabled = False, rpc_Request = None,
      rpc_Signature = Some \<lparr>sg_HeaderName = ''X-Mine'', sg_AppendAlgoToHeaderDisabled = True,
        sg_IncludedPayloadHeaders = []\<rparr>, rpc_HMAC = None, rpc_Experimental = None\<rparr> ''host''"
  by (rule translateRPC_result [OF mem_convlib_merge])

end
