(* ===== verification/Machine_Controller.thy ===== *)
theory Machine_Controller
  imports Bmc_Options
begin

text \<open>
  The Machine controller (\<open>controller/machine.go\<close>): it reads the power state of a machine's
  BMC and writes it, with the condition \<open>Contactable\<close>, to the Machine's status.
\<close>

section \<open>The handler\<close>

definition machineRequeueInterval :: duration where
  "machineRequeueInterval = 3 * Minute"

abbreviation machine_host :: "Machine \<Rightarrow> string" where
  "machine_host bm \<equiv> cn_Host (msp_Connection (machine_Spec bm))"

definition machine_set_power :: "Machine \<Rightarrow> PowerState \<Rightarrow> Machine" where
  "machine_set_power bm p = bm\<lparr>machine_Status := (machine_Status bm)\<lparr>ms_Power := p\<rparr>\<rparr>"

definition machine_patchStatus :: "'w kube \<Rightarrow> Machine \<Rightarrow> Machine \<Rightarrow> ('w, goerr option) prog" where
  "machine_patchStatus K bm base = do {
     r \<leftarrow> kPatchMachine K bm base;
     State_Monad.return (map_option (\<lambda>e.
       Wrap (''failed to patch Machine '' @ om_Namespace (machine_ObjectMeta bm) @ ''/'' @
             om_Name (machine_ObjectMeta bm) @ '' status: '') (Api e)) r)
   }"

definition updatePowerState ::
  "'w kube \<Rightarrow> ('w, 'c) bmclib \<Rightarrow> Machine \<Rightarrow> 'c \<Rightarrow> ('w, Machine \<times> goerr option) prog" where
  "updatePowerState K B bm client = do {
     r \<leftarrow> GetPowerState B client;
     case r of
       Inl err \<Rightarrow> do {
         let bm = machine_set_power bm Unknown;
         _ \<leftarrow> kEventf K bm ''GetPowerStateFailed'' (''get power state: '' @ Error err);
         State_Monad.return (bm, Some (Wrap ''get power state: '' err))
       }
     | Inr rawState \<Rightarrow> State_Monad.return (machine_set_power bm (toPowerState rawState), None)
   }"

text \<open>The rest of \<open>doReconcile\<close> once the connection failed, and once it is open.\<close>

definition machine_unreachable ::
  "'w kube \<Rightarrow> Machine \<Rightarrow> Machine \<Rightarrow> goerr \<Rightarrow> ('w, outcome) prog" where
  "machine_unreachable K bm base err = do {
     now \<leftarrow> kNow K;
     let bm = Machine_SetCondition now bm Contactable ConditionFalse [WithMachineConditionMessage (Error err)];
     let bm = machine_set_power bm Unknown;
     patchErr \<leftarrow> machine_patchStatus K bm base;
     State_Monad.return (case patchErr of
       Some pe \<Rightarrow> Return zero_Result (Some (Aggregate [pe, err]))
     | None \<Rightarrow> Return (requeue_after machineRequeueInterval) None)
   }"

definition machine_report ::
  "'w kube \<Rightarrow> ('w, 'c) bmclib \<Rightarrow> Machine \<Rightarrow> Machine \<Rightarrow> 'c \<Rightarrow> ('w, outcome) prog" where
  "machine_report K B bm base client = do {
     r \<leftarrow> updatePowerState K B bm client;
     case r of (bm, pErr) \<Rightarrow> do {
       let (contactable, conditionMsg, multiErr) = (case pErr of
           Some e \<Rightarrow> (ConditionFalse, Error e, [e])
         | None \<Rightarrow> (ConditionTrue, [], []));
       now \<leftarrow> kNow K;
       let bm = Machine_SetCondition now bm Contactable contactable [WithMachineConditionMessage conditionMsg];
       patchErr \<leftarrow> machine_patchStatus K bm base;
       State_Monad.return (case patchErr of
         Some pe \<Rightarrow> Return zero_Result (Some (Aggregate (multiErr @ [pe])))
       | None \<Rightarrow> Return (requeue_after machineRequeueInterval) None)
     }
   }"

definition machine_doReconcile ::
  "'w kube \<Rightarrow> ('w, 'c) bmclib \<Rightarrow> ('w, 'c) ClientFunc \<Rightarrow> Machine \<Rightarrow> Machine \<Rightarrow> ('w, outcome) prog" where
  "machine_doReconcile K B F bm base = do {
     cred \<leftarrow> connection_credentials K (msp_Connection (machine_Spec bm))
       (''resolving Machine '' @ om_Namespace (machine_ObjectMeta bm) @ ''/'' @
        om_Name (machine_ObjectMeta bm) @ '' SecretReference: '');
     case cred of
       Inl e \<Rightarrow> State_Monad.return (Return zero_Result (Some (One e)))
     | Inr (username, password, opts) \<Rightarrow> do {
         conn \<leftarrow> F (machine_host bm) username password (Some opts);
         case conn of
           Inl err \<Rightarrow> machine_unreachable K bm base err
         | Inr client \<Rightarrow> deferred_close B client (machine_report K B bm base client)
       }
   }"

definition machine_Reconcile ::
  "'w kube \<Rightarrow> ('w, 'c) bmclib \<Rightarrow> ('w, 'c) ClientFunc \<Rightarrow> NamespacedName \<Rightarrow> ('w, outcome) prog" where
  "machine_Reconcile K B F req = do {
     r \<leftarrow> kGetMachine K req;
     case r of
       Inl err \<Rightarrow> State_Monad.return
         (if kIsNotFound K err then Return zero_Result None
          else Return zero_Result (Some (One (Api err))))
     | Inr machine \<Rightarrow>
         if \<not> Time_IsZero (om_DeletionTimestamp (machine_ObjectMeta machine))
         then State_Monad.return (Return zero_Result None)
         else machine_doReconcile K B F machine machine
   }"

declare
  machine_patchStatus_def [handler_defs] updatePowerState_def [handler_defs]
  machine_unreachable_def [handler_defs] machine_report_def [handler_defs]
  machine_doReconcile_def [handler_defs] machine_Reconcile_def [handler_defs]
  deferred_close_def [handler_defs] machineRequeueInterval_def [go_consts]

end
