(* ===== verification/Task_Controller.thy ===== *)
theory Task_Controller
  imports Bmc_Options
begin

text \<open>
  The Task controller (\<open>controller/task.go\<close>): the first reconciliation of a Task performs
  its action on the BMC and records the start time; later ones check whether the action
  took effect, and mark the Task Completed or, after ten minutes, Failed.
\<close>

section \<open>The handler\<close>

definition powerActionRequeueAfter :: duration where
  "powerActionRequeueAfter = 3 * Second"

definition task_timeout :: duration where
  "task_timeout = 10 * Minute"

abbreviation task_action :: "Task \<Rightarrow> Action" where
  "task_action t \<equiv> tsp_Task (task_Spec t)"

abbreviation task_conn :: "Task \<Rightarrow> Connection" where
  "task_conn t \<equiv> tsp_Connection (task_Spec t)"

abbreviation task_started :: "Task \<Rightarrow> bool" where
  "task_started t \<equiv> \<not> Time_IsZero (ts_StartTime (task_Status t))"

definition task_set_start :: "Task \<Rightarrow> time \<Rightarrow> Task" where
  "task_set_start t now = t\<lparr>task_Status := (task_Status t)\<lparr>ts_StartTime := Some now\<rparr>\<rparr>"

definition task_set_completion :: "Task \<Rightarrow> time \<Rightarrow> Task" where
  "task_set_completion t now = t\<lparr>task_Status := (task_Status t)\<lparr>ts_CompletionTime := Some now\<rparr>\<rparr>"

definition task_patchStatus :: "'w kube \<Rightarrow> Task \<Rightarrow> Task \<Rightarrow> ('w, goerr option) prog" where
  "task_patchStatus K t base = do {
     r \<leftarrow> kPatchTask K t base;
     State_Monad.return (map_option (\<lambda>e.
       Wrap (''failed to patch Task '' @ task_Namespace t @ ''/'' @ task_Name t @ '' status: '') (Api e)) r)
   }"

text \<open>
  The three stages of \<open>runTask\<close>.  \<open>Devices[0]\<close> panics on an empty slice.
\<close>

definition run_power :: "('w, 'c) bmclib \<Rightarrow> 'c \<Rightarrow> Action \<Rightarrow> ('w, step_result) prog" where
  "run_power B client a = (case act_PowerAction a of
     None \<Rightarrow> State_Monad.return StepOk
   | Some p \<Rightarrow> do {
       r \<leftarrow> SetPowerState B client p;
       State_Monad.return (case r of
         Inl err \<Rightarrow> StepErr (Wrap ''failed to perform PowerAction: '' err)
       | Inr ok \<Rightarrow> StepOk)
     })"

definition run_boot_device :: "('w, 'c) bmclib \<Rightarrow> 'c \<Rightarrow> Action \<Rightarrow> ('w, step_result) prog" where
  "run_boot_device B client a = (case act_OneTimeBootDeviceAction a of
     None \<Rightarrow> State_Monad.return StepOk
   | Some b \<Rightarrow> (case bda_Devices b of
       [] \<Rightarrow> State_Monad.return (StepPanic ''runtime error: index out of range [0] with length 0'')
     | d # ds \<Rightarrow> do {
         r \<leftarrow> SetBootDevice B client d False (bda_EFIBoot b);
         State_Monad.return (case r of
           Inl err \<Rightarrow> StepErr (Wrap ''failed to perform OneTimeBootDeviceAction: '' err)
         | Inr ok \<Rightarrow> StepOk)
       }))"

definition run_virtual_media :: "('w, 'c) bmclib \<Rightarrow> 'c \<Rightarrow> Action \<Rightarrow> ('w, step_result) prog" where
  "run_virtual_media B client a = (case act_VirtualMediaAction a of
     None \<Rightarrow> State_Monad.return StepOk
   | Some v \<Rightarrow> do {
       r \<leftarrow> SetVirtualMedia B client (vma_Kind v) (vma_MediaURL v);
       State_Monad.return (case r of
         Inl err \<Rightarrow> StepErr (Wrap ''failed to perform SetVirtualMedia: '' err)
       | Inr ok \<Rightarrow> StepOk)
     })"

definition and_then :: "('w, step_result) prog \<Rightarrow> ('w, step_result) prog \<Rightarrow> ('w, step_result) prog" where
  "and_then m n = do {
     r \<leftarrow> m;
     if r = StepOk then n else State_Monad.return r
   }"

definition runTask :: "('w, 'c) bmclib \<Rightarrow> Action \<Rightarrow> 'c \<Rightarrow> ('w, step_result) prog" where
  "runTask B task client =
     and_then (run_power B client task)
       (and_then (run_boot_device B client task)
         (run_virtual_media B client task))"

text \<open>What \<open>checkTaskStatus\<close> makes of a raw power state, and the check itself.\<close>

definition power_check :: "PowerAction \<Rightarrow> string \<Rightarrow> Result" where
  "power_check p rawState =
     (let state = toPowerState rawState in
      if p = PowerOn then
        (if state \<noteq> On then requeue_after powerActionRequeueAfter else zero_Result)
      else if p = PowerHardOff \<or> p = PowerSoftOff then
        (if Off \<noteq> state then requeue_after powerActionRequeueAfter else zero_Result)
      else zero_Result)"

definition checkTaskStatus ::
  "('w, 'c) bmclib \<Rightarrow> Action \<Rightarrow> 'c \<Rightarrow> ('w, Result \<times> goerr option) prog" where
  "checkTaskStatus B task client = (case act_PowerAction task of
     None \<Rightarrow> State_Monad.return (zero_Result, None)
   | Some p \<Rightarrow> do {
       r \<leftarrow> GetPowerState B client;
       State_Monad.return (case r of
         Inl err \<Rightarrow> (zero_Result, Some (Wrap ''failed to get power state: '' err))
       | Inr rawState \<Rightarrow> (power_check p rawState, None))
     })"

text \<open>
  The three failure branches of \<open>doReconcile\<close>: set the condition \<open>Failed\<close> with a message,
  patch the status, and return the error, aggregated after the patch's own error.
\<close>

definition task_fail ::
  "'w kube \<Rightarrow> Task \<Rightarrow> Task \<Rightarrow> string \<Rightarrow> goerr \<Rightarrow> ('w, outcome) prog" where
  "task_fail K t base msg err = do {
     let t = Task_SetCondition t TaskFailed ConditionTrue [WithTaskConditionMessage msg];
     patchErr \<leftarrow> task_patchStatus K t base;
     State_Monad.return (Return zero_Result (Some (case patchErr of
       Some pe \<Rightarrow> Aggregate [pe, err]
     | None \<Rightarrow> One err)))
   }"

text \<open>\<open>doReconcile\<close> of a started Task: time-out, check, completion.\<close>

definition timeout_error :: "duration \<Rightarrow> goerr" where
  "timeout_error d = New (''bmc task timeout: '' @ Itoa d)"

definition task_complete :: "'w kube \<Rightarrow> Task \<Rightarrow> Task \<Rightarrow> Result \<Rightarrow> ('w, outcome) prog" where
  "task_complete K t base result = do {
     now \<leftarrow> kNow K;
     let t = task_set_completion t now;
     let t = Task_SetCondition t TaskCompleted ConditionTrue [];
     patchErr \<leftarrow> task_patchStatus K t base;
     State_Monad.return (Return result (map_option One patchErr))
   }"

definition task_check ::
  "'w kube \<Rightarrow> ('w, 'c) bmclib \<Rightarrow> Task \<Rightarrow> Task \<Rightarrow> time \<Rightarrow> 'c \<Rightarrow> ('w, outcome) prog" where
  "task_check K B t base start client = do {
     now \<leftarrow> kNow K;
     let jobRunningTime = Since now start;
     if jobRunningTime \<ge> task_timeout
     then task_fail K t base (Error (timeout_error jobRunningTime)) (timeout_error jobRunningTime)
     else do {
       r \<leftarrow> checkTaskStatus B (task_action t) client;
       case r of (result, err) \<Rightarrow>
         (case err of
            Some e \<Rightarrow> State_Monad.return
              (Return result (Some (One (Wrap ''bmc task status check: '' e))))
          | None \<Rightarrow>
              if \<not> Result_IsZero result then State_Monad.return (Return result None)
              else task_complete K t base result)
     }
   }"

text \<open>\<open>doReconcile\<close> of a Task without a start time: record it and run the action.\<close>

definition task_start ::
  "'w kube \<Rightarrow> ('w, 'c) bmclib \<Rightarrow> Task \<Rightarrow> Task \<Rightarrow> 'c \<Rightarrow> ('w, outcome) prog" where
  "task_start K B t base client = do {
     now \<leftarrow> kNow K;
     let t = task_set_start t now;
     r \<leftarrow> runTask B (task_action t) client;
     case r of
       StepPanic m \<Rightarrow> State_Monad.return (Panic m)
     | StepErr err \<Rightarrow> task_fail K t base (Error err) err
     | StepOk \<Rightarrow> do {
         patchErr \<leftarrow> task_patchStatus K t base;
         State_Monad.return (Return zero_Result (map_option One patchErr))
       }
   }"

definition task_body ::
  "'w kube \<Rightarrow> ('w, 'c) bmclib \<Rightarrow> Task \<Rightarrow> Task \<Rightarrow> 'c \<Rightarrow> ('w, outcome) prog" where
  "task_body K B t base client = (case ts_StartTime (task_Status t) of
     Some start \<Rightarrow>
       if start \<noteq> 0 then task_check K B t base start client
       else task_start K B t base client
   | None \<Rightarrow> task_start K B t base client)"

definition task_doReconcile ::
  "'w kube \<Rightarrow> ('w, 'c) bmclib \<Rightarrow> ('w, 'c) ClientFunc \<Rightarrow> Task \<Rightarrow> Task \<Rightarrow> ('w, outcome) prog" where
  "task_doReconcile K B F t base = do {
     cred \<leftarrow> connection_credentials K (task_conn t)
       (''resolving connection secret for task '' @ task_Namespace t @ ''/'' @ task_Name t @ '': '');
     case cred of
       Inl e \<Rightarrow> State_Monad.return (Return zero_Result (Some (One e)))
     | Inr (username, password, opts) \<Rightarrow> do {
         conn \<leftarrow> F (cn_Host (task_conn t)) username password (Some opts);
         case conn of
           Inl err \<Rightarrow> task_fail K t base (''Failed to connect to BMC: '' @ Error err) err
         | Inr client \<Rightarrow> deferred_close B client (task_body K B t base client)
       }
   }"

definition task_Reconcile ::
  "'w kube \<Rightarrow> ('w, 'c) bmclib \<Rightarrow> ('w, 'c) ClientFunc \<Rightarrow> NamespacedName \<Rightarrow> ('w, outcome) prog" where
  "task_Reconcile K B F req = do {
     r \<leftarrow> kGetTask K req;
     case r of
       Inl err \<Rightarrow> State_Monad.return
         (if kIsNotFound K err then Return zero_Result None
          else Return zero_Result (Some (One (Api err))))
     | Inr task \<Rightarrow>
         if \<not> Time_IsZero (om_DeletionTimestamp (task_ObjectMeta task))
         then State_Monad.return (Return zero_Result None)
         else if Task_HasCondition task TaskFailed ConditionTrue \<or>
                 Task_HasCondition task TaskCompleted ConditionTrue
         then State_Monad.return (Return zero_Result None)
         else task_doReconcile K B F task task
   }"

declare
  task_patchStatus_def [handler_defs] run_power_def [handler_defs] run_boot_device_def [handler_defs]
  run_virtual_media_def [handler_defs] and_then_def [handler_defs] runTask_def [handler_defs]
  checkTaskStatus_def [handler_defs] task_fail_def [handler_defs] task_complete_def [handler_defs]
  task_check_def [handler_defs] task_start_def [handler_defs] task_body_def [handler_defs]
  task_doReconcile_def [handler_defs] task_Reconcile_def [handler_defs]
  powerActionRequeueAfter_def [go_consts] task_timeout_def [go_consts]

end
