(* ===== verification/Job_Controller.thy ===== *)
theory Job_Controller
  imports Task_Naming
begin

text \<open>
  The Job controller (\<open>controller/job.go\<close>): it creates the Tasks of a Job one after the
  other, each once the ones before it are Completed, and marks the Job Completed or Failed.
\<close>

section \<open>The handler\<close>

definition job_set_start :: "Job \<Rightarrow> time \<Rightarrow> Job" where
  "job_set_start j now = j\<lparr>job_Status := (job_Status j)\<lparr>js_StartTime := Some now\<rparr>\<rparr>"

definition job_set_completion :: "Job \<Rightarrow> time \<Rightarrow> Job" where
  "job_set_completion j now = j\<lparr>job_Status := (job_Status j)\<lparr>js_CompletionTime := Some now\<rparr>\<rparr>"

definition job_patchStatus :: "'w kube \<Rightarrow> Job \<Rightarrow> Job \<Rightarrow> ('w, goerr option) prog" where
  "job_patchStatus K j base = do {
     r \<leftarrow> kPatchJob K j base;
     State_Monad.return (map_option (\<lambda>e.
       Wrap (''failed to patch Job '' @ job_Namespace j @ ''/'' @ job_Name j @ '' status: '') (Api e)) r)
   }"

definition getMachine :: "'w kube \<Rightarrow> MachineRef \<Rightarrow> ('w, goerr + Machine) prog" where
  "getMachine K ref = do {
     let key = nn (mr_Namespace ref) (mr_Name ref);
     r \<leftarrow> kGetMachine K key;
     State_Monad.return (case r of
       Inl err \<Rightarrow> Inl
         (if kIsNotFound K err then Wrap (''machine '' @ kKeyString K key @ '' not found: '') (Api err)
          else Wrap (''failed to get Machine '' @ kKeyString K key @ '': '') (Api err))
     | Inr machine \<Rightarrow> Inr machine)
   }"

text \<open>\<open>job.Spec.Tasks[taskIndex]\<close> panics when the index is out of range.\<close>

definition createTaskWithOwner :: "'w kube \<Rightarrow> Job \<Rightarrow> nat \<Rightarrow> Connection \<Rightarrow> ('w, step_result) prog" where
  "createTaskWithOwner K job taskIndex conn =
     (if taskIndex < length (jsp_Tasks (job_Spec job)) then do {
        let task = task_for job taskIndex (jsp_Tasks (job_Spec job) ! taskIndex) conn;
        r \<leftarrow> kCreateTask K task;
        State_Monad.return (case r of
          Some err \<Rightarrow> StepErr (Wrap (''failed to create Task '' @ task_Namespace task @ ''/'' @
            task_Name task @ '': '') (Api err))
        | None \<Rightarrow> StepOk)
      }
      else State_Monad.return (StepPanic (''runtime error: index out of range ['' @ Itoa (int taskIndex) @
        ''] with length '' @ Itoa (int (length (jsp_Tasks (job_Spec job)))))))"

text \<open>
  The loop over the listed Tasks: it counts Completed Tasks, and stops at the first other
  one, which is either Failed or still to be waited for.
\<close>

datatype scan_result = ScanDone nat | ScanFailed Task | ScanPending

fun scan_tasks :: "nat \<Rightarrow> Task list \<Rightarrow> scan_result" where
  "scan_tasks completedTasksCount [] = ScanDone completedTasksCount"
| "scan_tasks completedTasksCount (task # tasks) =
     (if Task_HasCondition task TaskCompleted ConditionTrue
      then scan_tasks (Suc completedTasksCount) tasks
      else if Task_HasCondition task TaskFailed ConditionTrue then ScanFailed task
      else ScanPending)"

definition job_fail :: "'w kube \<Rightarrow> Job \<Rightarrow> Job \<Rightarrow> goerr \<Rightarrow> ('w, outcome) prog" where
  "job_fail K job base err = do {
     let job = Job_SetCondition job JobFailed ConditionTrue [WithJobConditionMessage (Error err)];
     patchErr \<leftarrow> job_patchStatus K job base;
     State_Monad.return (Return zero_Result (Some (case patchErr of
       Some pe \<Rightarrow> Aggregate [pe, err]
     | None \<Rightarrow> One err)))
   }"

definition task_failed_error :: "Task \<Rightarrow> goerr" where
  "task_failed_error task = New (''task '' @ task_Namespace task @ ''/'' @ task_Name task @ '' failed'')"

definition job_mark_running :: "'w kube \<Rightarrow> Job \<Rightarrow> ('w, Job) prog" where
  "job_mark_running K job =
     (if \<not> Job_HasCondition job JobRunning ConditionTrue then do {
        now \<leftarrow> kNow K;
        let job = job_set_start job now;
        State_Monad.return (Job_SetCondition job JobRunning ConditionTrue [])
      }
      else State_Monad.return job)"

definition job_complete :: "'w kube \<Rightarrow> Job \<Rightarrow> Job \<Rightarrow> ('w, outcome) prog" where
  "job_complete K job base = do {
     let job = Job_SetCondition job JobCompleted ConditionTrue [];
     now \<leftarrow> kNow K;
     let job = job_set_completion job now;
     err \<leftarrow> job_patchStatus K job base;
     State_Monad.return (Return zero_Result (map_option One err))
   }"

definition job_next_task :: "'w kube \<Rightarrow> Job \<Rightarrow> Job \<Rightarrow> nat \<Rightarrow> Connection \<Rightarrow> ('w, outcome) prog" where
  "job_next_task K job base completedTasksCount conn = do {
     r \<leftarrow> createTaskWithOwner K job completedTasksCount conn;
     case r of
       StepPanic m \<Rightarrow> State_Monad.return (Panic m)
     | StepErr err \<Rightarrow> job_fail K job base err
     | StepOk \<Rightarrow> do {
         err \<leftarrow> job_patchStatus K job base;
         State_Monad.return (Return zero_Result (map_option One err))
       }
   }"

definition job_advance :: "'w kube \<Rightarrow> Job \<Rightarrow> Job \<Rightarrow> Machine \<Rightarrow> Task list \<Rightarrow> ('w, outcome) prog" where
  "job_advance K job base machine tasks =
     (case scan_tasks 0 tasks of
        ScanFailed task \<Rightarrow> job_fail K job base (task_failed_error task)
      | ScanPending \<Rightarrow> State_Monad.return (Return zero_Result None)
      | ScanDone completedTasksCount \<Rightarrow>
          if completedTasksCount = length (jsp_Tasks (job_Spec job)) then job_complete K job base
          else job_next_task K job base completedTasksCount (msp_Connection (machine_Spec machine)))"

definition job_doReconcile :: "'w kube \<Rightarrow> Job \<Rightarrow> Job \<Rightarrow> ('w, outcome) prog" where
  "job_doReconcile K job base = do {
     job \<leftarrow> job_mark_running K job;
     m \<leftarrow> getMachine K (jsp_MachineRef (job_Spec job));
     case m of
       Inl err \<Rightarrow> State_Monad.return (Return zero_Result (Some (One
         (Wrap (''get Job '' @ job_Namespace job @ ''/'' @ job_Name job @ '' MachineRef: '') err))))
     | Inr machine \<Rightarrow> do {
         l \<leftarrow> kListTasks K (job_Name job) (job_Namespace job);
         case l of
           Inl err \<Rightarrow> State_Monad.return (Return zero_Result (Some (One
             (Wrap (''failed to list owned Tasks for Job '' @ job_Namespace job @ ''/'' @
                job_Name job @ '': '') (Api err)))))
         | Inr tasks \<Rightarrow> job_advance K job base machine tasks
       }
   }"

definition job_Reconcile :: "'w kube \<Rightarrow> NamespacedName \<Rightarrow> ('w, outcome) prog" where
  "job_Reconcile K req = do {
     r \<leftarrow> kGetJob K req;
     case r of
       Inl err \<Rightarrow> State_Monad.return
         (if kIsNotFound K err then Return zero_Result None
          else Return zero_Result (Some (One (Api err))))
     | Inr job \<Rightarrow>
         if \<not> Time_IsZero (om_DeletionTimestamp (job_ObjectMeta job))
         then State_Monad.return (Return zero_Result None)
         else if Job_HasCondition job JobCompleted ConditionTrue \<or>
                 Job_HasCondition job JobFailed ConditionTrue
         then State_Monad.return (Return zero_Result None)
         else job_doReconcile K job job
   }"

declare
  job_patchStatus_def [handler_defs] getMachine_def [handler_defs] createTaskWithOwner_def [handler_defs]
  job_fail_def [handler_defs] job_mark_running_def [handler_defs] job_complete_def [handler_defs]
  job_next_task_def [handler_defs] job_advance_def [handler_defs] job_doReconcile_def [handler_defs]
  job_Reconcile_def [handler_defs]

end
