(* ===== verification/Call_Traces.thy ===== *)
theory Call_Traces
  imports Machine_Controller Task_Controller Job_Controller
begin

text \<open>
  The controllers run against an arbitrary outside world that records every call.  The
  state is the list of calls so far, each with its arguments and its answer; the answers
  come from arbitrary functions of that history (the record \<open>answers\<close>), so a fact proved
  here holds whatever the API server, the caches, the BMCs and the clock do.  A program's
  final history is the trace of what it did, in order.
\<close>

section \<open>Calls\<close>

datatype 'c event =
    EGetMachine NamespacedName "apierror + Machine"
  | EGetJob NamespacedName "apierror + Job"
  | EGetTask NamespacedName "apierror + Task"
  | EGetSecret NamespacedName "apierror + Secret"
  | EListTasks string string "apierror + Task list"
  | ECreateTask Task "apierror option"
  | EPatchMachine Machine Machine "apierror option"
  | EPatchJob Job Job "apierror option"
  | EPatchTask Task Task "apierror option"
  | EEventf Machine string string
  | ENow time
  | EOpen string string string "BMCOptions option" "goerr + 'c"
  | EDial string string string "bmc_option list" 'c
  | EPrefer 'c "string list"
  | EDialOpen 'c duration "goerr option"
  | EClose 'c "goerr option"
  | EGetPower 'c "goerr + string"
  | ESetPower 'c string "goerr + bool"
  | ESetBoot 'c string bool bool "goerr + bool"
  | ESetMedia 'c string string "goerr + bool"

type_synonym 'c trace = "'c event list"

record 'c answers =
  aGetMachine :: "'c trace \<Rightarrow> NamespacedName \<Rightarrow> apierror + Machine"
  aGetJob :: "'c trace \<Rightarrow> NamespacedName \<Rightarrow> apierror + Job"
  aGetTask :: "'c trace \<Rightarrow> NamespacedName \<Rightarrow> apierror + Task"
  aGetSecret :: "'c trace \<Rightarrow> NamespacedName \<Rightarrow> apierror + Secret"
  aListTasks :: "'c trace \<Rightarrow> string \<Rightarrow> string \<Rightarrow> apierror + Task list"
  aCreateTask :: "'c trace \<Rightarrow> Task \<Rightarrow> apierror option"
  aPatchMachine :: "'c trace \<Rightarrow> Machine \<Rightarrow> apierror option"
  aPatchJob :: "'c trace \<Rightarrow> Job \<Rightarrow> apierror option"
  aPatchTask :: "'c trace \<Rightarrow> Task \<Rightarrow> apierror option"
  aNow :: "'c trace \<Rightarrow> time"
  aIsNotFound :: "apierror \<Rightarrow> bool"
  aKeyString :: "NamespacedName \<Rightarrow> string"
  aRefString :: "SecretReference \<Rightarrow> string"
  aOpen :: "'c trace \<Rightarrow> string \<Rightarrow> string \<Rightarrow> string \<Rightarrow> BMCOptions option \<Rightarrow> goerr + 'c"
  aDial :: "'c trace \<Rightarrow> string \<Rightarrow> string \<Rightarrow> string \<Rightarrow> bmc_option list \<Rightarrow> 'c"
  aDialOpen :: "'c trace \<Rightarrow> 'c \<Rightarrow> duration \<Rightarrow> goerr option"
  aClose :: "'c trace \<Rightarrow> 'c \<Rightarrow> goerr option"
  aGetPower :: "'c trace \<Rightarrow> 'c \<Rightarrow> goerr + string"
  aSetPower :: "'c trace \<Rightarrow> 'c \<Rightarrow> string \<Rightarrow> goerr + bool"
  aSetBoot :: "'c trace \<Rightarrow> 'c \<Rightarrow> string \<Rightarrow> bool \<Rightarrow> bool \<Rightarrow> goerr + bool"
  aSetMedia :: "'c trace \<Rightarrow> 'c \<Rightarrow> string \<Rightarrow> string \<Rightarrow> goerr + bool"

text \<open>A call: its answer, and the event appended to the history.\<close>

definition call :: "('c trace \<Rightarrow> 'a) \<Rightarrow> ('a \<Rightarrow> 'c event) \<Rightarrow> ('c trace, 'a) prog" where
  "call answer event = State (\<lambda>h. (answer h, h @ [event (answer h)]))"

lemma wp_call [wp_simps]: "wp (call f ev) Q h \<longleftrightarrow> Q (f h) (h @ [ev (f h)])"
  by (simp add: wp_def call_def)

definition rec_kube :: "'c answers \<Rightarrow> 'c trace kube" where
  "rec_kube A = \<lparr>
     kGetMachine = (\<lambda>k. call (\<lambda>h. aGetMachine A h k) (EGetMachine k)),
     kGetJob = (\<lambda>k. call (\<lambda>h. aGetJob A h k) (EGetJob k)),
     kGetTask = (\<lambda>k. call (\<lambda>h. aGetTask A h k) (EGetTask k)),
     kGetSecret = (\<lambda>k. call (\<lambda>h. aGetSecret A h k) (EGetSecret k)),
     kListTasks = (\<lambda>n ns. call (\<lambda>h. aListTasks A h n ns) (EListTasks n ns)),
     kCreateTask = (\<lambda>t. call (\<lambda>h. aCreateTask A h t) (ECreateTask t)),
     kPatchMachine = (\<lambda>m base. call (\<lambda>h. aPatchMachine A h m) (EPatchMachine m base)),
     kPatchJob = (\<lambda>j base. call (\<lambda>h. aPatchJob A h j) (EPatchJob j base)),
     kPatchTask = (\<lambda>t base. call (\<lambda>h. aPatchTask A h t) (EPatchTask t base)),
     kEventf = (\<lambda>m reason msg. call (\<lambda>h. ()) (\<lambda>_. EEventf m reason msg)),
     kNow = call (\<lambda>h. aNow A h) ENow,
     kIsNotFound = aIsNotFound A,
     kKeyString = aKeyString A,
     kRefString = aRefString A\<rparr>"

definition rec_bmc :: "'c answers \<Rightarrow> ('c trace, 'c) bmclib" where
  "rec_bmc A = \<lparr>
     Close = (\<lambda>c. call (\<lambda>h. aClose A h c) (EClose c)),
     GetPowerState = (\<lambda>c. call (\<lambda>h. aGetPower A h c) (EGetPower c)),
     SetPowerState = (\<lambda>c s. call (\<lambda>h. aSetPower A h c s) (ESetPower c s)),
     SetBootDevice = (\<lambda>c d p e. call (\<lambda>h. aSetBoot A h c d p e) (ESetBoot c d p e)),
     SetVirtualMedia = (\<lambda>c k u. call (\<lambda>h. aSetMedia A h c k u) (ESetMedia c k u))\<rparr>"

definition rec_factory :: "'c answers \<Rightarrow> ('c trace, 'c) ClientFunc" where
  "rec_factory A = (\<lambda>host user pass opts.
     call (\<lambda>h. aOpen A h host user pass opts) (EOpen host user pass opts))"

definition rec_dial :: "'c answers \<Rightarrow> ('c trace, 'c) bmcdial" where
  "rec_dial A = \<lparr>
     NewClient = (\<lambda>host user pass opts.
       call (\<lambda>h. aDial A h host user pass opts) (EDial host user pass opts)),
     PreferDriver = (\<lambda>c order. call (\<lambda>h. ()) (\<lambda>_. EPrefer c order)),
     Open = (\<lambda>c timeout. call (\<lambda>h. aDialOpen A h c timeout) (EDialOpen c timeout))\<rparr>"

lemmas rec_simps = rec_kube_def rec_bmc_def rec_factory_def rec_dial_def

text \<open>One reconciliation of each controller from an empty history: its outcome and its trace.\<close>

definition machine_run :: "'c answers \<Rightarrow> NamespacedName \<Rightarrow> outcome \<times> 'c trace" where
  "machine_run A req =
     run_state (machine_Reconcile (rec_kube A) (rec_bmc A) (rec_factory A) req) []"

definition task_run :: "'c answers \<Rightarrow> NamespacedName \<Rightarrow> outcome \<times> 'c trace" where
  "task_run A req =
     run_state (task_Reconcile (rec_kube A) (rec_bmc A) (rec_factory A) req) []"

definition job_run :: "'c answers \<Rightarrow> NamespacedName \<Rightarrow> outcome \<times> 'c trace" where
  "job_run A req = run_state (job_Reconcile (rec_kube A) req) []"

text \<open>One call of the client factory.\<close>

definition dial_run ::
  "convlib \<Rightarrow> 'c answers \<Rightarrow> duration \<Rightarrow> string \<Rightarrow> string \<Rightarrow> string \<Rightarrow> BMCOptions option \<Rightarrow>
    (goerr + 'c) \<times> 'c trace" where
  "dial_run L A timeout host user pass opts =
     run_state (NewClientFunc L (rec_dial A) timeout host user pass opts) []"

end
