(* ===== verification/Trace_Rules.thy ===== *)
theory Trace_Rules
  imports Call_Traces "HOL-Library.Sublist"
begin

text \<open>
  What the facts on the controllers look at in a trace, and one rule per controller that
  takes a reconciliation apart into its paths: the lookup, the early returns, the
  credentials, the connection, the body.  The facts themselves are in the theories
  \<open>Machine_Traces\<close>, \<open>Task_Traces\<close> and \<open>Job_Traces\<close>.
\<close>

section \<open>Observations\<close>

text \<open>Status patches with their base and answer, Tasks created, and calls that change a BMC.\<close>

definition machine_patches :: "'c trace \<Rightarrow> (Machine \<times> Machine \<times> apierror option) list" where
  "machine_patches h = [(m, b, r). EPatchMachine m b r \<leftarrow> h]"

definition task_patches :: "'c trace \<Rightarrow> (Task \<times> Task \<times> apierror option) list" where
  "task_patches h = [(t, b, r). EPatchTask t b r \<leftarrow> h]"

definition job_patches :: "'c trace \<Rightarrow> (Job \<times> Job \<times> apierror option) list" where
  "job_patches h = [(j, b, r). EPatchJob j b r \<leftarrow> h]"

definition created_tasks :: "'c trace \<Rightarrow> (Task \<times> apierror option) list" where
  "created_tasks h = [(t, r). ECreateTask t r \<leftarrow> h]"

definition power_reads :: "'c trace \<Rightarrow> (goerr + string) list" where
  "power_reads h = [r. EGetPower c r \<leftarrow> h]"

definition open_errors :: "'c trace \<Rightarrow> goerr list" where
  "open_errors h = [e. EOpen host u p opts (Inl e) \<leftarrow> h]"

definition clock_reads :: "'c trace \<Rightarrow> time list" where
  "clock_reads h = [t. ENow t \<leftarrow> h]"

datatype bmc_write = PowerWrite string | BootWrite string bool bool | MediaWrite string string

definition bmc_writes :: "'c trace \<Rightarrow> bmc_write list" where
  "bmc_writes h = concat (map (\<lambda>e. case e of
     ESetPower c s r \<Rightarrow> [PowerWrite s]
   | ESetBoot c d p efi r \<Rightarrow> [BootWrite d p efi]
   | ESetMedia c k u r \<Rightarrow> [MediaWrite k u]
   | _ \<Rightarrow> []) h)"

lemmas observation_defs = machine_patches_def task_patches_def job_patches_def created_tasks_def
  power_reads_def open_errors_def clock_reads_def bmc_writes_def

text \<open>
  The protocol of a BMC connection: opened at most once, used only while open, through the
  handle it was opened with, and closed once.
\<close>

datatype 'c session = NotOpened | Opened 'c | Closed | Misused

fun use_session :: "'c session \<Rightarrow> 'c \<Rightarrow> 'c session" where
  "use_session (Opened d) c = (if c = d then Opened d else Misused)"
| "use_session s c = Misused"

definition session_step :: "'c session \<Rightarrow> 'c event \<Rightarrow> 'c session" where
  "session_step s e = (case e of
     EOpen host u p opts r \<Rightarrow> (case s of
         NotOpened \<Rightarrow> (case r of Inl err \<Rightarrow> NotOpened | Inr c \<Rightarrow> Opened c)
       | _ \<Rightarrow> Misused)
   | EClose c r \<Rightarrow> (if s = Opened c then Closed else Misused)
   | EGetPower c r \<Rightarrow> use_session s c
   | ESetPower c p r \<Rightarrow> use_session s c
   | ESetBoot c d p efi r \<Rightarrow> use_session s c
   | ESetMedia c k u r \<Rightarrow> use_session s c
   | _ \<Rightarrow> s)"

definition session :: "'c trace \<Rightarrow> 'c session" where
  "session h = foldl session_step NotOpened h"

lemma session_snoc: "session (h @ [e]) = session_step (session h) e"
  by (simp add: session_def)

definition connected :: "'c trace \<Rightarrow> bool" where
  "connected h \<longleftrightarrow> list_ex (\<lambda>e. case e of EOpen host u p opts (Inr c) \<Rightarrow> True | _ \<Rightarrow> False) h"

definition tried_bmc :: "'c trace \<Rightarrow> bool" where
  "tried_bmc h \<longleftrightarrow> list_ex (\<lambda>e. case e of EOpen host u p opts r \<Rightarrow> True | _ \<Rightarrow> False) h"

lemma tried_bmc_append [simp]: "tried_bmc (g @ h) \<longleftrightarrow> tried_bmc g \<or> tried_bmc h"
  by (simp add: tried_bmc_def)

lemma tried_bmc_Cons [simp]:
  "tried_bmc (e # h) \<longleftrightarrow> (case e of EOpen host u p opts r \<Rightarrow> True | _ \<Rightarrow> False) \<or> tried_bmc h"
  by (simp add: tried_bmc_def)

section \<open>Reads of Secrets\<close>

definition secret_reads :: "'c trace \<Rightarrow> bool" where
  "secret_reads h \<longleftrightarrow> list_all (\<lambda>e. case e of EGetSecret k r \<Rightarrow> True | _ \<Rightarrow> False) h"

lemma secret_reads_Nil [simp]: "secret_reads []"
  by (simp add: secret_reads_def)

lemma secret_reads_Cons [simp]: "secret_reads (EGetSecret k r # h) \<longleftrightarrow> secret_reads h"
  by (simp add: secret_reads_def)

lemma secret_reads_elim:
  assumes "secret_reads h" and "e \<in> set h" obtains k r where "e = EGetSecret k r"
  using assms by (cases e) (auto simp: secret_reads_def list_all_iff)

text \<open>They are invisible to every observation.\<close>

lemma secret_reads_not_tried [simp]: "secret_reads h \<Longrightarrow> \<not> tried_bmc h"
  by (auto simp: tried_bmc_def list_ex_iff elim: secret_reads_elim)

lemma observe_secret_reads [simp]:
  assumes "secret_reads h"
  shows "machine_patches h = []" and "task_patches h = []" and "job_patches h = []"
    and "created_tasks h = []" and "power_reads h = []" and "clock_reads h = []" and "open_errors h = []"
    and "bmc_writes h = []" and "foldl session_step s h = s" and "connected h = False"
proof -
  have *: "secret_reads h \<Longrightarrow> machine_patches h = [] \<and> task_patches h = [] \<and> job_patches h = [] \<and>
      created_tasks h = [] \<and> power_reads h = [] \<and> clock_reads h = [] \<and> open_errors h = [] \<and> bmc_writes h = [] \<and>
      (\<forall>s. foldl session_step s h = s) \<and> connected h = False" for h :: "'a trace"
  proof (induction h)
    case Nil
    then show ?case by (simp add: observation_defs connected_def)
  next
    case (Cons e h)
    then obtain k r where "e = EGetSecret k r" by (auto elim: secret_reads_elim)
    with Cons show ?case
      by (simp add: observation_defs session_step_def connected_def)
  qed
  show "machine_patches h = []" "task_patches h = []" "job_patches h = []"
    "created_tasks h = []" "power_reads h = []" "clock_reads h = []" "open_errors h = []"
    "bmc_writes h = []" "foldl session_step s h = s" "connected h = False"
    using * [OF assms] by blast+
qed

lemma observe_append [simp]:
  "machine_patches (g @ h) = machine_patches g @ machine_patches h"
  "task_patches (g @ h) = task_patches g @ task_patches h"
  "job_patches (g @ h) = job_patches g @ job_patches h"
  "created_tasks (g @ h) = created_tasks g @ created_tasks h"
  "power_reads (g @ h) = power_reads g @ power_reads h"
  "clock_reads (g @ h) = clock_reads g @ clock_reads h"
  "open_errors (g @ h) = open_errors g @ open_errors h"
  "bmc_writes (g @ h) = bmc_writes g @ bmc_writes h"
  "connected (g @ h) \<longleftrightarrow> connected g \<or> connected h"
  by (simp_all add: observation_defs connected_def)

lemma observe_Nil [simp]:
  "machine_patches [] = []" "task_patches [] = []" "job_patches [] = []" "created_tasks [] = []"
  "power_reads [] = []" "clock_reads [] = []" "open_errors [] = []" "bmc_writes [] = []" "connected [] = False"
  by (simp_all add: observation_defs connected_def)

lemma observe_Cons [simp]:
  "machine_patches (e # h) = (case e of EPatchMachine m b r \<Rightarrow> [(m, b, r)] | _ \<Rightarrow> []) @ machine_patches h"
  "task_patches (e # h) = (case e of EPatchTask t b' r' \<Rightarrow> [(t, b', r')] | _ \<Rightarrow> []) @ task_patches h"
  "job_patches (e # h) = (case e of EPatchJob j b'' r'' \<Rightarrow> [(j, b'', r'')] | _ \<Rightarrow> []) @ job_patches h"
  "created_tasks (e # h) = (case e of ECreateTask t' c \<Rightarrow> [(t', c)] | _ \<Rightarrow> []) @ created_tasks h"
  "power_reads (e # h) = (case e of EGetPower d p \<Rightarrow> [p] | _ \<Rightarrow> []) @ power_reads h"
  "clock_reads (e # h) = (case e of ENow n \<Rightarrow> [n] | _ \<Rightarrow> []) @ clock_reads h"
  "open_errors (e # h) = (case e of EOpen host u pw opts (Inl err) \<Rightarrow> [err] | _ \<Rightarrow> []) @ open_errors h"
  "bmc_writes (e # h) = (case e of
     ESetPower c s r \<Rightarrow> [PowerWrite s]
   | ESetBoot c d p efi r \<Rightarrow> [BootWrite d p efi]
   | ESetMedia c k u r \<Rightarrow> [MediaWrite k u]
   | _ \<Rightarrow> []) @ bmc_writes h"
  "connected (e # h) \<longleftrightarrow>
     (case e of EOpen host u p opts (Inr c) \<Rightarrow> True | _ \<Rightarrow> False) \<or> connected h"
  by (simp_all add: observation_defs connected_def split: event.split sum.split)

section \<open>The operations of the recording world\<close>

lemma wp_recorded [wp_simps]:
  "wp (kGetMachine (rec_kube A) k) Q1 h \<longleftrightarrow> (let r = aGetMachine A h k in Q1 r (h @ [EGetMachine k r]))"
  "wp (kGetJob (rec_kube A) k) Q2 h \<longleftrightarrow> (let r = aGetJob A h k in Q2 r (h @ [EGetJob k r]))"
  "wp (kGetTask (rec_kube A) k) Q3 h \<longleftrightarrow> (let r = aGetTask A h k in Q3 r (h @ [EGetTask k r]))"
  "wp (kGetSecret (rec_kube A) k) Q4 h \<longleftrightarrow> (let r = aGetSecret A h k in Q4 r (h @ [EGetSecret k r]))"
  "wp (kListTasks (rec_kube A) n ns) Q5 h \<longleftrightarrow> (let r = aListTasks A h n ns in Q5 r (h @ [EListTasks n ns r]))"
  "wp (kCreateTask (rec_kube A) t) Q6 h \<longleftrightarrow> (let r = aCreateTask A h t in Q6 r (h @ [ECreateTask t r]))"
  "wp (kPatchMachine (rec_kube A) m mb) Q6 h \<longleftrightarrow> (let r = aPatchMachine A h m in Q6 r (h @ [EPatchMachine m mb r]))"
  "wp (kPatchJob (rec_kube A) j jb) Q6 h \<longleftrightarrow> (let r = aPatchJob A h j in Q6 r (h @ [EPatchJob j jb r]))"
  "wp (kPatchTask (rec_kube A) t tb) Q6 h \<longleftrightarrow> (let r = aPatchTask A h t in Q6 r (h @ [EPatchTask t tb r]))"
  "wp (kEventf (rec_kube A) m s1 s2) Q7 h \<longleftrightarrow> Q7 () (h @ [EEventf m s1 s2])"
  "wp (kNow (rec_kube A)) Q8 h \<longleftrightarrow> (let r = aNow A h in Q8 r (h @ [ENow r]))"
  "wp (Close (rec_bmc A) c) Q9 h \<longleftrightarrow> (let r = aClose A h c in Q9 r (h @ [EClose c r]))"
  "wp (GetPowerState (rec_bmc A) c) Q10 h \<longleftrightarrow> (let r = aGetPower A h c in Q10 r (h @ [EGetPower c r]))"
  "wp (SetPowerState (rec_bmc A) c p) Q11 h \<longleftrightarrow> (let r = aSetPower A h c p in Q11 r (h @ [ESetPower c p r]))"
  "wp (SetBootDevice (rec_bmc A) c d b e) Q11 h \<longleftrightarrow> (let r = aSetBoot A h c d b e in Q11 r (h @ [ESetBoot c d b e r]))"
  "wp (SetVirtualMedia (rec_bmc A) c k' u) Q11 h \<longleftrightarrow> (let r = aSetMedia A h c k' u in Q11 r (h @ [ESetMedia c k' u r]))"
  "wp (rec_factory A host user pass opts) Q12 h \<longleftrightarrow>
     (let r = aOpen A h host user pass opts in Q12 r (h @ [EOpen host user pass opts r]))"
  by (simp_all add: rec_simps wp_call Let_def)

lemma wp_deferred_close [wp_simps]:
  "wp (deferred_close (rec_bmc A) c m) Q h \<longleftrightarrow> wp m (\<lambda>out h. Q out (h @ [EClose c (aClose A h c)])) h"
  by (simp add: deferred_close_def wp_def rec_bmc_def call_def case_prod_beta)

lemma recorded_pure [simp]:
  "kIsNotFound (rec_kube A) = aIsNotFound A" "kKeyString (rec_kube A) = aKeyString A"
  "kRefString (rec_kube A) = aRefString A"
  by (simp_all add: rec_kube_def)

text \<open>A trace with one creation, or with one patch of a Job, is split by it in one way.\<close>

lemma split_at_creation:
  assumes eq: "d @ ECreateTask t c # r = pre @ ECreateTask t' c' # post"
    and one: "created_tasks pre = []" "created_tasks post = []"
  shows "d = pre \<and> t = t' \<and> c = c'"
proof -
  have "created_tasks (d @ ECreateTask t c # r) = [(t', c')]"
    unfolding eq using one by simp
  then have "created_tasks d = []" by (cases "created_tasks d") auto
  then show ?thesis
    using split_first [OF eq, of "\<lambda>e. created_tasks [e] \<noteq> []"] one(1)
    by (simp add: created_tasks_def)
qed

lemma split_at_job_patch:
  assumes eq: "d @ EPatchJob j b c # r = pre @ EPatchJob j' b' c' # post"
    and one: "job_patches pre = []" "job_patches post = []"
  shows "d = pre \<and> j = j' \<and> b = b' \<and> c = c'"
proof -
  have "job_patches (d @ EPatchJob j b c # r) = [(j', b', c')]"
    unfolding eq using one by simp
  then have "job_patches d = []" by (cases "job_patches d") auto
  then show ?thesis
    using split_first [OF eq, of "\<lambda>e. job_patches [e] \<noteq> []"] one(1)
    by (simp add: job_patches_def)
qed

lemma wp_retrieve_refs:
  assumes "\<And>r es. secret_reads es \<Longrightarrow> Q r (h @ es)"
  shows "wp (retrieve_refs (rec_kube A) k ss sec) Q h"
  using assms
proof (induction ss arbitrary: sec h)
  case Nil
  then show ?case using Nil [of "[]"] by (simp add: wp_simps)
next
  case (Cons s ss)
  have "Q r ((h @ [EGetSecret (secret_key s) x]) @ es)" if "secret_reads es" for r x es
    using Cons.prems [of "EGetSecret (secret_key s) x # es" r] that by simp
  moreover have "Q r (h @ [EGetSecret (secret_key s) x])" for r x
    using Cons.prems [of "[EGetSecret (secret_key s) x]" r] by simp
  ultimately show ?case
    using Cons.IH by (simp add: wp_simps Let_def split: sum.split)
qed

lemma wp_retrieve_algorithms:
  assumes "\<And>r es. secret_reads es \<Longrightarrow> Q r (h @ es)"
  shows "wp (retrieve_algorithms (rec_kube A) kvs sec) Q h"
  using assms
proof (induction kvs arbitrary: sec h)
  case Nil
  then show ?case using Nil [of "[]"] by (simp add: wp_simps)
next
  case (Cons kv kvs)
  obtain k ss where kv: "kv = (k, ss)" by (cases kv)
  have "Q r ((h @ es) @ es')" if "secret_reads es" "secret_reads es'" for r es es'
    using Cons.prems [of "es @ es'" r] that by (simp add: secret_reads_def)
  then show ?case
    using kv Cons.prems by (auto simp: wp_simps intro!: wp_retrieve_refs Cons.IH split: sum.split)
qed

lemma wp_connection_credentials:
  assumes "\<And>r es. secret_reads es \<Longrightarrow> Q r (h @ es)"
  shows "wp (connection_credentials (rec_kube A) conn txt) Q h"
proof -
  have "wp (retrieveHMACSecrets (rec_kube A) kvs) Q' h"
    if "\<And>r es. secret_reads es \<Longrightarrow> Q' r (h @ es)" for kvs Q'
    unfolding retrieveHMACSecrets_def using that by (rule wp_retrieve_algorithms)
  moreover have "Q r h" for r using assms [of "[]"] by simp
  moreover have "Q r (h @ [EGetSecret k x])" for r k x using assms [of "[EGetSecret k x]"] by simp
  ultimately show ?thesis
    using assms
    by (simp add: connection_credentials_def resolveAuthSecretRef_def wp_simps Let_def
        split: option.split sum.split)
qed

end
