(* ===== verification/Machine_Traces.thy ===== *)
theory Machine_Traces
  imports Trace_Rules
begin

text \<open>
  What one reconciliation of a Machine does, whatever the outside world answers: its paths
  (the relation \<open>machine_path\<close>), and the facts read off them on the BMC connection, the status
  it reports, and the requeue.
\<close>

section \<open>The paths of a reconciliation\<close>

definition machine_deleted :: "Machine \<Rightarrow> bool" where
  "machine_deleted m \<longleftrightarrow> \<not> Time_IsZero (om_DeletionTimestamp (machine_ObjectMeta m))"

text \<open>The status a reconciliation reports: the power state, and the condition \<open>Contactable\<close>.\<close>

definition machine_reported :: "Machine \<Rightarrow> time \<Rightarrow> PowerState \<Rightarrow> ConditionStatus \<Rightarrow> string \<Rightarrow> Machine" where
  "machine_reported m now p st msg =
     Machine_SetCondition now (machine_set_power m p) Contactable st [WithMachineConditionMessage msg]"

definition machine_patch_error :: "Machine \<Rightarrow> apierror \<Rightarrow> goerr" where
  "machine_patch_error m e =
     Wrap (''failed to patch Machine '' @ om_Namespace (machine_ObjectMeta m) @ ''/'' @
       om_Name (machine_ObjectMeta m) @ '' status: '') (Api e)"

text \<open>The outcome after the patch: the errors are listed in the order the code gives.\<close>

definition report_outcome :: "apierror option \<Rightarrow> (apierror \<Rightarrow> goerr list) \<Rightarrow> outcome" where
  "report_outcome r errs = (case r of
     Some e \<Rightarrow> Return zero_Result (Some (Aggregate (errs e)))
   | None \<Rightarrow> Return (requeue_after machineRequeueInterval) None)"

definition power_read_error :: "goerr \<Rightarrow> goerr" where
  "power_read_error err = Wrap ''get power state: '' err"

definition machine_open ::
  "NamespacedName \<Rightarrow> Machine \<Rightarrow> 'c trace \<Rightarrow> string \<Rightarrow> string \<Rightarrow> BMCOptions option \<Rightarrow> goerr + 'c \<Rightarrow> 'c trace" where
  "machine_open req m es user pass opts conn =
     EGetMachine req (Inr m) # es @ [EOpen (machine_host m) user pass opts conn]"

inductive machine_path ::
  "NamespacedName \<Rightarrow> apierror + Machine \<Rightarrow> outcome \<Rightarrow> 'c trace \<Rightarrow> bool"
  for req :: NamespacedName and got :: "apierror + Machine" where
  gone: "got = Inl err \<Longrightarrow> machine_path req got (Return zero_Result None) [EGetMachine req (Inl err)]"
| unread: "got = Inl err \<Longrightarrow>
    machine_path req got (Return zero_Result (Some (One (Api err)))) [EGetMachine req (Inl err)]"
| inert: "got = Inr m \<Longrightarrow> machine_deleted m \<Longrightarrow>
    machine_path req got (Return zero_Result None) [EGetMachine req (Inr m)]"
| refused: "got = Inr m \<Longrightarrow> \<not> machine_deleted m \<Longrightarrow> secret_reads es \<Longrightarrow>
    machine_path req got (Return zero_Result (Some (One e))) (EGetMachine req (Inr m) # es)"
| unreachable: "got = Inr m \<Longrightarrow> \<not> machine_deleted m \<Longrightarrow> secret_reads es \<Longrightarrow>
    m' = machine_reported m now Unknown ConditionFalse (Error err) \<Longrightarrow>
    machine_path req got (report_outcome r (\<lambda>e. [machine_patch_error m' e, err]))
      (machine_open req m es user pass opts (Inl err) @ [ENow now, EPatchMachine m' m r])"
| no_power: "got = Inr m \<Longrightarrow> \<not> machine_deleted m \<Longrightarrow> secret_reads es \<Longrightarrow>
    err' = power_read_error err \<Longrightarrow>
    m' = machine_reported m now Unknown ConditionFalse (Error err') \<Longrightarrow>
    machine_path req got (report_outcome r (\<lambda>e. [err', machine_patch_error m' e]))
      (machine_open req m es user pass opts (Inr c) @
       [EGetPower c (Inl err), EEventf (machine_set_power m Unknown) ''GetPowerStateFailed'' (Error err'),
        ENow now, EPatchMachine m' m r, EClose c x])"
| power: "got = Inr m \<Longrightarrow> \<not> machine_deleted m \<Longrightarrow> secret_reads es \<Longrightarrow>
    m' = machine_reported m now (toPowerState raw) ConditionTrue [] \<Longrightarrow>
    machine_path req got (report_outcome r (\<lambda>e. [machine_patch_error m' e]))
      (machine_open req m es user pass opts (Inr c) @
       [EGetPower c (Inr raw), ENow now, EPatchMachine m' m r, EClose c x])"

lemma set_power_set_condition:
  "machine_set_power (Machine_SetCondition now m ty st opts) p =
    Machine_SetCondition now (machine_set_power m p) ty st opts"
  by (simp add: Machine_SetCondition_slot machine_set_power_def)

lemma machine_status_keep [simp]:
  "machine_Spec (machine_set_power m p) = machine_Spec m"
  "machine_ObjectMeta (machine_set_power m p) = machine_ObjectMeta m"
  "machine_Spec (Machine_SetCondition now m ty st opts) = machine_Spec m"
  "machine_ObjectMeta (Machine_SetCondition now m ty st opts) = machine_ObjectMeta m"
  "machine_Spec (machine_reported m now p st msg) = machine_Spec m"
  "machine_ObjectMeta (machine_reported m now p st msg) = machine_ObjectMeta m"
  by (simp_all add: machine_set_power_def Machine_SetCondition_slot machine_reported_def)

lemma wp_machine_patchStatus:
  "wp (machine_patchStatus (rec_kube A) m base) Q h \<longleftrightarrow>
    (let r = aPatchMachine A h m in Q (map_option (machine_patch_error m) r) (h @ [EPatchMachine m base r]))"
  by (simp add: machine_patchStatus_def wp_simps Let_def machine_patch_error_def [abs_def])

lemma report_outcome_simps [simp]:
  "report_outcome (Some e) errs = Return zero_Result (Some (Aggregate (errs e)))"
  "report_outcome None errs = Return (requeue_after machineRequeueInterval) None"
  by (simp_all add: report_outcome_def)

lemma wp_machine_unreachable:
  "wp (machine_unreachable (rec_kube A) m base err) Q h \<longleftrightarrow>
    (let now = aNow A h; m' = machine_reported m now Unknown ConditionFalse (Error err);
         r = aPatchMachine A (h @ [ENow now]) m'
     in Q (report_outcome r (\<lambda>e. [machine_patch_error m' e, err])) (h @ [ENow now, EPatchMachine m' base r]))"
  by (auto simp: machine_unreachable_def wp_simps wp_machine_patchStatus Let_def set_power_set_condition
      simp flip: machine_reported_def split: option.split)

lemma wp_machine_report:
  "wp (machine_report (rec_kube A) (rec_bmc A) m base c) Q h \<longleftrightarrow>
    (case aGetPower A h c of
       Inl err \<Rightarrow> (let err' = power_read_error err;
           h' = h @ [EGetPower c (Inl err),
             EEventf (machine_set_power m Unknown) ''GetPowerStateFailed'' (Error err')];
           now = aNow A h'; m' = machine_reported m now Unknown ConditionFalse (Error err');
           r = aPatchMachine A (h' @ [ENow now]) m'
         in Q (report_outcome r (\<lambda>e. [err', machine_patch_error m' e])) (h' @ [ENow now, EPatchMachine m' base r]))
     | Inr raw \<Rightarrow> (let h' = h @ [EGetPower c (Inr raw)];
           now = aNow A h'; m' = machine_reported m now (toPowerState raw) ConditionTrue [];
           r = aPatchMachine A (h' @ [ENow now]) m'
         in Q (report_outcome r (\<lambda>e. [machine_patch_error m' e])) (h' @ [ENow now, EPatchMachine m' base r])))"
  by (auto simp: machine_report_def updatePowerState_def wp_simps wp_machine_patchStatus Let_def
      power_read_error_def simp flip: machine_reported_def split: option.split sum.split)

lemma machine_run_path:
  "machine_path req (aGetMachine A [] req) (fst (machine_run A req)) (snd (machine_run A req))"
proof -
  let ?got = "aGetMachine A [] req"
  have live: "wp (machine_doReconcile (rec_kube A) (rec_bmc A) (rec_factory A) m m)
      (machine_path req ?got) [EGetMachine req (Inr m)]"
    if m: "?got = Inr m" "\<not> machine_deleted m" for m
    unfolding machine_doReconcile_def wp_bind
  proof (rule wp_connection_credentials, goal_cases)
    case (1 r es)
    note rest = machine_path.intros(5-7) [OF m 1, unfolded machine_open_def]
    show ?case
      using machine_path.refused [OF m 1]
      by (cases r) (auto simp: wp_simps Let_def wp_machine_unreachable wp_machine_report
          intro!: rest [simplified] split: sum.split)
  qed
  have "wp (machine_Reconcile (rec_kube A) (rec_bmc A) (rec_factory A) req) (machine_path req ?got) []"
  proof (cases ?got)
    case (Inl err)
    then show ?thesis
      by (auto simp: machine_Reconcile_def wp_simps Let_def intro: machine_path.gone machine_path.unread)
  next
    case (Inr m)
    then show ?thesis
      using live [OF Inr] machine_path.inert [OF Inr, of req]
      by (auto simp: machine_Reconcile_def wp_simps Let_def machine_deleted_def)
  qed
  then show ?thesis by (simp add: machine_run_def wp_def)
qed

section \<open>Facts on a reconciliation\<close>

lemma observe_machine_open [simp]:
  "secret_reads es \<Longrightarrow> machine_patches (machine_open req m es user pass opts conn) = []"
  "secret_reads es \<Longrightarrow> bmc_writes (machine_open req m es user pass opts conn) = []"
  "secret_reads es \<Longrightarrow> created_tasks (machine_open req m es user pass opts conn) = []"
  "secret_reads es \<Longrightarrow> task_patches (machine_open req m es user pass opts conn) = []"
  "secret_reads es \<Longrightarrow> job_patches (machine_open req m es user pass opts conn) = []"
  "secret_reads es \<Longrightarrow> power_reads (machine_open req m es user pass opts conn) = []"
  "secret_reads es \<Longrightarrow> clock_reads (machine_open req m es user pass opts conn) = []"
  "secret_reads es \<Longrightarrow> connected (machine_open req m es user pass opts conn) = (\<not> isl conn)"
  "secret_reads es \<Longrightarrow> tried_bmc (machine_open req m es user pass opts conn)"
  "secret_reads es \<Longrightarrow> open_errors (machine_open req m es user pass opts conn) =
    (case conn of Inl err \<Rightarrow> [err] | Inr c \<Rightarrow> [])"
  "secret_reads es \<Longrightarrow> foldl session_step NotOpened (machine_open req m es user pass opts conn) =
    (case conn of Inl e \<Rightarrow> NotOpened | Inr c \<Rightarrow> Opened c)"
  "hd (machine_open req m es user pass opts conn @ h) = EGetMachine req (Inr m)"
  by (simp_all add: machine_open_def session_step_def split: sum.split)

text \<open>C16. A reconciliation of a Machine opens at most one BMC connection, uses it only while it is
  open and through the handle it got, and closes it exactly once, on every path; it never writes to
  the BMC, creates nothing and patches no Task or Job.\<close>

theorem machine_only_observes:
  "session (snd (machine_run A req)) = (if connected (snd (machine_run A req)) then Closed else NotOpened) \<and>
   bmc_writes (snd (machine_run A req)) = [] \<and> created_tasks (snd (machine_run A req)) = [] \<and>
   task_patches (snd (machine_run A req)) = [] \<and> job_patches (snd (machine_run A req)) = []"
  using machine_run_path [of req A]
  by (cases rule: machine_path.cases) (auto simp: session_def session_step_def)

text \<open>What the BMC's answers in a trace amount to: power state, status and message of \<open>Contactable\<close>.\<close>

definition verdict :: "'c trace \<Rightarrow> PowerState \<times> ConditionStatus \<times> string" where
  "verdict h = (case (open_errors h, power_reads h) of
     (err # _, _) \<Rightarrow> (Unknown, ConditionFalse, Error err)
   | ([], Inl err # _) \<Rightarrow> (Unknown, ConditionFalse, ''get power state: '' @ Error err)
   | ([], Inr raw # _) \<Rightarrow> (toPowerState raw, ConditionTrue, [])
   | ([], []) \<Rightarrow> (Unknown, [], []))"

lemma machine_reported_status:
  "ms_Power (machine_Status (machine_reported m now p st msg)) = p \<and>
   find (\<lambda>c. mc_Type c = Contactable) (machine_conds (machine_reported m now p st msg)) =
     Some \<lparr>mc_Type = Contactable, mc_Status = st,
       mc_LastUpdateTime = (case find (\<lambda>c. mc_Type c = Contactable) (machine_conds m) of
          Some c \<Rightarrow> if mc_Status c = st then mc_LastUpdateTime c else now
        | None \<Rightarrow> if st = [] then 0 else now),
       mc_Message = msg\<rparr> \<and>
   filter (\<lambda>c. mc_Type c \<noteq> Contactable) (machine_conds (machine_reported m now p st msg)) =
     filter (\<lambda>c. mc_Type c \<noteq> Contactable) (machine_conds m)"
  by (simp add: machine_reported_def Machine_SetCondition_found Machine_SetCondition_others)
    (simp add: Machine_SetCondition_slot machine_set_power_def)

text \<open>C8. Once the credentials are resolved a reconciliation patches the status exactly once, from the
  Machine it read, leaving metadata and spec alone: the power state and the condition \<open>Contactable\<close>
  are what the BMC's answers amount to, Unknown and False with the error's text when it cannot be reached
  or read; the other conditions are kept.  Without credentials, and for a Machine that is gone or being
  deleted, nothing is patched.\<close>

theorem machine_reports_bmc:
  "case machine_patches (snd (machine_run A req)) of
     [] \<Rightarrow> \<not> tried_bmc (snd (machine_run A req))
   | [(m, base, r)] \<Rightarrow> tried_bmc (snd (machine_run A req)) \<and> aGetMachine A [] req = Inr base \<and>
       machine_ObjectMeta m = machine_ObjectMeta base \<and> machine_Spec m = machine_Spec base \<and>
       ms_Power (machine_Status m) = fst (verdict (snd (machine_run A req))) \<and>
       map_option (\<lambda>c. (mc_Status c, mc_Message c)) (find (\<lambda>c. mc_Type c = Contactable) (machine_conds m)) =
         Some (snd (verdict (snd (machine_run A req)))) \<and>
       filter (\<lambda>c. mc_Type c \<noteq> Contactable) (machine_conds m) =
         filter (\<lambda>c. mc_Type c \<noteq> Contactable) (machine_conds base)
   | _ \<Rightarrow> False"
  using machine_run_path [of req A]
  by (cases rule: machine_path.cases)
    (auto simp: machine_reported_status verdict_def power_read_error_def)

text \<open>C17. A reconciliation asks to be called again exactly when it patched the status and the patch
  was accepted, after three minutes, also while the BMC cannot be reached or its power state not be read (the comment on
  \<open>machineRequeueInterval\<close> wants it used only when the power state was retrieved); a rejected patch is an
  error, aggregated with the error that the BMC gave.\<close>

theorem machine_requeues:
  "case machine_patches (snd (machine_run A req)) of
     [(m, base, None)] \<Rightarrow> fst (machine_run A req) = Return (requeue_after (3 * Minute)) None
   | [(m, base, Some e)] \<Rightarrow> (\<exists>errs. fst (machine_run A req) = Return zero_Result (Some (Aggregate errs)) \<and>
       machine_patch_error m e \<in> set errs \<and>
       length errs = (if snd (verdict (snd (machine_run A req))) = (ConditionTrue, []) then 1 else 2))
   | _ \<Rightarrow> \<exists>e. fst (machine_run A req) = Return zero_Result e"
  using machine_run_path [of req A]
  by (cases rule: machine_path.cases)
    (auto simp: verdict_def machineRequeueInterval_def split: option.splits)

text \<open>C25. Reporting is idempotent: reporting the same answers again, at any later time, changes nothing,
  the time of the last change included.  A Machine in a steady state gets empty patches.\<close>

theorem machine_report_idempotent:
  "machine_reported (machine_reported m now p st msg) now' p st msg = machine_reported m now p st msg"
  by (simp add: machine_reported_def set_power_set_condition Machine_SetCondition_idem)
    (simp add: machine_set_power_def)

end
