(* ===== verification/Phases.thy ===== *)
theory Phases
  imports Main
begin

text \<open>
  The life of a Task or a Job as its status shows it, and the moves of a Task: an abstract
  state machine with a linear order on its states, in which every move goes up.
\<close>

section \<open>Phases\<close>

text \<open>
  The phases, with a linear order.
\<close>

datatype phase = Pending | Running | Succeeded | Failed

fun phase_rank :: "phase \<Rightarrow> nat" where
  "phase_rank Pending = 0"
| "phase_rank Running = 1"
| "phase_rank Succeeded = 2"
| "phase_rank Failed = 3"

instantiation phase :: linorder
begin

definition less_eq_phase :: "phase \<Rightarrow> phase \<Rightarrow> bool" where
  "less_eq_phase p q \<longleftrightarrow> phase_rank p \<le> phase_rank q"

definition less_phase :: "phase \<Rightarrow> phase \<Rightarrow> bool" where
  "less_phase p q \<longleftrightarrow> phase_rank p < phase_rank q"

instance
proof
  fix p q :: phase
  show "p \<le> q \<Longrightarrow> q \<le> p \<Longrightarrow> p = q"
    by (cases p; cases q) (simp_all add: less_eq_phase_def)
qed (auto simp: less_eq_phase_def less_phase_def)

end

section \<open>Moves\<close>

text \<open>The moves a Task makes.\<close>

inductive phase_step :: "phase \<Rightarrow> phase \<Rightarrow> bool" where
  start: "phase_step Pending Running"
| reject: "phase_step Pending Failed"
| succeed: "phase_step Running Succeeded"
| give_up: "phase_step Running Failed"

inductive_simps phase_step_simps: "phase_step p q"

lemma phase_step_up: "phase_step p q \<Longrightarrow> p < q"
  by (induction rule: phase_step.induct) (simp_all add: less_phase_def)

end
