(* ===== verification/Task_Traces.thy ===== *)
theory Task_Traces
  imports Trace_Rules Phases
begin

text \<open>
  What one reconciliation of a Task does, whatever the outside world answers.  The relation
  \<open>task_path\<close> lists its paths as pairs of an outcome and a trace of calls; \<open>task_run_path\<close>
  shows that the handler follows them, and the facts on connections, phases, actions, time-outs
  and panics are read off the paths.
\<close>

section \<open>What a Task asks of its BMC\<close>

text \<open>The writes of an action, in order, up to an empty device list.\<close>

definition empty_devices :: "Action \<Rightarrow> bool" where
  "empty_devices a \<longleftrightarrow> (case act_OneTimeBootDeviceAction a of None \<Rightarrow> False | Some b \<Rightarrow> bda_Devices b = [])"

definition power_writes :: "Action \<Rightarrow> bmc_write list" where
  "power_writes a = (case act_PowerAction a of None \<Rightarrow> [] | Some p \<Rightarrow> [PowerWrite p])"

definition boot_writes :: "Action \<Rightarrow> bmc_write list" where
  "boot_writes a = (case act_OneTimeBootDeviceAction a of None \<Rightarrow> []
     | Some b \<Rightarrow> (case bda_Devices b of [] \<Rightarrow> [] | d # _ \<Rightarrow> [BootWrite d False (bda_EFIBoot b)]))"

definition media_writes :: "Action \<Rightarrow> bmc_write list" where
  "media_writes a = (case act_VirtualMediaAction a of None \<Rightarrow> []
     | Some v \<Rightarrow> [MediaWrite (vma_Kind v) (vma_MediaURL v)])"

definition planned_writes :: "Action \<Rightarrow> bmc_write list" where
  "planned_writes a = power_writes a @ (if empty_devices a then [] else boot_writes a @ media_writes a)"

definition write_on :: "'c \<Rightarrow> 'c event \<Rightarrow> bool" where
  "write_on c e \<longleftrightarrow> (case e of ESetPower d p r \<Rightarrow> d = c | ESetBoot d b p efi r \<Rightarrow> d = c
     | ESetMedia d k u r \<Rightarrow> d = c | _ \<Rightarrow> False)"

text \<open>The traces of \<open>runTask\<close>, with its result.\<close>

definition acted :: "'c \<Rightarrow> Action \<Rightarrow> step_result \<Rightarrow> 'c trace \<Rightarrow> bool" where
  "acted c a r ws \<longleftrightarrow> list_all (write_on c) ws \<and> prefix (bmc_writes ws) (planned_writes a) \<and>
     (case r of
        StepOk \<Rightarrow> bmc_writes ws = planned_writes a \<and> \<not> empty_devices a
      | StepErr e \<Rightarrow> ws \<noteq> []
      | StepPanic m \<Rightarrow> bmc_writes ws = planned_writes a \<and> empty_devices a)"

lemma write_on_cases:
  assumes "write_on c e"
  obtains p r where "e = ESetPower c p r" | b p efi r where "e = ESetBoot c b p efi r"
    | k u r where "e = ESetMedia c k u r"
  using assms by (cases e) (auto simp: write_on_def)

lemma observe_writes [simp]:
  assumes "list_all (write_on c) ws"
  shows "machine_patches ws = []" and "task_patches ws = []" and "job_patches ws = []"
    and "created_tasks ws = []" and "power_reads ws = []" and "clock_reads ws = []"
    and "foldl session_step (Opened c) ws = Opened c" and "connected ws = False"
proof -
  have *: "list_all (write_on c) ws \<Longrightarrow> machine_patches ws = [] \<and> task_patches ws = [] \<and>
      job_patches ws = [] \<and> created_tasks ws = [] \<and> power_reads ws = [] \<and> clock_reads ws = [] \<and>
      foldl session_step (Opened c) ws = Opened c \<and> connected ws = False" for ws
  proof (induction ws)
    case Nil
    then show ?case by simp
  next
    case (Cons e ws)
    then have "write_on c e" by simp
    then show ?case using Cons by (cases rule: write_on_cases) (simp_all add: session_step_def)
  qed
  show "machine_patches ws = []" "task_patches ws = []" "job_patches ws = []"
    "created_tasks ws = []" "power_reads ws = []" "clock_reads ws = []"
    "foldl session_step (Opened c) ws = Opened c" "connected ws = False"
    using * [OF assms] by blast+
qed

lemma wp_runTask:
  assumes "\<And>r ws. acted c a r ws \<Longrightarrow> Q r (h @ ws)"
  shows "wp (runTask (rec_bmc A) a c) Q h"
  unfolding runTask_def and_then_def run_power_def run_boot_device_def run_virtual_media_def
  by (auto simp: wp_simps Let_def split: option.split sum.split list.split
      intro!: assms [of _ "[]", simplified] assms [of _ "[_]", simplified] assms [of _ "[_, _]", simplified]
        assms [of _ "[_, _, _]", simplified])
     (auto simp: acted_def write_on_def planned_writes_def power_writes_def boot_writes_def media_writes_def
        empty_devices_def)

section \<open>The paths of a reconciliation\<close>

definition task_deleted :: "Task \<Rightarrow> bool" where
  "task_deleted t \<longleftrightarrow> \<not> Time_IsZero (om_DeletionTimestamp (task_ObjectMeta t))"

definition task_finished :: "Task \<Rightarrow> bool" where
  "task_finished t \<longleftrightarrow>
     Task_HasCondition t TaskFailed ConditionTrue \<or> Task_HasCondition t TaskCompleted ConditionTrue"

definition mark_failed :: "Task \<Rightarrow> string \<Rightarrow> Task" where
  "mark_failed t msg = Task_SetCondition t TaskFailed ConditionTrue [WithTaskConditionMessage msg]"

definition mark_completed :: "Task \<Rightarrow> time \<Rightarrow> Task" where
  "mark_completed t now = Task_SetCondition (task_set_completion t now) TaskCompleted ConditionTrue []"

definition task_patch_error :: "Task \<Rightarrow> apierror \<Rightarrow> goerr" where
  "task_patch_error t e =
     Wrap (''failed to patch Task '' @ task_Namespace t @ ''/'' @ task_Name t @ '' status: '') (Api e)"

text \<open>The outcome of a reconciliation that patched the status, after an error and after none.\<close>

definition failure_outcome :: "Task \<Rightarrow> goerr \<Rightarrow> apierror option \<Rightarrow> outcome" where
  "failure_outcome t err r = Return zero_Result (Some (case r of
     Some e \<Rightarrow> Aggregate [task_patch_error t e, err] | None \<Rightarrow> One err))"

definition success_outcome :: "Task \<Rightarrow> apierror option \<Rightarrow> outcome" where
  "success_outcome t r = Return zero_Result (map_option (\<lambda>e. One (task_patch_error t e)) r)"

text \<open>
  A Task that is read alive, and what happened until the connection was tried.  The clock
  \<open>clk\<close> answers by the history.
\<close>

definition upto_open :: "NamespacedName \<Rightarrow> Task \<Rightarrow> 'c trace \<Rightarrow> string \<Rightarrow> string \<Rightarrow> BMCOptions option \<Rightarrow>
    goerr + 'c \<Rightarrow> 'c trace" where
  "upto_open req t es user pass opts conn =
     EGetTask req (Inr t) # es @ [EOpen (cn_Host (task_conn t)) user pass opts conn]"

text \<open>The power reads of a check after which the Task is completed.\<close>

definition settled :: "'c \<Rightarrow> Action \<Rightarrow> 'c trace \<Rightarrow> bool" where
  "settled c a reads \<longleftrightarrow> (case act_PowerAction a of
     None \<Rightarrow> reads = []
   | Some p \<Rightarrow> \<exists>raw. reads = [EGetPower c (Inr raw)] \<and> power_check p raw = zero_Result)"

lemma settled_observe [simp]:
  assumes "settled c a reads"
  shows "task_patches reads = []" and "bmc_writes reads = []" and "clock_reads reads = []"
    and "foldl session_step (Opened c) reads = Opened c" and "connected reads = False"
  using assms by (auto simp: settled_def session_step_def split: option.splits)

inductive task_path ::
  "('c trace \<Rightarrow> time) \<Rightarrow> NamespacedName \<Rightarrow> apierror + Task \<Rightarrow> outcome \<Rightarrow> 'c trace \<Rightarrow> bool"
  for clk :: "'c trace \<Rightarrow> time" and req :: NamespacedName and got :: "apierror + Task" where
  gone: "got = Inl err \<Longrightarrow> task_path clk req got (Return zero_Result None) [EGetTask req (Inl err)]"
| unread: "got = Inl err \<Longrightarrow>
    task_path clk req got (Return zero_Result (Some (One (Api err)))) [EGetTask req (Inl err)]"
| inert: "got = Inr t \<Longrightarrow> task_deleted t \<or> task_finished t \<Longrightarrow>
    task_path clk req got (Return zero_Result None) [EGetTask req (Inr t)]"
| refused: "got = Inr t \<Longrightarrow> \<not> task_deleted t \<Longrightarrow> \<not> task_finished t \<Longrightarrow> secret_reads es \<Longrightarrow>
    task_path clk req got (Return zero_Result (Some (One e))) (EGetTask req (Inr t) # es)"
| unreachable: "got = Inr t \<Longrightarrow> \<not> task_deleted t \<Longrightarrow> \<not> task_finished t \<Longrightarrow> secret_reads es \<Longrightarrow>
    t' = mark_failed t (''Failed to connect to BMC: '' @ Error err) \<Longrightarrow>
    task_path clk req got (failure_outcome t' err r)
      (upto_open req t es user pass opts (Inl err) @ [EPatchTask t' t r])"
| started: "got = Inr t \<Longrightarrow> \<not> task_deleted t \<Longrightarrow> \<not> task_finished t \<Longrightarrow> \<not> task_started t \<Longrightarrow> secret_reads es \<Longrightarrow>
    pre = upto_open req t es user pass opts (Inr c) \<Longrightarrow> now = clk pre \<Longrightarrow>
    acted c (task_action t) StepOk ws \<Longrightarrow> t' = task_set_start t now \<Longrightarrow>
    task_path clk req got (success_outcome t' r) (pre @ ENow now # ws @ [EPatchTask t' t r, EClose c x])"
| start_failed: "got = Inr t \<Longrightarrow> \<not> task_deleted t \<Longrightarrow> \<not> task_finished t \<Longrightarrow> \<not> task_started t \<Longrightarrow> secret_reads es \<Longrightarrow>
    pre = upto_open req t es user pass opts (Inr c) \<Longrightarrow> now = clk pre \<Longrightarrow>
    acted c (task_action t) (StepErr err) ws \<Longrightarrow> t' = mark_failed (task_set_start t now) (Error err) \<Longrightarrow>
    task_path clk req got (failure_outcome t' err r) (pre @ ENow now # ws @ [EPatchTask t' t r, EClose c x])"
| start_panicked: "got = Inr t \<Longrightarrow> \<not> task_deleted t \<Longrightarrow> \<not> task_finished t \<Longrightarrow> \<not> task_started t \<Longrightarrow> secret_reads es \<Longrightarrow>
    pre = upto_open req t es user pass opts (Inr c) \<Longrightarrow> now = clk pre \<Longrightarrow>
    acted c (task_action t) (StepPanic m) ws \<Longrightarrow>
    task_path clk req got (Panic m) (pre @ ENow now # ws @ [EClose c x])"
| timed_out: "got = Inr t \<Longrightarrow> \<not> task_deleted t \<Longrightarrow> \<not> task_finished t \<Longrightarrow> secret_reads es \<Longrightarrow>
    ts_StartTime (task_Status t) = Some start \<Longrightarrow> start \<noteq> 0 \<Longrightarrow>
    pre = upto_open req t es user pass opts (Inr c) \<Longrightarrow> now = clk pre \<Longrightarrow>
    task_timeout \<le> Since now start \<Longrightarrow> err = timeout_error (Since now start) \<Longrightarrow>
    t' = mark_failed t (Error err) \<Longrightarrow>
    task_path clk req got (failure_outcome t' err r) (pre @ [ENow now, EPatchTask t' t r, EClose c x])"
| unreadable: "got = Inr t \<Longrightarrow> \<not> task_deleted t \<Longrightarrow> \<not> task_finished t \<Longrightarrow> secret_reads es \<Longrightarrow>
    ts_StartTime (task_Status t) = Some start \<Longrightarrow> start \<noteq> 0 \<Longrightarrow>
    pre = upto_open req t es user pass opts (Inr c) \<Longrightarrow> now = clk pre \<Longrightarrow>
    Since now start < task_timeout \<Longrightarrow> act_PowerAction (task_action t) = Some p \<Longrightarrow>
    task_path clk req got
      (Return zero_Result (Some (One (Wrap ''bmc task status check: '' (Wrap ''failed to get power state: '' e)))))
      (pre @ [ENow now, EGetPower c (Inl e), EClose c x])"
| waiting: "got = Inr t \<Longrightarrow> \<not> task_deleted t \<Longrightarrow> \<not> task_finished t \<Longrightarrow> secret_reads es \<Longrightarrow>
    ts_StartTime (task_Status t) = Some start \<Longrightarrow> start \<noteq> 0 \<Longrightarrow>
    pre = upto_open req t es user pass opts (Inr c) \<Longrightarrow> now = clk pre \<Longrightarrow>
    Since now start < task_timeout \<Longrightarrow> act_PowerAction (task_action t) = Some p \<Longrightarrow>
    power_check p raw \<noteq> zero_Result \<Longrightarrow>
    task_path clk req got (Return (power_check p raw) None)
      (pre @ [ENow now, EGetPower c (Inr raw), EClose c x])"
| completed: "got = Inr t \<Longrightarrow> \<not> task_deleted t \<Longrightarrow> \<not> task_finished t \<Longrightarrow> secret_reads es \<Longrightarrow>
    ts_StartTime (task_Status t) = Some start \<Longrightarrow> start \<noteq> 0 \<Longrightarrow>
    pre = upto_open req t es user pass opts (Inr c) \<Longrightarrow> now = clk pre \<Longrightarrow>
    Since now start < task_timeout \<Longrightarrow>
    settled c (task_action t) reads \<Longrightarrow>
    fin = clk (pre @ ENow now # reads) \<Longrightarrow> t' = mark_completed t fin \<Longrightarrow>
    task_path clk req got (success_outcome t' r)
      (pre @ ENow now # reads @ [ENow fin, EPatchTask t' t r, EClose c x])"

lemma task_status_keep [simp]:
  "task_Spec (task_set_start t n) = task_Spec t" "task_Spec (task_set_completion t n) = task_Spec t"
  "task_Spec (Task_SetCondition t ty st opts) = task_Spec t"
  "task_ObjectMeta (task_set_start t n) = task_ObjectMeta t"
  "task_ObjectMeta (task_set_completion t n) = task_ObjectMeta t"
  "task_ObjectMeta (Task_SetCondition t ty st opts) = task_ObjectMeta t"
  by (simp_all add: task_set_start_def task_set_completion_def Task_SetCondition_slot)

lemma wp_task_patchStatus:
  "wp (task_patchStatus (rec_kube A) t base) Q h \<longleftrightarrow>
    (let r = aPatchTask A h t in Q (map_option (task_patch_error t) r) (h @ [EPatchTask t base r]))"
  by (simp add: task_patchStatus_def wp_simps Let_def task_patch_error_def [abs_def])

lemma wp_task_fail:
  "wp (task_fail (rec_kube A) t base msg err) Q h \<longleftrightarrow>
    (let t' = mark_failed t msg; r = aPatchTask A h t' in
     Q (failure_outcome t' err r) (h @ [EPatchTask t' base r]))"
  by (auto simp: task_fail_def wp_task_patchStatus wp_simps Let_def mark_failed_def failure_outcome_def
      split: option.split)

lemma wp_task_complete:
  "wp (task_complete (rec_kube A) t base zero_Result) Q h \<longleftrightarrow>
    (let fin = aNow A h; t' = mark_completed t fin; r = aPatchTask A (h @ [ENow fin]) t' in
     Q (success_outcome t' r) (h @ [ENow fin, EPatchTask t' base r]))"
  by (simp add: task_complete_def wp_task_patchStatus wp_simps Let_def mark_completed_def
      success_outcome_def option.map_comp comp_def)

lemma wp_task_start:
  assumes "got = Inr t" "\<not> task_deleted t" "\<not> task_finished t" "\<not> task_started t" "secret_reads es"
    and "pre = upto_open req t es user pass opts (Inr c)"
  shows "wp (task_start (rec_kube A) (rec_bmc A) t t c)
    (\<lambda>out h. task_path (aNow A) req got out (h @ [EClose c (aClose A h c)])) pre"
  unfolding task_start_def
  by (auto simp: wp_simps Let_def wp_task_fail wp_task_patchStatus option.map_comp comp_def
      simp flip: success_outcome_def
      intro!: wp_runTask task_path.intros(6-8) [OF assms] split: step_result.split)

lemma wp_task_check:
  assumes "got = Inr t" "\<not> task_deleted t" "\<not> task_finished t" "secret_reads es"
    and "ts_StartTime (task_Status t) = Some start" "start \<noteq> 0"
    and "pre = upto_open req t es user pass opts (Inr c)"
  shows "wp (task_check (rec_kube A) (rec_bmc A) t t start c)
    (\<lambda>out h. task_path (aNow A) req got out (h @ [EClose c (aClose A h c)])) pre"
proof -
  let ?now = "aNow A pre"
  let ?P = "\<lambda>out h. task_path (aNow A) req got out (h @ [EClose c (aClose A h c)])"
  have complete: "wp (task_complete (rec_kube A) t t zero_Result) ?P (pre @ ENow ?now # reads)"
    if "Since ?now start < task_timeout" and "settled c (task_action t) reads" for reads
    using task_path.completed [where clk = "aNow A", OF assms refl that refl refl] by (simp add: wp_task_complete Let_def)
  show ?thesis
  proof (cases "task_timeout \<le> Since ?now start")
    case True
    then show ?thesis
      using task_path.timed_out [where clk = "aNow A", OF assms refl True refl refl]
      by (simp add: task_check_def wp_simps Let_def wp_task_fail)
  next
    case False
    then have early: "Since ?now start < task_timeout" by simp
    show ?thesis
    proof (cases "act_PowerAction (task_action t)")
      case None
      then show ?thesis
        using False complete [OF early, of "[]"]
        by (simp add: task_check_def wp_simps Let_def checkTaskStatus_def Result_IsZero_def settled_def)
    next
      case (Some p)
      let ?r = "aGetPower A (pre @ [ENow ?now]) c"
      show ?thesis
      proof (cases ?r)
        case (Inl e)
        then show ?thesis
          using False Some task_path.unreadable [where clk = "aNow A", OF assms refl early Some, of e]
          by (simp add: task_check_def wp_simps Let_def checkTaskStatus_def)
      next
        case (Inr raw)
        then show ?thesis
          using False Some task_path.waiting [where clk = "aNow A", OF assms refl early Some, of raw]
            complete [OF early, of "[EGetPower c (Inr raw)]"]
          by (cases "power_check p raw = zero_Result")
            (simp_all add: task_check_def wp_simps Let_def checkTaskStatus_def Result_IsZero_def settled_def)
      qed
    qed
  qed
qed

lemma wp_task_body:
  assumes "got = Inr t" "\<not> task_deleted t" "\<not> task_finished t" "secret_reads es"
    and "pre = upto_open req t es user pass opts (Inr c)"
  shows "wp (task_body (rec_kube A) (rec_bmc A) t t c)
    (\<lambda>out h. task_path (aNow A) req got out (h @ [EClose c (aClose A h c)])) pre"
  using wp_task_check [OF assms(1-4) _ _ assms(5)] wp_task_start [OF assms(1-3) _ assms(4,5)]
  by (auto simp: task_body_def Time_IsZero_def split: option.split)

lemma task_run_path:
  "task_path (aNow A) req (aGetTask A [] req) (fst (task_run A req)) (snd (task_run A req))"
proof -
  let ?got = "aGetTask A [] req"
  have live: "wp (task_doReconcile (rec_kube A) (rec_bmc A) (rec_factory A) t t)
      (task_path (aNow A) req ?got) [EGetTask req (Inr t)]"
    if t: "?got = Inr t" "\<not> task_deleted t" "\<not> task_finished t" for t
    unfolding task_doReconcile_def wp_bind
  proof (rule wp_connection_credentials, goal_cases)
    case (1 r es)
    note body = wp_task_body [OF t 1 refl, unfolded upto_open_def]
    note unreach = task_path.unreachable [OF t 1 refl, unfolded upto_open_def]
    show ?case
      using task_path.refused [OF t 1] body unreach
      by (cases r) (auto simp: wp_simps Let_def wp_task_fail split: sum.split)
  qed
  have "wp (task_Reconcile (rec_kube A) (rec_bmc A) (rec_factory A) req) (task_path (aNow A) req ?got) []"
  proof (cases ?got)
    case (Inl err)
    then show ?thesis
      using task_path.gone [OF Inl, of "aNow A" req] task_path.unread [OF Inl, of "aNow A" req]
      by (simp add: task_Reconcile_def wp_simps Let_def)
  next
    case (Inr t)
    show ?thesis
    proof (cases "task_deleted t \<or> task_finished t")
      case True
      then show ?thesis
        using Inr task_path.inert [OF Inr True, of "aNow A" req]
        by (auto simp: task_Reconcile_def wp_simps Let_def task_deleted_def task_finished_def)
    next
      case False
      then show ?thesis
        using Inr live [OF Inr]
        by (auto simp: task_Reconcile_def wp_simps Let_def task_deleted_def task_finished_def)
    qed
  qed
  then show ?thesis by (simp add: task_run_def wp_def)
qed

section \<open>Phases of a Task\<close>

definition task_phase :: "Task \<Rightarrow> phase" where
  "task_phase t =
     (if Task_HasCondition t TaskFailed ConditionTrue then Failed
      else if Task_HasCondition t TaskCompleted ConditionTrue then Succeeded
      else if task_started t then Running else Pending)"

lemma task_phase_live:
  "\<not> task_finished t \<Longrightarrow> task_phase t = (if task_started t then Running else Pending)"
  by (simp add: task_phase_def task_finished_def)


lemma has_condition_status: "Task_HasCondition (task_set_start t n) = Task_HasCondition t"
  "Task_HasCondition (task_set_completion t n) = Task_HasCondition t"
  by (rule tq.has_cong; simp add: task_set_start_def task_set_completion_def)+

lemma has_condition_update:
  "Task_HasCondition (Task_SetCondition t ty st (map WithTaskConditionMessage ms)) ty' st' \<longleftrightarrow>
    (if ty' = ty then st' = st else Task_HasCondition t ty' st')"
  by (rule tq.has_set [OF task_messages_keep])

lemmas has_condition_updates = has_condition_status has_condition_update [of _ _ _ "[]", simplified]
  has_condition_update [of _ _ _ "[m]" for m, simplified]

lemma phase_mark_failed [simp]: "task_phase (mark_failed t m) = Failed"
  by (simp add: task_phase_def mark_failed_def has_condition_updates)

lemma phase_mark_completed [simp]:
  "\<not> task_finished t \<Longrightarrow> task_phase (mark_completed t n) = Succeeded"
  by (simp add: task_phase_def mark_completed_def has_condition_updates task_finished_def)

lemma phase_set_start [simp]:
  "\<not> task_finished t \<Longrightarrow> n \<noteq> 0 \<Longrightarrow> task_phase (task_set_start t n) = Running"
  by (simp add: task_phase_def has_condition_updates task_finished_def) (simp add: task_set_start_def Time_IsZero_def)

lemma marked_keep [simp]:
  "task_Spec (mark_failed t m) = task_Spec t" "task_ObjectMeta (mark_failed t m) = task_ObjectMeta t"
  "task_Spec (mark_completed t n) = task_Spec t" "task_ObjectMeta (mark_completed t n) = task_ObjectMeta t"
  by (simp_all add: mark_failed_def mark_completed_def)

lemma observe_upto_open [simp]:
  "secret_reads es \<Longrightarrow> task_patches (upto_open req t es user pass opts conn) = []"
  "secret_reads es \<Longrightarrow> bmc_writes (upto_open req t es user pass opts conn) = []"
  "secret_reads es \<Longrightarrow> power_reads (upto_open req t es user pass opts conn) = []"
  "secret_reads es \<Longrightarrow> clock_reads (upto_open req t es user pass opts conn) = []"
  "secret_reads es \<Longrightarrow> connected (upto_open req t es user pass opts conn) = (\<not> isl conn)"
  "secret_reads es \<Longrightarrow> foldl session_step NotOpened (upto_open req t es user pass opts conn) =
    (case conn of Inl e \<Rightarrow> NotOpened | Inr c \<Rightarrow> Opened c)"
  "hd (upto_open req t es user pass opts conn @ h) = EGetTask req (Inr t)"
  by (simp_all add: upto_open_def session_step_def split: sum.split)

lemma acted_observe [simp]:
  assumes "acted c a r ws"
  shows "task_patches ws = []" and "power_reads ws = []" and "clock_reads ws = []"
    and "foldl session_step (Opened c) ws = Opened c" and "connected ws = False"
  using assms observe_writes [of c ws] by (simp_all add: acted_def)

text \<open>What happened before the status was patched.\<close>

definition before_patch :: "'c trace \<Rightarrow> 'c trace" where
  "before_patch h = takeWhile (\<lambda>e. task_patches [e] = []) h"

lemma before_patch_append: "task_patches g = [] \<Longrightarrow> before_patch (g @ h) = g @ before_patch h"
proof (induction g)
  case (Cons e g)
  then have "task_patches [e] = []" "task_patches g = []"
    by (metis append_Cons append_Nil append_is_Nil_conv observe_append(2))+
  then show ?case using Cons.IH by (simp add: before_patch_def del: observe_Cons)
qed simp

lemma before_patch_events [simp]:
  "before_patch (ENow n # h) = ENow n # before_patch h" "before_patch (EPatchTask t b r # h) = []"
  "before_patch [] = []"
  by (simp_all add: before_patch_def)


lemma task_completion_marks [simp]:
  "ts_CompletionTime (task_Status (mark_completed t n)) = Some n"
  "ts_CompletionTime (task_Status (mark_failed t m)) = ts_CompletionTime (task_Status t)"
  "ts_CompletionTime (task_Status (task_set_start t n)) = ts_CompletionTime (task_Status t)"
  by (simp_all add: mark_completed_def mark_failed_def task_set_completion_def task_set_start_def
      Task_SetCondition_slot)

lemma started_not_succeeded [simp]: "\<not> task_finished t \<Longrightarrow> task_phase (task_set_start t n) \<noteq> Succeeded"
  by (simp add: task_phase_def has_condition_updates task_finished_def)

lemma power_check_settled:
  "power_check p raw = zero_Result \<longleftrightarrow> (p = PowerOn \<longrightarrow> toPowerState raw = On) \<and>
     (p = PowerHardOff \<or> p = PowerSoftOff \<longrightarrow> toPowerState raw = Off)"
  using requeue_after_zero [of powerActionRequeueAfter]
  by (auto simp: power_check_def Let_def powerActionRequeueAfter_def Second_def
      PowerOn_def PowerHardOff_def PowerSoftOff_def simp del: requeue_after_zero)

section \<open>Facts on a reconciliation\<close>

text \<open>C7. A reconciliation opens at most one BMC connection, uses it only while it is open and
  through the handle it got, and closes it exactly once, on every path: errors, time-outs and panics
  included.  At the end there is no open connection.\<close>

theorem task_session_closed:
  "session (snd (task_run A req)) = (if connected (snd (task_run A req)) then Closed else NotOpened)"
  using task_run_path [of A req]
  by (cases rule: task_path.cases)
    (auto simp: session_def session_step_def split: option.splits)

text \<open>C6. A reconciliation patches the status at most once, always from the Task it read, changes
  neither metadata nor spec, and moves the Task along one edge of the phase machine: Pending to
  Running or Failed, Running to Succeeded or Failed.\<close>

theorem task_patch_phases:
  assumes "\<And>h. aNow A h \<noteq> 0"
  shows "case task_patches (snd (task_run A req)) of
      [] \<Rightarrow> True
    | [(t, base, r)] \<Rightarrow> hd (snd (task_run A req)) = EGetTask req (Inr base) \<and>
        phase_step (task_phase base) (task_phase t) \<and>
        task_ObjectMeta t = task_ObjectMeta base \<and> task_Spec t = task_Spec base
    | _ \<Rightarrow> False"
  using task_run_path [of A req]
  by (cases rule: task_path.cases)
    (auto simp: assms phase_step_simps task_phase_live Time_IsZero_def split: option.splits)

text \<open>
  A world for the examples: it knows one Task and one Secret, the clock stands, every call
  succeeds, the BMC reports a fixed power state.
\<close>

definition steady_world :: "Task \<Rightarrow> time \<Rightarrow> string \<Rightarrow> string answers" where
  "steady_world t now raw = \<lparr>
     aGetMachine = (\<lambda>h k. Inl \<lparr>ae_Reason = ''NotFound'', ae_Message = []\<rparr>),
     aGetJob = (\<lambda>h k. Inl \<lparr>ae_Reason = ''NotFound'', ae_Message = []\<rparr>),
     aGetTask = (\<lambda>h k. Inr t),
     aGetSecret = (\<lambda>h k. Inr \<lparr>secret_Data = [''username'' \<mapsto> ''u'', ''password'' \<mapsto> ''p'']\<rparr>),
     aListTasks = (\<lambda>h n ns. Inr []),
     aCreateTask = (\<lambda>h t. None),
     aPatchMachine = (\<lambda>h m. None),
     aPatchJob = (\<lambda>h j. None),
     aPatchTask = (\<lambda>h t. None),
     aNow = (\<lambda>h. now),
     aIsNotFound = (\<lambda>e. ae_Reason e = ''NotFound''),
     aKeyString = (\<lambda>k. nn_Namespace k @ ''/'' @ nn_Name k),
     aRefString = (\<lambda>s. sr_Namespace s @ ''/'' @ sr_Name s),
     aOpen = (\<lambda>h host u p opts. Inr host),
     aDial = (\<lambda>h host u p opts. host),
     aDialOpen = (\<lambda>h c d. None),
     aClose = (\<lambda>h c. None),
     aGetPower = (\<lambda>h c. Inr raw),
     aSetPower = (\<lambda>h c s. Inr True),
     aSetBoot = (\<lambda>h c d p e. Inr True),
     aSetMedia = (\<lambda>h c k u. Inr True)\<rparr>"

definition power_task :: "PowerAction \<Rightarrow> BootDevice list \<Rightarrow> time option \<Rightarrow> Task" where
  "power_task p devices start = blank_task
     \<lparr>task_Spec := \<lparr>tsp_Task = \<lparr>act_PowerAction = Some p,
        act_OneTimeBootDeviceAction = Some \<lparr>bda_Devices = devices, bda_EFIBoot = True\<rparr>,
        act_VirtualMediaAction = None\<rparr>,
        tsp_Connection = empty_Connection\<lparr>cn_Host := ''bmc''\<rparr>\<rparr>,
      task_Status := empty_TaskStatus\<lparr>ts_StartTime := start\<rparr>\<rparr>"

theorem task_patch_phases_witness:
  "\<exists>t base r. task_patches (snd (task_run (steady_world (power_task PowerOn [PXE] None) 7 ''off'') (nn [] []))) =
     [(t, base, r)] \<and> phase_step (task_phase base) (task_phase t)"
proof -
  let ?A = "steady_world (power_task PowerOn [PXE] None) 7 ''off''"
  have "task_patches (snd (task_run ?A (nn [] []))) \<noteq> []" by code_simp
  then show ?thesis
    using task_patch_phases [of ?A "nn [] []"] by (auto simp: steady_world_def split: list.splits prod.splits)
qed

text \<open>C12. The BMC is written to only for a Task that is Pending when read.  The writes are the power
  action, the first boot device and the virtual media, in this order, cut off at the first error;
  when the Task is patched to Running, all of them were made before the patch.\<close>

theorem task_writes_in_order:
  assumes "bmc_writes (snd (task_run A req)) \<noteq> []"
  shows "\<exists>t. hd (snd (task_run A req)) = EGetTask req (Inr t) \<and> \<not> task_deleted t \<and> task_phase t = Pending \<and>
    prefix (bmc_writes (snd (task_run A req))) (planned_writes (task_action t)) \<and>
    (\<forall>(t', base, r) \<in> set (task_patches (snd (task_run A req))). task_phase t' = Running \<longrightarrow>
      bmc_writes (before_patch (snd (task_run A req))) =
        planned_writes (task_action t))"
  using task_run_path [of A req] assms
  by (cases rule: task_path.cases)
    (auto simp: task_phase_live acted_def before_patch_append Time_IsZero_def dest: observe_writes)

theorem task_writes_in_order_witness:
  "\<exists>t. task_phase t = Pending \<and>
    prefix [PowerWrite ''on'', BootWrite ''pxe'' False True] (planned_writes (task_action t))"
proof -
  let ?A = "steady_world (power_task PowerOn [PXE, Disk] None) 7 ''off''"
  have w: "bmc_writes (snd (task_run ?A (nn [] []))) = [PowerWrite ''on'', BootWrite ''pxe'' False True]"
    by code_simp
  then have "bmc_writes (snd (task_run ?A (nn [] []))) \<noteq> []" by simp
  from task_writes_in_order [OF this] w show ?thesis by auto
qed

text \<open>C11. A Task is patched to Completed only while it is Running and before ten minutes have passed
  since its start; its completion time is then the current time, and for a power action on, off or soft
  the BMC was read and reported the wanted state.  No other patch touches the completion time.\<close>

theorem task_completion:
  assumes "(t, base, r) \<in> set (task_patches (snd (task_run A req)))"
  shows "if task_phase t = Succeeded
    then \<exists>start. ts_StartTime (task_Status base) = Some start \<and> start \<noteq> 0 \<and>
      Since (hd (clock_reads (snd (task_run A req)))) start < task_timeout \<and>
      ts_CompletionTime (task_Status t) = Some (last (clock_reads (snd (task_run A req)))) \<and>
      (case act_PowerAction (task_action base) of
         None \<Rightarrow> power_reads (snd (task_run A req)) = []
       | Some p \<Rightarrow> \<exists>raw. power_reads (snd (task_run A req)) = [Inr raw] \<and>
           (p = PowerOn \<longrightarrow> toPowerState raw = On) \<and>
           (p = PowerHardOff \<or> p = PowerSoftOff \<longrightarrow> toPowerState raw = Off))
    else ts_CompletionTime (task_Status t) = ts_CompletionTime (task_Status base)"
  using task_run_path [of A req] assms
  by (cases rule: task_path.cases)
    (auto simp: power_check_settled settled_def split: option.splits)

theorem task_completion_witness:
  "\<exists>t base r start. task_patches (snd (task_run (steady_world (power_task PowerOn [] (Some 5)) 7 ''ON'') (nn [] []))) =
      [(t, base, r)] \<and> task_phase t = Succeeded \<and> ts_StartTime (task_Status base) = Some start \<and>
    Since (hd (clock_reads (snd (task_run (steady_world (power_task PowerOn [] (Some 5)) 7 ''ON'') (nn [] []))))) start
      < task_timeout"
proof -
  let ?h = "snd (task_run (steady_world (power_task PowerOn [] (Some 5)) 7 ''ON'') (nn [] []))"
  have "map (\<lambda>(t, b, r). task_phase t) (task_patches ?h) = [Succeeded]" by code_simp
  then obtain t base r where h: "task_patches ?h = [(t, base, r)]" and t: "task_phase t = Succeeded" by auto
  then have "(t, base, r) \<in> set (task_patches ?h)" by simp
  from task_completion [OF this] h t show ?thesis by auto
qed



text \<open>C18. A reconciliation panics only on an action with an empty list of boot devices, on a Pending
  Task.  The power action has then been carried out, but the status is not patched: the Task stays
  Pending, and the next reconciliation does the same again.\<close>

theorem task_panics:
  assumes "fst (task_run A req) = Panic m"
  shows "\<exists>t. hd (snd (task_run A req)) = EGetTask req (Inr t) \<and> task_phase t = Pending \<and>
    empty_devices (task_action t) \<and> bmc_writes (snd (task_run A req)) = power_writes (task_action t) \<and>
    task_patches (snd (task_run A req)) = []"
  using task_run_path [of A req] assms
  by (cases rule: task_path.cases)
    (auto simp: task_phase_live acted_def planned_writes_def failure_outcome_def success_outcome_def
      dest: observe_writes)

theorem task_panics_witness:
  "\<exists>t. empty_devices (task_action t) \<and>
    bmc_writes (snd (task_run (steady_world (power_task PowerOn [] None) 7 ''off'') (nn [] []))) =
      power_writes (task_action t)"
proof -
  let ?A = "steady_world (power_task PowerOn [] None) 7 ''off''"
  have "fst (task_run ?A (nn [] [])) = Panic ''runtime error: index out of range [0] with length 0''"
    by code_simp
  from task_panics [OF this] show ?thesis by blast
qed

text \<open>C23. A Task that is deleted or finished, or not found, is left alone: the lookup is the only call
  and the outcome is the empty result without an error.\<close>

theorem task_left_alone:
  assumes "case aGetTask A [] req of Inl err \<Rightarrow> aIsNotFound A err | Inr t \<Rightarrow> task_deleted t \<or> task_finished t"
  shows "task_run A req = (Return zero_Result None, [EGetTask req (aGetTask A [] req)])"
  using assms
  by (cases "aGetTask A [] req")
    (auto simp: task_run_def task_Reconcile_def task_deleted_def task_finished_def rec_kube_def call_def)

theorem task_left_alone_witness:
  "fst (task_run (steady_world (mark_failed (power_task PowerOn [] None) ''x'') 7 ''off'') (nn [] [])) =
     Return zero_Result None"
proof -
  let ?t = "mark_failed (power_task PowerOn [] None) ''x''"
  have "task_finished ?t" by code_simp
  then have "case aGetTask (steady_world ?t 7 ''off'') [] (nn [] []) of Inl err \<Rightarrow> aIsNotFound (steady_world ?t 7 ''off'') err
    | Inr t \<Rightarrow> task_deleted t \<or> task_finished t"
    by (simp add: steady_world_def)
  from task_left_alone [OF this] show ?thesis by simp
qed



end
