(* ===== verification/Job_Traces.thy ===== *)
theory Job_Traces
  imports Trace_Rules Phases
begin

text \<open>
  What one reconciliation of a Job does, whatever the outside world answers: the decision it
  takes on the listed Tasks as a pure function, its paths (the relation \<open>job_path\<close>), and the
  facts read off them on the Tasks it creates, its status patches and its panics.
\<close>

section \<open>The decision\<close>

text \<open>
  A reference for the scan: the first Task that is not Completed decides; when there is none,
  their number does.
\<close>

abbreviation is_completed :: "Task \<Rightarrow> bool" where
  "is_completed t \<equiv> Task_HasCondition t TaskCompleted ConditionTrue"

abbreviation is_failed :: "Task \<Rightarrow> bool" where
  "is_failed t \<equiv> Task_HasCondition t TaskFailed ConditionTrue"

datatype decision = Finish | GiveUp Task | Wait | Launch nat | Crash

definition decide :: "Task list \<Rightarrow> nat \<Rightarrow> decision" where
  "decide tasks wanted = (case find (\<lambda>t. \<not> is_completed t) tasks of
     Some t \<Rightarrow> if is_failed t then GiveUp t else Wait
   | None \<Rightarrow> if length tasks = wanted then Finish
          else if length tasks < wanted then Launch (length tasks) else Crash)"

lemma scan_tasks_find:
  "scan_tasks n tasks = (case find (\<lambda>t. \<not> is_completed t) tasks of
     Some t \<Rightarrow> if is_failed t then ScanFailed t else ScanPending
   | None \<Rightarrow> ScanDone (n + length tasks))"
  by (induction tasks arbitrary: n) (auto split: option.split)

lemma find_open_None: "find (\<lambda>t. \<not> is_completed t) tasks = None \<longleftrightarrow> list_all is_completed tasks"
  by (simp add: find_None_all list_all_iff)

lemma decide_simps:
  "decide tasks w = Finish \<longleftrightarrow> list_all is_completed tasks \<and> length tasks = w"
  "decide tasks w = Launch k \<longleftrightarrow> list_all is_completed tasks \<and> length tasks = k \<and> k < w"
  "decide tasks w = Crash \<longleftrightarrow> list_all is_completed tasks \<and> w < length tasks"
  unfolding find_open_None [symmetric]
  by (cases "find (\<lambda>t. \<not> is_completed t) tasks"; auto simp: decide_def)+

lemma decide_open:
  "decide tasks w = Wait \<Longrightarrow> \<not> list_all is_completed tasks"
  "decide tasks w = GiveUp t \<Longrightarrow> \<not> list_all is_completed tasks \<and> t \<in> set tasks \<and> is_failed t"
  unfolding find_open_None [symmetric]
  by (cases "find (\<lambda>t. \<not> is_completed t) tasks"; force simp: decide_def find_Some_iff split: if_splits)+

section \<open>The paths of a reconciliation\<close>

definition job_deleted :: "Job \<Rightarrow> bool" where
  "job_deleted j \<longleftrightarrow> \<not> Time_IsZero (om_DeletionTimestamp (job_ObjectMeta j))"

definition job_finished :: "Job \<Rightarrow> bool" where
  "job_finished j \<longleftrightarrow>
     Job_HasCondition j JobCompleted ConditionTrue \<or> Job_HasCondition j JobFailed ConditionTrue"

abbreviation job_is_running :: "Job \<Rightarrow> bool" where
  "job_is_running j \<equiv> Job_HasCondition j JobRunning ConditionTrue"

definition running_job :: "Job \<Rightarrow> time \<Rightarrow> Job" where
  "running_job j now =
     (if job_is_running j then j else Job_SetCondition (job_set_start j now) JobRunning ConditionTrue [])"

definition failed_job :: "Job \<Rightarrow> string \<Rightarrow> Job" where
  "failed_job j msg = Job_SetCondition j JobFailed ConditionTrue [WithJobConditionMessage msg]"

definition completed_job :: "Job \<Rightarrow> time \<Rightarrow> Job" where
  "completed_job j now = job_set_completion (Job_SetCondition j JobCompleted ConditionTrue []) now"

definition job_patch_error :: "Job \<Rightarrow> apierror \<Rightarrow> goerr" where
  "job_patch_error j e =
     Wrap (''failed to patch Job '' @ job_Namespace j @ ''/'' @ job_Name j @ '' status: '') (Api e)"

definition create_error :: "Task \<Rightarrow> apierror \<Rightarrow> goerr" where
  "create_error t e =
     Wrap (''failed to create Task '' @ task_Namespace t @ ''/'' @ task_Name t @ '': '') (Api e)"

definition job_failure :: "Job \<Rightarrow> goerr \<Rightarrow> apierror option \<Rightarrow> outcome" where
  "job_failure j err r = Return zero_Result (Some (case r of
     Some e \<Rightarrow> Aggregate [job_patch_error j e, err] | None \<Rightarrow> One err))"

definition job_success :: "Job \<Rightarrow> apierror option \<Rightarrow> outcome" where
  "job_success j r = Return zero_Result (map_option (\<lambda>e. One (job_patch_error j e)) r)"

text \<open>The calls of a reconciliation up to the answer for the Machine, and up to the listed Tasks.\<close>

definition machine_key :: "Job \<Rightarrow> NamespacedName" where
  "machine_key j = nn (mr_Namespace (jsp_MachineRef (job_Spec j))) (mr_Name (jsp_MachineRef (job_Spec j)))"

definition upto_machine :: "NamespacedName \<Rightarrow> Job \<Rightarrow> time \<Rightarrow> apierror + Machine \<Rightarrow> 'c trace" where
  "upto_machine req j now m = EGetJob req (Inr j) # (if job_is_running j then [] else [ENow now]) @
     [EGetMachine (machine_key j) m]"

definition upto_list ::
  "NamespacedName \<Rightarrow> Job \<Rightarrow> time \<Rightarrow> Machine \<Rightarrow> apierror + Task list \<Rightarrow> 'c trace" where
  "upto_list req j now m tasks =
     upto_machine req j now (Inr m) @ [EListTasks (job_Name j) (job_Namespace j) tasks]"

abbreviation wanted_tasks :: "Job \<Rightarrow> nat" where
  "wanted_tasks j \<equiv> length (jsp_Tasks (job_Spec j))"

definition next_task :: "Job \<Rightarrow> nat \<Rightarrow> Machine \<Rightarrow> Task" where
  "next_task j k m = task_for j k (jsp_Tasks (job_Spec j) ! k) (msp_Connection (machine_Spec m))"

inductive job_path ::
  "('c trace \<Rightarrow> time) \<Rightarrow> NamespacedName \<Rightarrow> apierror + Job \<Rightarrow> outcome \<Rightarrow> 'c trace \<Rightarrow> bool"
  for clk :: "'c trace \<Rightarrow> time" and req :: NamespacedName and got :: "apierror + Job" where
  gone: "got = Inl err \<Longrightarrow> job_path clk req got (Return zero_Result None) [EGetJob req (Inl err)]"
| unread: "got = Inl err \<Longrightarrow>
    job_path clk req got (Return zero_Result (Some (One (Api err)))) [EGetJob req (Inl err)]"
| inert: "got = Inr j \<Longrightarrow> job_deleted j \<or> job_finished j \<Longrightarrow>
    job_path clk req got (Return zero_Result None) [EGetJob req (Inr j)]"
| no_machine: "got = Inr j \<Longrightarrow> \<not> job_deleted j \<Longrightarrow> \<not> job_finished j \<Longrightarrow>
    job_path clk req got (Return zero_Result (Some (One e))) (upto_machine req j now (Inl err))"
| no_list: "got = Inr j \<Longrightarrow> \<not> job_deleted j \<Longrightarrow> \<not> job_finished j \<Longrightarrow>
    job_path clk req got (Return zero_Result (Some (One e))) (upto_list req j now m (Inl err))"
| task_failed: "got = Inr j \<Longrightarrow> \<not> job_deleted j \<Longrightarrow> \<not> job_finished j \<Longrightarrow>
    decide tasks (wanted_tasks j) = GiveUp t \<Longrightarrow> err = task_failed_error t \<Longrightarrow>
    j' = failed_job (running_job j now) (Error err) \<Longrightarrow>
    job_path clk req got (job_failure j' err r) (upto_list req j now m (Inr tasks) @ [EPatchJob j' j r])"
| waiting: "got = Inr j \<Longrightarrow> \<not> job_deleted j \<Longrightarrow> \<not> job_finished j \<Longrightarrow>
    decide tasks (wanted_tasks j) = Wait \<Longrightarrow>
    job_path clk req got (Return zero_Result None) (upto_list req j now m (Inr tasks))"
| completed: "got = Inr j \<Longrightarrow> \<not> job_deleted j \<Longrightarrow> \<not> job_finished j \<Longrightarrow>
    decide tasks (wanted_tasks j) = Finish \<Longrightarrow> fin = clk (upto_list req j now m (Inr tasks)) \<Longrightarrow>
    j' = completed_job (running_job j now) fin \<Longrightarrow>
    job_path clk req got (job_success j' r)
      (upto_list req j now m (Inr tasks) @ [ENow fin, EPatchJob j' j r])"
| launched: "got = Inr j \<Longrightarrow> \<not> job_deleted j \<Longrightarrow> \<not> job_finished j \<Longrightarrow>
    decide tasks (wanted_tasks j) = Launch k \<Longrightarrow> t = next_task j k m \<Longrightarrow> j' = running_job j now \<Longrightarrow>
    job_path clk req got (job_success j' r)
      (upto_list req j now m (Inr tasks) @ [ECreateTask t None, EPatchJob j' j r])"
| launch_failed: "got = Inr j \<Longrightarrow> \<not> job_deleted j \<Longrightarrow> \<not> job_finished j \<Longrightarrow>
    decide tasks (wanted_tasks j) = Launch k \<Longrightarrow> t = next_task j k m \<Longrightarrow> err = create_error t e \<Longrightarrow>
    j' = failed_job (running_job j now) (Error err) \<Longrightarrow>
    job_path clk req got (job_failure j' err r)
      (upto_list req j now m (Inr tasks) @ [ECreateTask t (Some e), EPatchJob j' j r])"
| crashed: "got = Inr j \<Longrightarrow> \<not> job_deleted j \<Longrightarrow> \<not> job_finished j \<Longrightarrow>
    decide tasks (wanted_tasks j) = Crash \<Longrightarrow>
    job_path clk req got (Panic msg) (upto_list req j now m (Inr tasks))"

lemma job_status_keep [simp]:
  "job_Spec (job_set_start j n) = job_Spec j" "job_ObjectMeta (job_set_start j n) = job_ObjectMeta j"
  "job_TypeMeta (job_set_start j n) = job_TypeMeta j"
  "job_Spec (job_set_completion j n) = job_Spec j"
  "job_ObjectMeta (job_set_completion j n) = job_ObjectMeta j"
  "job_TypeMeta (job_set_completion j n) = job_TypeMeta j"
  "job_Spec (Job_SetCondition j ty st opts) = job_Spec j"
  "job_ObjectMeta (Job_SetCondition j ty st opts) = job_ObjectMeta j"
  "job_TypeMeta (Job_SetCondition j ty st opts) = job_TypeMeta j"
  by (simp_all add: job_set_start_def job_set_completion_def Job_SetCondition_slot)

lemma marked_job_keep [simp]:
  "job_Spec (running_job j n) = job_Spec j" "job_ObjectMeta (running_job j n) = job_ObjectMeta j"
  "job_TypeMeta (running_job j n) = job_TypeMeta j"
  "job_TypeMeta (failed_job j m) = job_TypeMeta j" "job_TypeMeta (completed_job j n) = job_TypeMeta j"
  "job_Spec (failed_job j m) = job_Spec j" "job_ObjectMeta (failed_job j m) = job_ObjectMeta j"
  "job_Spec (completed_job j n) = job_Spec j" "job_ObjectMeta (completed_job j n) = job_ObjectMeta j"
  by (simp_all add: running_job_def failed_job_def completed_job_def)

lemma next_task_running [simp]: "next_task (running_job j n) k m = next_task j k m"
  by (simp add: next_task_def task_for_def FormatTaskName_def)

lemma wp_job_patchStatus:
  "wp (job_patchStatus (rec_kube A) j base) Q h \<longleftrightarrow>
    (let r = aPatchJob A h j in Q (map_option (job_patch_error j) r) (h @ [EPatchJob j base r]))"
  by (simp add: job_patchStatus_def wp_simps Let_def job_patch_error_def [abs_def])

lemma wp_job_fail:
  "wp (job_fail (rec_kube A) j base err) Q h \<longleftrightarrow>
    (let j' = failed_job j (Error err); r = aPatchJob A h j' in
     Q (job_failure j' err r) (h @ [EPatchJob j' base r]))"
  by (auto simp: job_fail_def wp_job_patchStatus wp_simps Let_def failed_job_def job_failure_def
      split: option.split)

lemma wp_job_complete:
  "wp (job_complete (rec_kube A) j base) Q h \<longleftrightarrow>
    (let fin = aNow A h; j' = completed_job j fin; r = aPatchJob A (h @ [ENow fin]) j' in
     Q (job_success j' r) (h @ [ENow fin, EPatchJob j' base r]))"
  by (simp add: job_complete_def wp_job_patchStatus wp_simps Let_def completed_job_def job_success_def
      option.map_comp comp_def)

lemma wp_job_next_task:
  "wp (job_next_task (rec_kube A) j base k (msp_Connection (machine_Spec m))) Q h \<longleftrightarrow>
    (if k < wanted_tasks j then
       (let t = next_task j k m; c = aCreateTask A h t; h' = h @ [ECreateTask t c] in
        case c of
          None \<Rightarrow> (let r = aPatchJob A h' j in Q (job_success j r) (h' @ [EPatchJob j base r]))
        | Some e \<Rightarrow> (let err = create_error t e; j' = failed_job j (Error err); r = aPatchJob A h' j' in
            Q (job_failure j' err r) (h' @ [EPatchJob j' base r])))
     else Q (Panic (''runtime error: index out of range ['' @ Itoa (int k) @
        ''] with length '' @ Itoa (int (wanted_tasks j)))) h)"
  by (auto simp: job_next_task_def createTaskWithOwner_def wp_job_patchStatus wp_job_fail wp_simps Let_def
      next_task_def job_success_def option.map_comp comp_def create_error_def split: option.split)

lemma wp_job_advance:
  assumes "got = Inr j" "\<not> job_deleted j" "\<not> job_finished j"
    and "pre = upto_list req j now m (Inr tasks)"
  shows "wp (job_advance (rec_kube A) (running_job j now) j m tasks) (job_path (aNow A) req got) pre"
proof (cases "decide tasks (wanted_tasks j)")
  case Finish
  then show ?thesis
    using job_path.completed [where clk = "aNow A", OF assms(1-3) Finish refl refl] assms(4)
    by (auto simp: job_advance_def scan_tasks_find decide_simps find_open_None [THEN iffD2]
        wp_job_complete Let_def)
next
  case (GiveUp t)
  then show ?thesis
    using job_path.task_failed [where clk = "aNow A", OF assms(1-3) GiveUp refl refl] assms(4)
    by (auto simp: job_advance_def scan_tasks_find decide_def wp_job_fail Let_def
        split: option.splits if_splits)
next
  case Wait
  then show ?thesis
    using job_path.waiting [where clk = "aNow A", OF assms(1-3) Wait] assms(4)
    by (auto simp: job_advance_def scan_tasks_find decide_def wp_simps split: option.splits if_splits)
next
  case (Launch k)
  then show ?thesis
    using job_path.launched [where clk = "aNow A", OF assms(1-3) Launch refl refl]
      job_path.launch_failed [where clk = "aNow A", OF assms(1-3) Launch refl refl refl] assms(4)
    by (auto simp: job_advance_def scan_tasks_find decide_simps find_open_None [THEN iffD2]
        wp_job_next_task Let_def split: option.split)
next
  case Crash
  then show ?thesis
    using job_path.crashed [where clk = "aNow A", OF assms(1-3) Crash] assms(4)
    by (auto simp: job_advance_def scan_tasks_find decide_simps find_open_None [THEN iffD2]
        wp_job_next_task)
qed

lemma wp_job_mark_running:
  "wp (job_mark_running (rec_kube A) j) Q h \<longleftrightarrow>
    (if job_is_running j then Q j h else Q (running_job j (aNow A h)) (h @ [ENow (aNow A h)]))"
  by (simp add: job_mark_running_def wp_simps Let_def running_job_def)

lemma job_run_path:
  "job_path (aNow A) req (aGetJob A [] req) (fst (job_run A req)) (snd (job_run A req))"
proof -
  let ?got = "aGetJob A [] req"
  have live: "wp (job_doReconcile (rec_kube A) j j) (job_path (aNow A) req ?got) [EGetJob req (Inr j)]"
    if j: "?got = Inr j" "\<not> job_deleted j" "\<not> job_finished j" for j
  proof -
    let ?now = "aNow A [EGetJob req (Inr j)]"
    show ?thesis
      using job_path.no_machine [where clk = "aNow A" and now = ?now, OF j]
        job_path.no_list [where clk = "aNow A" and now = ?now, OF j]
        wp_job_advance [where A = A and now = ?now, OF j refl]
      by (cases "job_is_running j")
        (auto simp: job_doReconcile_def wp_job_mark_running running_job_def getMachine_def wp_simps Let_def
          upto_list_def upto_machine_def machine_key_def split: sum.split)
  qed
  have "wp (job_Reconcile (rec_kube A) req) (job_path (aNow A) req ?got) []"
  proof (cases ?got)
    case (Inl err)
    then show ?thesis
      by (auto simp: job_Reconcile_def wp_simps Let_def intro: job_path.gone job_path.unread)
  next
    case (Inr j)
    show ?thesis
    proof (cases "job_deleted j \<or> job_finished j")
      case True
      then show ?thesis
        using Inr job_path.inert [OF Inr True, of "aNow A" req]
        by (auto simp: job_Reconcile_def wp_simps Let_def job_deleted_def job_finished_def)
    next
      case False
      then show ?thesis
        using Inr live [OF Inr]
        by (auto simp: job_Reconcile_def wp_simps Let_def job_deleted_def job_finished_def)
    qed
  qed
  then show ?thesis by (simp add: job_run_def wp_def)
qed

section \<open>Facts on a reconciliation\<close>

text \<open>The lists of Tasks the reconciliation got.\<close>

definition listed_tasks :: "'c trace \<Rightarrow> Task list list" where
  "listed_tasks h = [ts. EListTasks n ns (Inr ts) \<leftarrow> h]"

lemma listed_append [simp]: "listed_tasks (g @ h) = listed_tasks g @ listed_tasks h"
  by (simp add: listed_tasks_def)

lemma listed_Cons [simp]:
  "listed_tasks (e # h) = (case e of EListTasks n ns (Inr ts) \<Rightarrow> [ts] | _ \<Rightarrow> []) @ listed_tasks h"
  by (simp add: listed_tasks_def split: event.split sum.split)

lemma listed_Nil [simp]: "listed_tasks [] = []"
  by (simp add: listed_tasks_def)

lemma observe_upto_list [simp]:
  "job_patches (upto_machine req j now m') = []" "job_patches (upto_list req j now m ts) = []"
  "created_tasks (upto_machine req j now m') = []" "created_tasks (upto_list req j now m ts) = []"
  "bmc_writes (upto_machine req j now m') = []" "bmc_writes (upto_list req j now m ts) = []"
  "\<not> tried_bmc (upto_machine req j now m')" "\<not> tried_bmc (upto_list req j now m ts)"
  "listed_tasks (upto_machine req j now m') = []"
  "listed_tasks (upto_list req j now m ts) = (case ts of Inl e \<Rightarrow> [] | Inr tasks \<Rightarrow> [tasks])"
  "clock_reads (upto_list req j now m ts) = (if job_is_running j then [] else [now])"
  by (simp_all add: upto_list_def upto_machine_def tried_bmc_def split: sum.split)

definition job_phase :: "Job \<Rightarrow> phase" where
  "job_phase j =
     (if Job_HasCondition j JobFailed ConditionTrue then Failed
      else if Job_HasCondition j JobCompleted ConditionTrue then Succeeded
      else if job_is_running j then Running else Pending)"

lemma job_has_condition_status: "Job_HasCondition (job_set_start j n) = Job_HasCondition j"
  "Job_HasCondition (job_set_completion j n) = Job_HasCondition j"
  by (rule jq.has_cong; simp add: job_set_start_def job_set_completion_def)+

lemma job_has_condition_update:
  "Job_HasCondition (Job_SetCondition j ty st (map WithJobConditionMessage ms)) ty' st' \<longleftrightarrow>
    (if ty' = ty then st' = st else Job_HasCondition j ty' st')"
  by (rule jq.has_set [OF job_messages_keep])

lemmas job_has_condition_updates = job_has_condition_status job_has_condition_update [of _ _ _ "[]", simplified]
  job_has_condition_update [of _ _ _ "[m]" for m, simplified]

lemma running_job_conditions:
  "Job_HasCondition (running_job j n) ty st \<longleftrightarrow>
    (if ty = JobRunning \<and> \<not> job_is_running j then st = ConditionTrue else Job_HasCondition j ty st)"
  by (auto simp: running_job_def job_has_condition_updates)

lemma job_phases [simp]:
  "job_phase (failed_job j m) = Failed"
  "\<not> job_finished j \<Longrightarrow> job_phase (completed_job (running_job j n) f) = Succeeded"
  "\<not> job_finished j \<Longrightarrow> job_phase (running_job j n) = Running"
  "job_is_running (failed_job (running_job j n) m)"
  "job_is_running (completed_job (running_job j n) f)"
  "job_is_running (running_job j n)"
  by (simp_all add: job_phase_def failed_job_def completed_job_def job_has_condition_updates
      running_job_conditions job_finished_def)

lemma job_phase_live:
  "\<not> job_finished j \<Longrightarrow> job_phase j = (if job_is_running j then Running else Pending)"
  by (simp add: job_phase_def job_finished_def)

lemma job_times [simp]:
  "js_StartTime (job_Status (failed_job j m)) = js_StartTime (job_Status j)"
  "js_StartTime (job_Status (completed_job j f)) = js_StartTime (job_Status j)"
  "js_StartTime (job_Status (running_job j n)) = (if job_is_running j then js_StartTime (job_Status j) else Some n)"
  "js_CompletionTime (job_Status (failed_job j m)) = js_CompletionTime (job_Status j)"
  "js_CompletionTime (job_Status (completed_job j f)) = Some f"
  "js_CompletionTime (job_Status (running_job j n)) = js_CompletionTime (job_Status j)"
  by (simp_all add: failed_job_def completed_job_def running_job_def Job_SetCondition_slot
      job_set_start_def job_set_completion_def)

text \<open>C4. A reconciliation of a Job does what \<open>decide\<close> says on the Tasks it listed: complete the Job
  when all wanted Tasks are Completed; fail it on the first Task that is not Completed but Failed; wait
  when that Task is neither; else create the Task whose index is the number of Completed ones, once, for
  the action at that index and the machine's connection, and fail the Job if that fails; it panics when
  more Tasks are listed than wanted.  Without a list it creates and patches nothing.  It never calls a BMC.\<close>

theorem job_follows_decision:
  "(case listed_tasks (snd (job_run A req)) of
      [] \<Rightarrow> job_patches (snd (job_run A req)) = [] \<and> created_tasks (snd (job_run A req)) = []
    | [tasks] \<Rightarrow> \<exists>j m. aGetJob A [] req = Inr j \<and> EGetMachine (machine_key j) (Inr m) \<in> set (snd (job_run A req)) \<and>
        (case decide tasks (wanted_tasks j) of
           Finish \<Rightarrow> created_tasks (snd (job_run A req)) = [] \<and>
             map (\<lambda>(j', b, r). (job_phase j', b)) (job_patches (snd (job_run A req))) = [(Succeeded, j)]
         | GiveUp t \<Rightarrow> created_tasks (snd (job_run A req)) = [] \<and>
             map (\<lambda>(j', b, r). (job_phase j', b)) (job_patches (snd (job_run A req))) = [(Failed, j)]
         | Wait \<Rightarrow> created_tasks (snd (job_run A req)) = [] \<and> job_patches (snd (job_run A req)) = [] \<and>
             fst (job_run A req) = Return zero_Result None
         | Launch k \<Rightarrow> \<exists>c. created_tasks (snd (job_run A req)) =
               [(task_for j k (jsp_Tasks (job_Spec j) ! k) (msp_Connection (machine_Spec m)), c)] \<and>
             map (\<lambda>(j', b, r). (job_phase j', b)) (job_patches (snd (job_run A req))) =
               [(if c = None then Running else Failed, j)]
         | Crash \<Rightarrow> created_tasks (snd (job_run A req)) = [] \<and> job_patches (snd (job_run A req)) = [] \<and>
             (\<exists>msg. fst (job_run A req) = Panic msg))
    | _ \<Rightarrow> False) \<and>
   \<not> tried_bmc (snd (job_run A req)) \<and> bmc_writes (snd (job_run A req)) = []"
  using job_run_path [of A req]
  by (cases rule: job_path.cases)
    (auto simp: next_task_def upto_list_def upto_machine_def)

text \<open>C14. A reconciliation patches a Job's status at most once, from the Job it read, which was neither
  Completed nor Failed; it keeps metadata and spec, leaves the Job Running, Completed or Failed, never
  Pending, and in all three cases with the condition Running still True.  The start time is set
  once, when the condition Running is first written, and the completion time with Completed only.\<close>

theorem job_patch_phases:
  "case job_patches (snd (job_run A req)) of
     [] \<Rightarrow> True
   | [(j, base, r)] \<Rightarrow> aGetJob A [] req = Inr base \<and> \<not> job_deleted base \<and>
       job_phase base \<le> Running \<and> Running \<le> job_phase j \<and> job_is_running j \<and>
       job_ObjectMeta j = job_ObjectMeta base \<and> job_Spec j = job_Spec base \<and>
       js_StartTime (job_Status j) =
         (if job_is_running base then js_StartTime (job_Status base)
          else Some (hd (clock_reads (snd (job_run A req))))) \<and>
       js_CompletionTime (job_Status j) =
         (if job_phase j = Succeeded then Some (last (clock_reads (snd (job_run A req))))
          else js_CompletionTime (job_Status base))
   | _ \<Rightarrow> False"
  using job_run_path [of A req]
  by (cases rule: job_path.cases)
    (auto simp: job_phase_live less_eq_phase_def)


lemma failed_job_condition [simp]:
  "find (\<lambda>c. jc_Type c = JobFailed) (job_conds (failed_job j m)) =
    Some \<lparr>jc_Type = JobFailed, jc_Status = ConditionTrue, jc_Message = m\<rparr>"
proof -
  let ?new = "\<lparr>jc_Type = JobFailed, jc_Status = [], jc_Message = []\<rparr>"
  have "jc_Type (case find (\<lambda>c. jc_Type c = JobFailed) (job_conds j) of None \<Rightarrow> ?new | Some c \<Rightarrow> c) = JobFailed"
    by (auto simp: find_Some_iff split: option.split)
  then show ?thesis
    by (simp add: failed_job_def Job_SetCondition_slot write_slot_find WithJobConditionMessage_def)
qed

text \<open>C21. A failed Job says why: the condition Failed has the text of the error that the
  reconciliation returns, that a Task failed or could not be created, an AlreadyExists included.\<close>

theorem job_failure_reason:
  "case job_patches (snd (job_run A req)) of
     [(j, base, r)] \<Rightarrow>
       (if job_phase j = Failed
        then \<exists>err. (find (\<lambda>c. jc_Type c = JobFailed) (job_conds j)) =
               Some \<lparr>jc_Type = JobFailed, jc_Status = ConditionTrue, jc_Message = Error err\<rparr> \<and>
             fst (job_run A req) = job_failure j err r \<and>
             ((\<exists>tasks t. listed_tasks (snd (job_run A req)) = [tasks] \<and> t \<in> set tasks \<and> is_failed t \<and>
                 err = task_failed_error t) \<or>
              (\<exists>t e. created_tasks (snd (job_run A req)) = [(t, Some e)] \<and> err = create_error t e))
        else fst (job_run A req) = job_success j r)
   | _ \<Rightarrow> True"
  using job_run_path [of A req]
  by (cases rule: job_path.cases) (auto dest: decide_open)

text \<open>A world for the example: it knows one Job and a list of Tasks, and every call succeeds.\<close>

definition steady_answers :: "Job \<Rightarrow> Task list \<Rightarrow> time \<Rightarrow> string answers" where
  "steady_answers j tasks now = \<lparr>
     aGetMachine = (\<lambda>h k. Inr \<lparr>machine_TypeMeta = empty_TypeMeta, machine_ObjectMeta = empty_ObjectMeta,
       machine_Spec = \<lparr>msp_Connection = empty_Connection\<rparr>,
       machine_Status = \<lparr>ms_Power = [], ms_Conditions = []\<rparr>\<rparr>),
     aGetJob = (\<lambda>h k. Inr j),
     aGetTask = (\<lambda>h k. Inl \<lparr>ae_Reason = ''NotFound'', ae_Message = []\<rparr>),
     aGetSecret = (\<lambda>h k. Inl \<lparr>ae_Reason = ''NotFound'', ae_Message = []\<rparr>),
     aListTasks = (\<lambda>h n ns. Inr tasks),
     aCreateTask = (\<lambda>h t. None),
     aPatchMachine = (\<lambda>h m. None),
     aPatchJob = (\<lambda>h j. None),
     aPatchTask = (\<lambda>h t. None),
     aNow = (\<lambda>h. now),
     aIsNotFound = (\<lambda>e. ae_Reason e = ''NotFound''),
     aKeyString = (\<lambda>k. nn_Namespace k @ ''/'' @ nn_Name k),
     aRefString = (\<lambda>s. sr_Namespace s @ ''/'' @ sr_Name s),
     aOpen = (\<lambda>h host u p opts. Inr host),
     aDial = (\<lambda>h host u p opts. host),
     aDialOpen = (\<lambda>h c d. None),
     aClose = (\<lambda>h c. None),
     aGetPower = (\<lambda>h c. Inr ''on''),
     aSetPower = (\<lambda>h c s. Inr True),
     aSetBoot = (\<lambda>h c d p e. Inr True),
     aSetMedia = (\<lambda>h c k u. Inr True)\<rparr>"

text \<open>C24. A Job that is deleted or finished, or not found, is left alone: the lookup is the only call
  and the outcome is the empty result without an error.\<close>

theorem job_left_alone:
  assumes "case aGetJob A [] req of Inl err \<Rightarrow> aIsNotFound A err | Inr j \<Rightarrow> job_deleted j \<or> job_finished j"
  shows "job_run A req = (Return zero_Result None, [EGetJob req (aGetJob A [] req)])"
  using assms
  by (cases "aGetJob A [] req")
    (auto simp: job_run_def job_Reconcile_def job_deleted_def job_finished_def rec_kube_def call_def)

theorem job_left_alone_witness:
  "fst (job_run (steady_answers (failed_job blank_job ''x'') [] 7) (nn [] [])) = Return zero_Result None"
proof -
  let ?A = "steady_answers (failed_job blank_job ''x'') [] 7"
  have "job_finished (failed_job blank_job ''x'')" by code_simp
  then have "case aGetJob ?A [] (nn [] []) of Inl err \<Rightarrow> aIsNotFound ?A err
    | Inr j \<Rightarrow> job_deleted j \<or> job_finished j"
    by (simp add: steady_answers_def)
  from job_left_alone [OF this] show ?thesis by simp
qed

end
