(* ===== verification/System.thy ===== *)
theory System
  imports Machine_Traces Task_Traces Job_Traces
begin

text \<open>
  The three controllers together.  Any number of reconciliations are in flight at a time; their
  calls reach the API server one by one, in any interleaving.  A run may stop for good between two
  calls (a crash), reads may be stale, a patch is merged into whatever is stored, a request that
  reports an error may have been carried out.  The locale \<open>reconcilers\<close> states what the proof needs of the
  controllers' runs; the traces of the model interpret it.
\<close>

section \<open>The API server\<close>

text \<open>
  The stored Jobs and Tasks, and all versions of them that ever were stored: a stale read
  answers with one of these.
\<close>

record api_state =
  st_Jobs :: "NamespacedName \<Rightarrow> Job option"
  st_Tasks :: "NamespacedName \<Rightarrow> Task option"
  st_JobVersions :: "Job set"
  st_TaskVersions :: "Task set"

abbreviation job_key :: "Job \<Rightarrow> NamespacedName" where
  "job_key j \<equiv> object_key (job_ObjectMeta j)"

abbreviation task_key :: "Task \<Rightarrow> NamespacedName" where
  "task_key t \<equiv> object_key (task_ObjectMeta t)"

definition empty_state :: api_state where
  "empty_state = \<lparr>st_Jobs = (\<lambda>_. None), st_Tasks = (\<lambda>_. None), st_JobVersions = {}, st_TaskVersions = {}\<rparr>"

definition put_job :: "Job \<Rightarrow> api_state \<Rightarrow> api_state" where
  "put_job j s = s\<lparr>st_Jobs := (st_Jobs s)(job_key j \<mapsto> j), st_JobVersions := insert j (st_JobVersions s)\<rparr>"

definition put_task :: "Task \<Rightarrow> api_state \<Rightarrow> api_state" where
  "put_task t s = s\<lparr>st_Tasks := (st_Tasks s)(task_key t \<mapsto> t), st_TaskVersions := insert t (st_TaskVersions s)\<rparr>"

text \<open>Merge patches of the status, computed from \<open>base\<close>, on the stored Job or Task.\<close>

definition patched_job :: "Job \<Rightarrow> Job \<Rightarrow> Job \<Rightarrow> Job" where
  "patched_job base j cur =
     cur\<lparr>job_Status := patch_job_status (job_Status base) (job_Status j) (job_Status cur)\<rparr>"

definition patched_task :: "Task \<Rightarrow> Task \<Rightarrow> Task \<Rightarrow> Task" where
  "patched_task base t cur =
     cur\<lparr>task_Status := patch_task_status (task_Status base) (task_Status t) (task_Status cur)\<rparr>"

text \<open>
  A list of Tasks by owner name and namespace: stored versions of different Tasks that the index
  finds under the name.
\<close>

definition listing ::
  "(client_object \<Rightarrow> string list) \<Rightarrow> api_state \<Rightarrow> string \<Rightarrow> string \<Rightarrow> Task list \<Rightarrow> bool" where
  "listing index s name ns ts \<longleftrightarrow> distinct (map task_key ts) \<and>
     list_all (\<lambda>t. t \<in> st_TaskVersions s \<and> name \<in> set (index (TaskObject t)) \<and> task_Namespace t = ns) ts"

text \<open>
  One call: the state before it, the call with its answer, the state after it.  The reconcilers read
  through a cache and patch without a check of the version: a read answers with any version that
  ever was stored, and a patch is merged into the version that is stored now.  With the flag
  \<open>fresh\<close>, a single Task is read as it is stored and no one else has patched it when it is patched;
  some facts hold only then.
\<close>

definition silent :: "'c event \<Rightarrow> bool" where
  "silent e \<longleftrightarrow> (case e of
     EGetJob k (Inr j) \<Rightarrow> False | EGetTask k (Inr t) \<Rightarrow> False | EListTasks n ns (Inr ts) \<Rightarrow> False
   | ECreateTask t None \<Rightarrow> False | EPatchJob j b None \<Rightarrow> False | EPatchTask t b None \<Rightarrow> False
   | _ \<Rightarrow> True)"

inductive serve :: "bool \<Rightarrow> (client_object \<Rightarrow> string list) \<Rightarrow> api_state \<Rightarrow> 'c event \<Rightarrow> api_state \<Rightarrow> bool"
  for fresh :: bool and index :: "client_object \<Rightarrow> string list" where
  nothing: "silent e \<Longrightarrow> serve fresh index s e s"
| get_job: "j \<in> st_JobVersions s \<Longrightarrow> job_key j = k \<Longrightarrow> serve fresh index s (EGetJob k (Inr j)) s"
| get_task: "t \<in> st_TaskVersions s \<Longrightarrow> task_key t = k \<Longrightarrow> (fresh \<longrightarrow> st_Tasks s k = Some t) \<Longrightarrow>
    serve fresh index s (EGetTask k (Inr t)) s"
| list_tasks: "listing index s n ns ts \<Longrightarrow> serve fresh index s (EListTasks n ns (Inr ts)) s"
| create_task: "st_Tasks s (task_key t) = None \<Longrightarrow> serve fresh index s (ECreateTask t r) (put_task t s)"
| patch_job: "st_Jobs s (job_key j) = Some cur \<Longrightarrow>
    serve fresh index s (EPatchJob j b r) (put_job (patched_job b j cur) s)"
| patch_task: "st_Tasks s (task_key t) = Some cur \<Longrightarrow> (fresh \<longrightarrow> cur = b) \<Longrightarrow>
    serve fresh index s (EPatchTask t b r) (put_task (patched_task b t cur) s)"

inductive_cases serve_cases [elim]: "serve fresh index s e s'"

section \<open>Runs in flight\<close>

datatype kind = MachineRun | TaskRun | JobRun

text \<open>A run: its controller, its request, its outcome, the calls made and the calls to come.\<close>

type_synonym 'c run = "kind \<times> NamespacedName \<times> outcome \<times> 'c trace \<times> 'c trace"

definition controller_run :: "kind \<Rightarrow> NamespacedName \<Rightarrow> outcome \<Rightarrow> 'c trace \<Rightarrow> bool" where
  "controller_run kind req out h \<longleftrightarrow> (\<exists>A. (out, h) = (case kind of
     MachineRun \<Rightarrow> machine_run A req | TaskRun \<Rightarrow> task_run A req | JobRun \<Rightarrow> job_run A req))"

text \<open>A Job as a user submits it: the kind and version as registered, no condition yet.\<close>

definition submitted :: "(GroupVersion_t \<Rightarrow> string) \<Rightarrow> Job \<Rightarrow> bool" where
  "submitted gvs j \<longleftrightarrow> tm_Kind (job_TypeMeta j) = ''Job'' \<and>
     tm_APIVersion (job_TypeMeta j) = gvs GroupVersion \<and> job_conds j = []"

text \<open>
  The reachable configurations.  \<open>fresh\<close> is the flag of \<open>serve\<close>, \<open>runs\<close> are the runs the controllers can make, \<open>g\<close> and
  \<open>gvs\<close> the library functions the owner index uses.
\<close>

inductive reach ::
  "bool \<Rightarrow> (kind \<Rightarrow> NamespacedName \<Rightarrow> outcome \<Rightarrow> 'c trace \<Rightarrow> bool) \<Rightarrow>
   (OwnerReference list \<Rightarrow> OwnerReference option) \<Rightarrow> (GroupVersion_t \<Rightarrow> string) \<Rightarrow>
   api_state \<Rightarrow> 'c run list \<Rightarrow> bool"
  for fresh runs g gvs where
  start: "reach fresh runs g gvs empty_state []"
| submit: "reach fresh runs g gvs s rs \<Longrightarrow> submitted gvs j \<Longrightarrow> st_Jobs s (job_key j) = None \<Longrightarrow>
    reach fresh runs g gvs (put_job j s) rs"
| launch: "reach fresh runs g gvs s rs \<Longrightarrow> runs kind req out h \<Longrightarrow>
    reach fresh runs g gvs s ((kind, req, out, [], h) # rs)"
| call: "reach fresh runs g gvs s (rs @ (kind, req, out, d, e # r) # rs') \<Longrightarrow>
    serve fresh (TaskOwnerIndexFunc g gvs) s e s' \<Longrightarrow>
    reach fresh runs g gvs s' (rs @ (kind, req, out, d @ [e], r) # rs')"
| crash: "reach fresh runs g gvs s (rs @ x # rs') \<Longrightarrow> reach fresh runs g gvs s (rs @ rs')"

section \<open>The invariant\<close>

definition slot_key :: "Job \<Rightarrow> nat \<Rightarrow> NamespacedName" where
  "slot_key j i = nn (job_Namespace j) (FormatTaskName j (int i))"

text \<open>
  A Task has been completed when a version of it with that condition was stored.
\<close>

definition was_completed :: "api_state \<Rightarrow> NamespacedName \<Rightarrow> bool" where
  "was_completed s k \<longleftrightarrow> (\<exists>v \<in> st_TaskVersions s. task_key v = k \<and> is_completed v)"

text \<open>
  A Job with \<open>n\<close> Tasks: they fill the first \<open>n\<close> slots, run the Job's actions in order,
  all but the last have been completed; a Job is Completed only when all its Tasks have been.
\<close>

definition sequential :: "api_state \<Rightarrow> Job \<Rightarrow> nat \<Rightarrow> bool" where
  "sequential s j n \<longleftrightarrow> n \<le> wanted_tasks j \<and>
     (\<forall>i. (st_Tasks s (slot_key j i) \<noteq> None) = (i < n)) \<and>
     (\<forall>i t. st_Tasks s (slot_key j i) = Some t \<longrightarrow> task_action t = jsp_Tasks (job_Spec j) ! i) \<and>
     (\<forall>i. Suc i < n \<longrightarrow> was_completed s (slot_key j i)) \<and>
     (job_phase j = Succeeded \<longrightarrow> n = wanted_tasks j \<and> (\<forall>i < n. was_completed s (slot_key j i)))"

definition typed :: "(GroupVersion_t \<Rightarrow> string) \<Rightarrow> Job \<Rightarrow> bool" where
  "typed gvs j \<longleftrightarrow> tm_Kind (job_TypeMeta j) = ''Job'' \<and> tm_APIVersion (job_TypeMeta j) = gvs GroupVersion"

definition same_job :: "Job \<Rightarrow> Job \<Rightarrow> bool" where
  "same_job j j' \<longleftrightarrow> job_TypeMeta j = job_TypeMeta j' \<and> job_ObjectMeta j = job_ObjectMeta j' \<and>
     job_Spec j = job_Spec j'"

definition good ::
  "(client_object \<Rightarrow> string list) \<Rightarrow> (GroupVersion_t \<Rightarrow> string) \<Rightarrow> api_state \<Rightarrow> bool" where
  "good index gvs s \<longleftrightarrow>
     (\<forall>k j. st_Jobs s k = Some j \<longrightarrow> job_key j = k \<and> typed gvs j \<and> (\<exists>n. sequential s j n)) \<and>
     (\<forall>j \<in> st_JobVersions s. \<exists>cur. st_Jobs s (job_key j) = Some cur \<and> same_job j cur) \<and>
     (\<forall>k t. st_Tasks s k = Some t \<longrightarrow> task_key t = k \<and>
        (\<exists>j i. st_Jobs s (job_key j) = Some j \<and> k = slot_key j i \<and> index (TaskObject t) = [job_Name j])) \<and>
     (\<forall>t \<in> st_TaskVersions s. \<exists>cur. st_Tasks s (task_key t) = Some cur \<and> task_ObjectMeta cur = task_ObjectMeta t)"

text \<open>With fresh reads of Tasks, what has been completed still is.\<close>

definition stays_completed :: "api_state \<Rightarrow> bool" where
  "stays_completed s \<longleftrightarrow> (\<forall>k. was_completed s k \<longrightarrow> (\<exists>t. st_Tasks s k = Some t \<and> is_completed t))"

lemma still_completed:
  "fresh \<longrightarrow> stays_completed s \<Longrightarrow> was_completed s k \<Longrightarrow> st_Tasks s k = Some t \<Longrightarrow> fresh \<longrightarrow> is_completed t"
  by (auto simp: stays_completed_def)

text \<open>What the calls a run has made tell about the current state: versions are never forgotten.\<close>

definition recalled :: "(client_object \<Rightarrow> string list) \<Rightarrow> api_state \<Rightarrow> 'c event \<Rightarrow> bool" where
  "recalled index s e \<longleftrightarrow> (case e of
     EGetJob k (Inr j) \<Rightarrow> j \<in> st_JobVersions s \<and> job_key j = k
   | EListTasks n ns (Inr ts) \<Rightarrow> listing index s n ns ts
   | _ \<Rightarrow> True)"

lemma listing_mono:
  "listing index s n ns ts \<Longrightarrow> st_TaskVersions s \<subseteq> st_TaskVersions s' \<Longrightarrow> listing index s' n ns ts"
  by (auto simp: listing_def list_all_iff)

lemma recalled_mono:
  "recalled index s e \<Longrightarrow> st_JobVersions s \<subseteq> st_JobVersions s' \<Longrightarrow> st_TaskVersions s \<subseteq> st_TaskVersions s' \<Longrightarrow>
    recalled index s' e"
  by (auto simp: recalled_def listing_mono split: event.splits sum.splits)

lemma serve_mono:
  "serve fresh index s e s' \<Longrightarrow> st_JobVersions s \<subseteq> st_JobVersions s' \<and> st_TaskVersions s \<subseteq> st_TaskVersions s'"
  by (erule serve_cases) (auto simp: put_job_def put_task_def)

lemma serve_recalled: "serve fresh index s e s' \<Longrightarrow> recalled index s' e"
  by (erule serve_cases) (auto simp: recalled_def silent_def split: event.splits sum.splits)

lemma slot_key_inject: "slot_key j i = slot_key j' i' \<longleftrightarrow> job_key j = job_key j' \<and> i = i'"
  by (auto simp: slot_key_def FormatTaskName_inject object_key_def)

lemma slot_key_next: "task_key (next_task j k m) = slot_key j k"
  by (simp add: next_task_def task_for_def object_key_def slot_key_def)

lemma next_task_action: "task_action (next_task j k m) = jsp_Tasks (job_Spec j) ! k"
  by (simp add: next_task_def task_for_def)

lemma same_job_simps:
  "same_job j j' \<Longrightarrow> job_key j = job_key j'" "same_job j j' \<Longrightarrow> slot_key j = slot_key j'"
  "same_job j j' \<Longrightarrow> job_Spec j = job_Spec j'"
  by (auto simp: same_job_def slot_key_def FormatTaskName_def fun_eq_iff)

section \<open>Preservation\<close>

lemma good_job: "good index gvs s \<Longrightarrow> st_Jobs s k = Some j \<Longrightarrow>
    job_key j = k \<and> typed gvs j \<and> (\<exists>n. sequential s j n)"
  by (simp add: good_def)

lemma good_version: "good index gvs s \<Longrightarrow> j \<in> st_JobVersions s \<Longrightarrow>
    \<exists>cur. st_Jobs s (job_key j) = Some cur \<and> same_job j cur"
  by (simp add: good_def)

lemma good_task: "good index gvs s \<Longrightarrow> st_Tasks s k = Some t \<Longrightarrow> task_key t = k \<and>
    (\<exists>j i. st_Jobs s (job_key j) = Some j \<and> k = slot_key j i \<and> index (TaskObject t) = [job_Name j])"
  by (simp add: good_def)

lemma good_task_version: "good index gvs s \<Longrightarrow> t \<in> st_TaskVersions s \<Longrightarrow>
    \<exists>cur. st_Tasks s (task_key t) = Some cur \<and> task_ObjectMeta cur = task_ObjectMeta t"
  by (simp add: good_def)

lemma goodI:
  assumes "\<And>k j. st_Jobs s k = Some j \<Longrightarrow> job_key j = k \<and> typed gvs j \<and> (\<exists>n. sequential s j n)"
    and "\<And>j. j \<in> st_JobVersions s \<Longrightarrow> \<exists>cur. st_Jobs s (job_key j) = Some cur \<and> same_job j cur"
    and "\<And>k t. st_Tasks s k = Some t \<Longrightarrow> task_key t = k \<and>
      (\<exists>j i. st_Jobs s (job_key j) = Some j \<and> k = slot_key j i \<and> index (TaskObject t) = [job_Name j])"
    and "\<And>t. t \<in> st_TaskVersions s \<Longrightarrow> \<exists>cur. st_Tasks s (task_key t) = Some cur \<and> task_ObjectMeta cur = task_ObjectMeta t"
  shows "good index gvs s"
  using assms by (simp add: good_def)

lemma put_task_simps [simp]:
  "st_Jobs (put_task t s) = st_Jobs s" "st_JobVersions (put_task t s) = st_JobVersions s"
  "st_Tasks (put_task t s) k = (if k = task_key t then Some t else st_Tasks s k)"
  "st_TaskVersions (put_task t s) = insert t (st_TaskVersions s)"
  by (simp_all add: put_task_def)

lemma put_job_simps [simp]:
  "st_Tasks (put_job j s) = st_Tasks s" "st_TaskVersions (put_job j s) = st_TaskVersions s"
  "st_Jobs (put_job j s) k = (if k = job_key j then Some j else st_Jobs s k)"
  "st_JobVersions (put_job j s) = insert j (st_JobVersions s)"
  by (simp_all add: put_job_def)

lemma was_completed_put [simp]:
  "was_completed (put_task t s) k \<longleftrightarrow> was_completed s k \<or> task_key t = k \<and> is_completed t"
  "was_completed (put_job j s) k \<longleftrightarrow> was_completed s k"
  by (auto simp: was_completed_def)

lemma sequential_put_job [simp]: "sequential (put_job j s) = sequential s"
  by (simp add: sequential_def fun_eq_iff)

text \<open>A list of Completed Tasks of a Job is no longer than the Job's Tasks are, and when it is as long,
  these have all been completed.\<close>

lemma listed_slot:
  assumes good: "good index gvs s" and j: "st_Jobs s (job_key j) = Some j" and seq: "sequential s j n"
    and index: "\<And>t t'. task_ObjectMeta t = task_ObjectMeta t' \<Longrightarrow> index (TaskObject t) = index (TaskObject t')"
    and t: "t \<in> st_TaskVersions s" "job_Name j \<in> set (index (TaskObject t))" "task_Namespace t = job_Namespace j"
  obtains i where "i < n" and "task_key t = slot_key j i"
proof -
  from good_task_version [OF good t(1)] obtain cur
    where cur: "st_Tasks s (task_key t) = Some cur" "task_ObjectMeta cur = task_ObjectMeta t" by blast
  from good_task [OF good cur(1)] obtain j' i
    where j': "st_Jobs s (job_key j') = Some j'" "task_key t = slot_key j' i" "index (TaskObject cur) = [job_Name j']"
    by blast
  have "job_Name j' = job_Name j" using j'(3) t(2) index [OF cur(2)] by simp
  moreover have "job_Namespace j' = job_Namespace j"
    using j'(2) t(3) by (simp add: slot_key_def object_key_def)
  ultimately have "job_key j' = job_key j" by (simp add: object_key_def)
  then have key: "task_key t = slot_key j i" using j'(2) by (simp add: slot_key_inject)
  then have "i < n" using cur(1) seq by (auto simp: sequential_def)
  with key that show thesis by blast
qed

lemma listing_counts:
  assumes good: "good index gvs s" and j: "st_Jobs s (job_key j) = Some j" and seq: "sequential s j n"
    and index: "\<And>t t'. task_ObjectMeta t = task_ObjectMeta t' \<Longrightarrow> index (TaskObject t) = index (TaskObject t')"
    and list: "listing index s (job_Name j) (job_Namespace j) ts" and all: "list_all is_completed ts"
  shows "length ts \<le> n \<and> (length ts = n \<longrightarrow> (\<forall>i < n. was_completed s (slot_key j i)))"
proof -
  have slot: "\<exists>i. i < n \<and> task_key t = slot_key j i \<and> was_completed s (slot_key j i)" if "t \<in> set ts" for t
  proof -
    have t: "t \<in> st_TaskVersions s" "job_Name j \<in> set (index (TaskObject t))" "task_Namespace t = job_Namespace j"
      "is_completed t"
      using that list all by (auto simp: listing_def list_all_iff)
    obtain i where i: "i < n" "task_key t = slot_key j i" by (rule listed_slot [OF good j seq index t(1-3)])
    moreover have "was_completed s (slot_key j i)"
      unfolding was_completed_def by (rule bexI [OF _ t(1)]) (simp add: i(2) t(4))
    ultimately show ?thesis by blast
  qed
  have sub: "set (map task_key ts) \<subseteq> slot_key j ` {..<n}" using slot by force
  have inj: "inj_on (slot_key j) {..<n}" by (auto simp: inj_on_def slot_key_inject)
  have card: "card (set (map task_key ts)) = length ts"
    using list by (metis distinct_card length_map listing_def)
  have "length ts \<le> n"
    using card_mono [OF _ sub] card card_image [OF inj] by simp
  moreover have "was_completed s (slot_key j i)" if len: "length ts = n" and i: "i < n" for i
  proof -
    have "set (map task_key ts) = slot_key j ` {..<n}"
      using card_subset_eq [OF _ sub] card card_image [OF inj] len by simp
    then obtain t where "t \<in> set ts" "task_key t = slot_key j i" using i by force
    with slot [of t] show ?thesis by (auto simp: slot_key_inject)
  qed
  ultimately show ?thesis by blast
qed

text \<open>A patch of a Task, which a stale base may have computed.\<close>

lemma patched_task_keep [simp]:
  "task_ObjectMeta (patched_task b t cur) = task_ObjectMeta cur" "task_Spec (patched_task b t cur) = task_Spec cur"
  by (simp_all add: patched_task_def)

lemma patched_task_base: "task_Spec t = task_Spec b \<Longrightarrow> task_ObjectMeta t = task_ObjectMeta b \<Longrightarrow>
    Task_HasCondition (patched_task b t b) = Task_HasCondition t"
  by (rule tq.has_cong) (simp add: patched_task_def)

lemma sequential_patch_task:
  assumes seq: "sequential s j n" and cur: "st_Tasks s (task_key t) = Some cur" and spec: "task_Spec t = task_Spec cur"
  shows "sequential (put_task t s) j n"
proof -
  have dom: "(st_Tasks (put_task t s) k \<noteq> None) = (st_Tasks s k \<noteq> None)" for k
    using cur by simp
  have action: "task_action t' = jsp_Tasks (job_Spec j) ! i"
    if t': "st_Tasks (put_task t s) (slot_key j i) = Some t'" for i t'
  proof -
    obtain v where "st_Tasks s (slot_key j i) = Some v" "task_action t' = task_action v"
      using t' cur spec by (auto split: if_splits)
    with seq show ?thesis by (simp add: sequential_def)
  qed
  show ?thesis using seq action unfolding sequential_def dom was_completed_put by blast
qed

lemma good_patch_task:
  assumes good: "good index gvs s" and cur: "st_Tasks s (task_key t) = Some cur"
    and keep: "task_Spec t = task_Spec cur" "task_ObjectMeta t = task_ObjectMeta cur"
    and index: "\<And>t t'. task_ObjectMeta t = task_ObjectMeta t' \<Longrightarrow> index (TaskObject t) = index (TaskObject t')"
  shows "good index gvs (put_task t s)"
proof (rule goodI)
  show "job_key j = k \<and> typed gvs j \<and> (\<exists>n. sequential (put_task t s) j n)"
    if "st_Jobs (put_task t s) k = Some j" for k j
    using good_job [OF good, of k j] that sequential_patch_task [OF _ cur keep(1)] by auto
  show "\<exists>cur. st_Jobs (put_task t s) (job_key j) = Some cur \<and> same_job j cur"
    if "j \<in> st_JobVersions (put_task t s)" for j
    using good_version [OF good, of j] that by simp
  show "task_key t' = k \<and> (\<exists>j i. st_Jobs (put_task t s) (job_key j) = Some j \<and> k = slot_key j i \<and>
      index (TaskObject t') = [job_Name j])" if "st_Tasks (put_task t s) k = Some t'" for k t'
    using good_task [OF good, of k t'] good_task [OF good cur] index [OF keep(2)] that by (auto split: if_splits)
  show "\<exists>cur. st_Tasks (put_task t s) (task_key v) = Some cur \<and> task_ObjectMeta cur = task_ObjectMeta v"
    if "v \<in> st_TaskVersions (put_task t s)" for v
  proof (cases "v = t")
    case False
    with that have "v \<in> st_TaskVersions s" by simp
    from good_task_version [OF good this] obtain cur' where "st_Tasks s (task_key v) = Some cur'"
      "task_ObjectMeta cur' = task_ObjectMeta v" by blast
    then show ?thesis using cur keep(2) by (cases "task_key v = task_key t") simp_all
  qed simp
qed

text \<open>A patch of a Job, which a stale base may have computed.\<close>

lemma patched_job_keep [simp]:
  "job_ObjectMeta (patched_job b j cur) = job_ObjectMeta cur" "job_Spec (patched_job b j cur) = job_Spec cur"
  "job_TypeMeta (patched_job b j cur) = job_TypeMeta cur"
  by (simp_all add: patched_job_def)

lemma job_phase_conds: "job_conds j = job_conds j' \<Longrightarrow> job_phase j = job_phase j'"
  by (simp add: job_phase_def jq.has_cong [of j j'])

lemma patched_job_phase: "job_phase (patched_job b j cur) \<in> {job_phase cur, job_phase j}"
proof -
  have "job_conds (patched_job b j cur) = job_conds cur \<or> job_conds (patched_job b j cur) = job_conds j"
    by (simp add: patched_job_def patch_job_status_def patched_def)
  then show ?thesis using job_phase_conds by blast
qed

lemma slot_key_same: "job_ObjectMeta j = job_ObjectMeta j' \<Longrightarrow> slot_key j = slot_key j'"
  by (simp add: slot_key_def FormatTaskName_def fun_eq_iff)

lemma sequential_same:
  assumes "sequential s cur n" and "same_job j cur" and "st_Tasks s' = st_Tasks s"
    and "st_TaskVersions s' = st_TaskVersions s"
    and "job_phase j = Succeeded \<Longrightarrow> n = wanted_tasks cur \<and> (\<forall>i < n. was_completed s (slot_key cur i))"
  shows "sequential s' j n"
  using assms by (auto simp: sequential_def same_job_simps was_completed_def)

lemma good_put_job:
  assumes good: "good index gvs s" and cur: "st_Jobs s (job_key j) = Some cur" and same: "same_job j cur"
    and index: "\<And>t t'. task_ObjectMeta t = task_ObjectMeta t' \<Longrightarrow> index (TaskObject t) = index (TaskObject t')"
    and fin: "job_phase j = Succeeded \<Longrightarrow> job_phase cur = Succeeded \<or>
      (\<exists>ts. listing index s (job_Name j) (job_Namespace j) ts \<and> list_all is_completed ts \<and>
        length ts = wanted_tasks j)"
  shows "good index gvs (put_job j s)"
proof -
  from good_job [OF good cur] obtain n
    where key: "job_key cur = job_key j" and cur_typed: "typed gvs cur" and seq: "sequential s cur n" by blast
  have typed: "typed gvs j" using cur_typed same by (simp add: typed_def same_job_def)
  have seq': "sequential s j n"
  proof (rule sequential_same [OF seq same refl refl])
    assume "job_phase j = Succeeded"
    then consider "job_phase cur = Succeeded"
      | ts where "listing index s (job_Name j) (job_Namespace j) ts" "list_all is_completed ts"
        "length ts = wanted_tasks j"
      using fin by blast
    then show "n = wanted_tasks cur \<and> (\<forall>i < n. was_completed s (slot_key cur i))"
    proof cases
      case 1
      then show ?thesis using seq by (simp add: sequential_def)
    next
      case 2
      have names: "job_Name j = job_Name cur" "job_Namespace j = job_Namespace cur" "job_Spec j = job_Spec cur"
        using same by (simp_all add: same_job_def)
      have stored: "st_Jobs s (job_key cur) = Some cur" using cur key by simp
      have list: "listing index s (job_Name cur) (job_Namespace cur) ts" using 2(1) names by simp
      from listing_counts [OF good stored seq index list 2(2)] 2(3) names(3)
      have "wanted_tasks cur \<le> n \<and> (wanted_tasks cur = n \<longrightarrow> (\<forall>i < n. was_completed s (slot_key cur i)))"
        by simp
      moreover have "n \<le> wanted_tasks cur" using seq by (simp add: sequential_def)
      ultimately show ?thesis by simp
    qed
  qed
  show ?thesis
  proof (rule goodI)
    show "job_key j' = k \<and> typed gvs j' \<and> (\<exists>n. sequential (put_job j s) j' n)"
      if "st_Jobs (put_job j s) k = Some j'" for k j'
      using that good_job [OF good, of k j'] typed seq' by (auto split: if_splits)
    show "\<exists>cur. st_Jobs (put_job j s) (job_key v) = Some cur \<and> same_job v cur"
      if "v \<in> st_JobVersions (put_job j s)" for v
      using that good_version [OF good, of v] cur same by (auto simp: same_job_def)
    show "task_key t = k \<and> (\<exists>j' i. st_Jobs (put_job j s) (job_key j') = Some j' \<and> k = slot_key j' i \<and>
        index (TaskObject t) = [job_Name j'])" if "st_Tasks (put_job j s) k = Some t" for k t
    proof -
      from that have "st_Tasks s k = Some t" by simp
      from good_task [OF good this] obtain j' i where t: "task_key t = k"
        and j': "st_Jobs s (job_key j') = Some j'" "k = slot_key j' i" "index (TaskObject t) = [job_Name j']"
        by blast
      show ?thesis
      proof (cases "job_key j' = job_key j")
        case True
        then have "j' = cur" using j'(1) cur by simp
        then have "slot_key j = slot_key j'" "job_Name j = job_Name j'"
          using same same_job_simps(2) [OF same] by (simp_all add: same_job_def)
        then show ?thesis using t j'(2,3) by (intro conjI exI [of _ j] exI [of _ i]) simp_all
      next
        case False
        then show ?thesis using t j' by (intro conjI exI [of _ j'] exI [of _ i]) simp_all
      qed
    qed
    show "\<exists>cur. st_Tasks (put_job j s) (task_key t) = Some cur \<and> task_ObjectMeta cur = task_ObjectMeta t"
      if "t \<in> st_TaskVersions (put_job j s)" for t
      using that good_task_version [OF good, of t] by simp
  qed
qed

text \<open>A new Job.\<close>

lemma good_submit:
  assumes good: "good index gvs s" and new: "submitted gvs j" and free: "st_Jobs s (job_key j) = None"
  shows "good index gvs (put_job j s)"
proof (rule goodI)
  have empty: "st_Tasks s (slot_key j i) = None" for i
  proof (rule ccontr)
    assume "st_Tasks s (slot_key j i) \<noteq> None"
    then obtain t where "st_Tasks s (slot_key j i) = Some t" by blast
    from good_task [OF good this] free show False by (auto simp: slot_key_inject)
  qed
  have "job_phase j \<noteq> Succeeded" using new by (simp add: submitted_def job_phase_def Job_HasCondition_def)
  then have "sequential s j 0" by (simp add: sequential_def empty)
  moreover have "typed gvs j" using new by (simp add: submitted_def typed_def)
  ultimately show "job_key j' = k \<and> typed gvs j' \<and> (\<exists>n. sequential (put_job j s) j' n)"
    if "st_Jobs (put_job j s) k = Some j'" for k j'
    using that good_job [OF good, of k j'] by (auto split: if_splits)
  show "\<exists>cur. st_Jobs (put_job j s) (job_key v) = Some cur \<and> same_job v cur"
    if "v \<in> st_JobVersions (put_job j s)" for v
    using that good_version [OF good, of v] free by (auto simp: same_job_def)
  show "task_key t = k \<and> (\<exists>j' i. st_Jobs (put_job j s) (job_key j') = Some j' \<and> k = slot_key j' i \<and>
      index (TaskObject t) = [job_Name j'])" if "st_Tasks (put_job j s) k = Some t" for k t
  proof -
    from that have "st_Tasks s k = Some t" by simp
    from good_task [OF good this] obtain j' i where t: "task_key t = k"
      and j': "st_Jobs s (job_key j') = Some j'" "k = slot_key j' i" "index (TaskObject t) = [job_Name j']"
      by blast
    moreover have "job_key j' \<noteq> job_key j" using j'(1) free by auto
    ultimately show ?thesis by (intro conjI exI [of _ j'] exI [of _ i]) simp_all
  qed
  show "\<exists>cur. st_Tasks (put_job j s) (task_key t) = Some cur \<and> task_ObjectMeta cur = task_ObjectMeta t"
    if "t \<in> st_TaskVersions (put_job j s)" for t
    using that good_task_version [OF good, of t] by simp
qed

text \<open>A new Task: the next one of a Job all of whose Tasks are Completed.\<close>

lemma good_create_task:
  assumes good: "good index gvs s" and j: "st_Jobs s (job_key j) = Some j"
    and index: "\<And>t t'. task_ObjectMeta t = task_ObjectMeta t' \<Longrightarrow> index (TaskObject t) = index (TaskObject t')"
    and owner: "index (TaskObject (next_task j k m)) = [job_Name j]"
    and list: "listing index s (job_Name j) (job_Namespace j) ts" "list_all is_completed ts"
    and k: "length ts = k" "k < wanted_tasks j"
    and free: "st_Tasks s (slot_key j k) = None"
  shows "good index gvs (put_task (next_task j k m) s)"
proof -
  let ?t = "next_task j k m"
  from good_job [OF good j] obtain n where seq: "sequential s j n" by blast
  from listing_counts [OF good j seq index list] k(1)
  have "k \<le> n" and full: "k = n \<Longrightarrow> i < n \<Longrightarrow> was_completed s (slot_key j i)" for i
    by auto
  moreover have "n \<le> k" using seq free unfolding sequential_def by (metis leI)
  ultimately have n: "k = n" by simp
  have seq': "sequential (put_task ?t s) j (Suc k)"
    using seq full [OF n] k(2) n
    by (auto simp: sequential_def slot_key_next slot_key_inject next_task_action less_Suc_eq)
  have other: "sequential (put_task ?t s) j' = sequential s j'" if "job_key j' \<noteq> job_key j" for j'
    using that by (simp add: sequential_def slot_key_next slot_key_inject fun_eq_iff)
  show ?thesis
  proof (rule goodI)
    show "job_key j' = key \<and> typed gvs j' \<and> (\<exists>n. sequential (put_task ?t s) j' n)"
      if "st_Jobs (put_task ?t s) key = Some j'" for key j'
    proof -
      have j': "st_Jobs s key = Some j'" using that by simp
      note g = good_job [OF good j']
      show ?thesis
      proof (cases "job_key j' = job_key j")
        case True
        then have "j' = j" using j j' g by simp
        then show ?thesis using g seq' by blast
      next
        case False
        then show ?thesis using g other by simp
      qed
    qed
    show "\<exists>cur. st_Jobs (put_task ?t s) (job_key v) = Some cur \<and> same_job v cur"
      if "v \<in> st_JobVersions (put_task ?t s)" for v
      using that good_version [OF good, of v] by simp
    show "task_key t = key \<and> (\<exists>j i. st_Jobs (put_task ?t s) (job_key j) = Some j \<and> key = slot_key j i \<and>
        index (TaskObject t) = [job_Name j])" if "st_Tasks (put_task ?t s) key = Some t" for key t
      using that good_task [OF good, of key t] j owner by (auto simp: slot_key_next split: if_splits)
    show "\<exists>cur. st_Tasks (put_task ?t s) (task_key v) = Some cur \<and> task_ObjectMeta cur = task_ObjectMeta v"
      if "v \<in> st_TaskVersions (put_task ?t s)" for v
      using that good_task_version [OF good, of v] free by (auto simp: slot_key_next)
  qed
qed

lemma index_meta: "task_ObjectMeta t = task_ObjectMeta t' \<Longrightarrow>
    TaskOwnerIndexFunc g gvs (TaskObject t) = TaskOwnerIndexFunc g gvs (TaskObject t')"
  by (simp add: TaskOwnerIndexFunc_def)

lemma index_next: "controller_of_docs g \<Longrightarrow> typed gvs j \<Longrightarrow>
    TaskOwnerIndexFunc g gvs (TaskObject (next_task j k m)) = [job_Name j]"
  by (simp add: next_task_def typed_def owner_index_task_for)

section \<open>What the system needs of the controllers\<close>

text \<open>
  The contract of the runs: only the Job controller creates Tasks and patches Jobs, only the Task
  controller patches Tasks, and each of these calls follows from the calls the same run has
  made before.
\<close>

locale reconcilers =
  fixes runs :: "kind \<Rightarrow> NamespacedName \<Rightarrow> outcome \<Rightarrow> 'c trace \<Rightarrow> bool"
  assumes creates: "runs kind req out (d @ ECreateTask t c # r) \<Longrightarrow>
      \<exists>j m ts. EGetJob req (Inr j) \<in> set d \<and>
        EListTasks (job_Name j) (job_Namespace j) (Inr ts) \<in> set d \<and>
        list_all is_completed ts \<and> length ts < wanted_tasks j \<and> t = next_task j (length ts) m"
    and patches_job: "runs kind req out (d @ EPatchJob j b c # r) \<Longrightarrow>
      same_job j b \<and> EGetJob req (Inr b) \<in> set d \<and>
      (job_phase j = Succeeded \<longrightarrow> (\<exists>ts. EListTasks (job_Name b) (job_Namespace b) (Inr ts) \<in> set d \<and>
        list_all is_completed ts \<and> length ts = wanted_tasks b))"
    and patches_task: "runs kind req out (d @ EPatchTask t tb c # r) \<Longrightarrow>
      task_Spec t = task_Spec tb \<and> task_ObjectMeta t = task_ObjectMeta tb \<and> \<not> is_completed tb"
    and panics: "runs JobRun req (Panic m) h \<Longrightarrow>
      \<exists>j ts. EGetJob req (Inr j) \<in> set h \<and>
        EListTasks (job_Name j) (job_Namespace j) (Inr ts) \<in> set h \<and>
        list_all is_completed ts \<and> wanted_tasks j < length ts"
begin

definition sound_run :: "(client_object \<Rightarrow> string list) \<Rightarrow> api_state \<Rightarrow> 'c run \<Rightarrow> bool" where
  "sound_run index s x \<longleftrightarrow> (case x of (kind, req, out, d, r) \<Rightarrow>
     runs kind req out (d @ r) \<and> (\<forall>e \<in> set d. recalled index s e))"

lemma sound_run_mono:
  "sound_run index s x \<Longrightarrow> serve fresh index s e s' \<Longrightarrow> sound_run index s' x"
  using serve_mono [of fresh index s e s'] by (auto simp: sound_run_def recalled_mono)

lemma sound_run_call:
  "sound_run index s (kind, req, out, d, e # r) \<Longrightarrow> serve fresh index s e s' \<Longrightarrow>
    sound_run index s' (kind, req, out, d @ [e], r)"
  using serve_mono [of fresh index s e s'] serve_recalled [of fresh index s e s']
  by (auto simp: sound_run_def recalled_mono)

lemma recalled_job:
  assumes "good index gvs s" and "sound_run index s (kind, req, out, d, r)" and "EGetJob req (Inr j) \<in> set d"
  obtains cur where "st_Jobs s (job_key j) = Some cur" and "same_job j cur"
    and "st_Jobs s (job_key cur) = Some cur"
proof -
  have "j \<in> st_JobVersions s" using assms(2,3) by (force simp: sound_run_def recalled_def)
  from good_version [OF assms(1) this] obtain cur
    where cur: "st_Jobs s (job_key j) = Some cur" "same_job j cur" by blast
  moreover have "job_key cur = job_key j" using good_job [OF assms(1) cur(1)] by simp
  ultimately show thesis using that by simp
qed

lemma recalled_listing:
  assumes "sound_run index s (kind, req, out, d, r)" and "EListTasks n ns (Inr ts) \<in> set d"
  shows "listing index s n ns ts"
  using assms by (force simp: sound_run_def recalled_def)

text \<open>One call keeps the invariant.\<close>

lemma good_call:
  assumes good: "good index gvs s" and run: "sound_run index s (kind, req, out, d, e # r)"
    and serve: "serve fresh index s e s'"
    and index: "\<And>t t'. task_ObjectMeta t = task_ObjectMeta t' \<Longrightarrow> index (TaskObject t) = index (TaskObject t')"
    and owner: "\<And>j k m. typed gvs j \<Longrightarrow> index (TaskObject (next_task j k m)) = [job_Name j]"
  shows "good index gvs s'"
  using serve
proof (cases rule: serve.cases)
  case (create_task t c)
  from run create_task(1) have "runs kind req out (d @ ECreateTask t c # r)" by (simp add: sound_run_def)
  from creates [OF this] obtain j m ts where j: "EGetJob req (Inr j) \<in> set d"
    and list: "EListTasks (job_Name j) (job_Namespace j) (Inr ts) \<in> set d" "list_all is_completed ts"
      "length ts < wanted_tasks j" and t: "t = next_task j (length ts) m" by blast
  from recalled_job [OF good run j] obtain cur where cur: "same_job j cur" "st_Jobs s (job_key cur) = Some cur"
    by blast
  have names: "job_Name j = job_Name cur" "job_Namespace j = job_Namespace cur" "job_Spec j = job_Spec cur"
    using cur(1) by (simp_all add: same_job_def)
  have t': "t = next_task cur (length ts) m"
    using t cur(1) by (simp add: same_job_def next_task_def task_for_def FormatTaskName_def)
  have "typed gvs cur" using good_job [OF good cur(2)] by blast
  moreover have "listing index s (job_Name cur) (job_Namespace cur) ts"
    using recalled_listing [OF run list(1)] names by simp
  moreover have "st_Tasks s (slot_key cur (length ts)) = None"
    using create_task(3) t' by (simp add: slot_key_next)
  ultimately show ?thesis
    using good_create_task [OF good cur(2) index owner _ list(2) refl] list(3) names(3) t' create_task(2) by simp
next
  case (patch_job j cur b c)
  from run patch_job(1) have "runs kind req out (d @ EPatchJob j b c # r)" by (simp add: sound_run_def)
  from patches_job [OF this] have same: "same_job j b" and b: "EGetJob req (Inr b) \<in> set d"
    and fin: "job_phase j = Succeeded \<Longrightarrow> \<exists>ts. EListTasks (job_Name b) (job_Namespace b) (Inr ts) \<in> set d \<and>
      list_all is_completed ts \<and> length ts = wanted_tasks b" by blast+
  from recalled_job [OF good run b] obtain cur' where cur': "st_Jobs s (job_key b) = Some cur'" "same_job b cur'"
    by blast
  have "job_key j = job_key b" using same by (simp add: same_job_def)
  then have "cur' = cur" using cur'(1) patch_job(3) by simp
  with cur'(2) have same': "same_job b cur" by simp
  let ?new = "patched_job b j cur"
  have key: "job_key cur = job_key j" using good_job [OF good patch_job(3)] by simp
  have "good index gvs (put_job ?new s)"
  proof (rule good_put_job [OF good _ _ index])
    show "st_Jobs s (job_key ?new) = Some cur" using patch_job(3) key by simp
    show "same_job ?new cur" by (simp add: same_job_def)
    assume "job_phase ?new = Succeeded"
    then consider "job_phase cur = Succeeded" | "job_phase j = Succeeded"
      using patched_job_phase [of b j cur] by auto
    then show "job_phase cur = Succeeded \<or> (\<exists>ts. listing index s (job_Name ?new) (job_Namespace ?new) ts \<and>
        list_all is_completed ts \<and> length ts = wanted_tasks ?new)"
    proof cases
      case 2
      from fin [OF 2] obtain ts where "EListTasks (job_Name b) (job_Namespace b) (Inr ts) \<in> set d"
        "list_all is_completed ts" "length ts = wanted_tasks b" by blast
      then show ?thesis
        using recalled_listing [OF run] same' by (auto simp: same_job_def)
    qed simp
  qed
  then show ?thesis using patch_job(2) by simp
next
  case (patch_task t cur b c)
  have "task_key (patched_task b t cur) = task_key cur" by simp
  also have "\<dots> = task_key t" using good_task [OF good patch_task(3)] by blast
  finally have "st_Tasks s (task_key (patched_task b t cur)) = Some cur" using patch_task(3) by simp
  from good_patch_task [OF good this _ _ index] patch_task(2) show ?thesis by simp
qed (simp_all add: good)

lemma stays_completed_call:
  assumes good: "good index gvs s" and stays: "stays_completed s"
    and run: "sound_run index s (kind, req, out, d, e # r)" and serve: "serve True index s e s'"
  shows "stays_completed s'"
  using serve
proof (cases rule: serve.cases)
  case (create_task t c)
  then show ?thesis using stays by (auto simp: stays_completed_def)
next
  case (patch_job j cur b c)
  then show ?thesis using stays by (simp add: stays_completed_def)
next
  case (patch_task t cur b c)
  from run patch_task(1) have "runs kind req out (d @ EPatchTask t b c # r)" by (simp add: sound_run_def)
  from patches_task [OF this] have "\<not> is_completed cur" using patch_task(4) by simp
  moreover have "task_key (patched_task b t cur) = task_key t"
    using good_task [OF good patch_task(3)] by simp
  ultimately show ?thesis using stays patch_task by (fastforce simp: stays_completed_def)
qed (simp_all add: stays)

lemma reach_good:
  assumes "reach fresh runs g gvs s rs" and docs: "controller_of_docs g"
  shows "good (TaskOwnerIndexFunc g gvs) gvs s \<and> list_all (sound_run (TaskOwnerIndexFunc g gvs) s) rs \<and>
    (fresh \<longrightarrow> stays_completed s)"
  using assms(1)
proof (induction rule: reach.induct)
  case start
  then show ?case by (simp add: good_def empty_state_def stays_completed_def was_completed_def)
next
  case (submit s rs j)
  have "sound_run index s x \<Longrightarrow> sound_run index (put_job j s) x" for index x
    by (auto simp: sound_run_def intro: recalled_mono)
  with submit good_submit show ?case by (auto simp: list_all_iff stays_completed_def)
next
  case (launch s rs kind req out h)
  then show ?case by (simp add: sound_run_def)
next
  case (call s rs kind req out d e r rs' s')
  let ?ix = "TaskOwnerIndexFunc g gvs"
  have run: "sound_run ?ix s (kind, req, out, d, e # r)" using call.IH by simp
  have "good ?ix gvs s'"
    using call.IH by (intro good_call [OF _ run call.hyps(2) index_meta index_next [OF docs]]) auto
  moreover have "list_all (sound_run ?ix s') (rs @ (kind, req, out, d @ [e], r) # rs')"
    using call.IH sound_run_mono [OF _ call.hyps(2)] sound_run_call [OF run call.hyps(2)]
    by (auto simp: list_all_iff)
  moreover have "fresh \<longrightarrow> stays_completed s'"
    using call.IH call.hyps(2) by (auto intro: stays_completed_call [OF _ _ run])
  ultimately show ?case by blast
next
  case (crash s rs x rs')
  then show ?case by simp
qed

text \<open>Job controller runs that have made all their calls have not panicked.\<close>

lemma reach_no_panic:
  assumes "reach fresh runs g gvs s rs" and "controller_of_docs g" and "(JobRun, req, out, d, []) \<in> set rs"
  shows "out \<noteq> Panic m"
proof
  let ?ix = "TaskOwnerIndexFunc g gvs"
  assume "out = Panic m"
  from reach_good [OF assms(1,2)] assms(3)
  have good: "good ?ix gvs s" and run: "sound_run ?ix s (JobRun, req, out, d, [])" by (auto simp: list_all_iff)
  then have "runs JobRun req (Panic m) d" using \<open>out = Panic m\<close> by (simp add: sound_run_def)
  from panics [OF this] obtain j ts where j: "EGetJob req (Inr j) \<in> set d"
    and list: "EListTasks (job_Name j) (job_Namespace j) (Inr ts) \<in> set d" "list_all is_completed ts"
      "wanted_tasks j < length ts" by blast
  from recalled_job [OF good run j] obtain cur where cur: "same_job j cur" "st_Jobs s (job_key cur) = Some cur"
    by blast
  from good_job [OF good cur(2)] obtain n where seq: "sequential s cur n" by blast
  have "listing ?ix s (job_Name cur) (job_Namespace cur) ts"
    using recalled_listing [OF run list(1)] cur(1) by (simp add: same_job_def)
  from listing_counts [OF good cur(2) seq index_meta this list(2)]
  have "length ts \<le> n" by simp
  moreover have "n \<le> wanted_tasks cur" using seq by (simp add: sequential_def)
  ultimately show False using list(3) cur(1) by (simp add: same_job_def)
qed

end

section \<open>The controllers keep the contract\<close>

lemma controller_run_paths:
  assumes "controller_run kind req out h"
  shows "(kind = MachineRun \<and> (\<exists>got. machine_path req got out h)) \<or>
    (kind = TaskRun \<and> (\<exists>clk got. task_path clk req got out h)) \<or>
    (kind = JobRun \<and> (\<exists>clk got. job_path clk req got out h))"
proof -
  obtain A where A: "(out, h) = (case kind of MachineRun \<Rightarrow> machine_run A req
    | TaskRun \<Rightarrow> task_run A req | JobRun \<Rightarrow> job_run A req)"
    using assms by (auto simp: controller_run_def)
  show ?thesis
  proof (cases kind)
    case MachineRun
    then show ?thesis using A machine_run_path [of req A] by (metis fst_conv kind.case(1) snd_conv)
  next
    case TaskRun
    then show ?thesis using A task_run_path [of A req] by (metis fst_conv kind.case(2) snd_conv)
  next
    case JobRun
    then show ?thesis using A job_run_path [of A req] by (metis fst_conv kind.case(3) snd_conv)
  qed
qed

lemma machine_path_silent:
  "machine_path req got out h \<Longrightarrow> created_tasks h = [] \<and> job_patches h = [] \<and> task_patches h = []"
  by (cases rule: machine_path.cases) auto

lemma observe_upto_open_rest [simp]:
  "secret_reads es \<Longrightarrow> created_tasks (upto_open req t es user pass opts conn) = []"
  "secret_reads es \<Longrightarrow> job_patches (upto_open req t es user pass opts conn) = []"
  by (simp_all add: upto_open_def)

lemma acted_settled_rest [simp]:
  "acted c a r ws \<Longrightarrow> created_tasks ws = []" "acted c a r ws \<Longrightarrow> job_patches ws = []"
  "settled c a reads \<Longrightarrow> created_tasks reads = []" "settled c a reads \<Longrightarrow> job_patches reads = []"
  using observe_writes [of c ws] by (auto simp: acted_def settled_def split: option.splits)

lemma task_path_calls:
  assumes "task_path clk req got out h"
  shows "created_tasks h = [] \<and> job_patches h = [] \<and>
    list_all (\<lambda>(t, b, c). task_Spec t = task_Spec b \<and> task_ObjectMeta t = task_ObjectMeta b \<and> \<not> task_finished b)
      (task_patches h)"
  using assms by (cases rule: task_path.cases) auto

lemma task_patches_upto_list [simp]:
  "task_patches (upto_machine req j now m') = []" "task_patches (upto_list req j now m ts) = []"
  by (simp_all add: upto_list_def upto_machine_def)

lemma job_path_no_task_patch: "job_path clk req got out h \<Longrightarrow> task_patches h = []"
  by (cases rule: job_path.cases) auto

lemma in_upto_list [simp]:
  "EGetJob req (Inr j) \<in> set (upto_list req j now m ts)"
  "EListTasks (job_Name j) (job_Namespace j) ts \<in> set (upto_list req j now m ts)"
  by (simp_all add: upto_list_def upto_machine_def)

lemma job_path_creates:
  assumes "job_path clk req got out (d @ ECreateTask t c # r)"
  shows "\<exists>j m ts. EGetJob req (Inr j) \<in> set d \<and> EListTasks (job_Name j) (job_Namespace j) (Inr ts) \<in> set d \<and>
    list_all is_completed ts \<and> length ts < wanted_tasks j \<and> t = next_task j (length ts) m"
proof -
  have split: "\<exists>j m ts. EGetJob req (Inr j) \<in> set d \<and>
      EListTasks (job_Name j) (job_Namespace j) (Inr ts) \<in> set d \<and>
      list_all is_completed ts \<and> length ts < wanted_tasks j \<and> t = next_task j (length ts) m"
    if "d @ ECreateTask t c # r = upto_list req j now m (Inr ts) @ ECreateTask (next_task j k m) c' # [EPatchJob j' b r']"
      and "decide ts (wanted_tasks j) = Launch k" for j now m ts k c' j' b r'
    using split_at_creation [OF that(1)] that(2) by (intro exI [of _ j] exI [of _ m] exI [of _ ts]) (auto simp: decide_simps)
  from assms have one: "created_tasks (d @ ECreateTask t c # r) \<noteq> []" by simp
  from assms show ?thesis
  proof (cases rule: job_path.cases)
    case launched
    then show ?thesis using split by blast
  next
    case launch_failed
    then show ?thesis using split by blast
  qed (use one in auto)
qed

lemma job_path_patches:
  assumes "job_path clk req got out (d @ EPatchJob j' b c # r)"
  shows "same_job j' b \<and> EGetJob req (Inr b) \<in> set d \<and>
    (job_phase j' = Succeeded \<longrightarrow> (\<exists>ts. EListTasks (job_Name b) (job_Namespace b) (Inr ts) \<in> set d \<and>
      list_all is_completed ts \<and> length ts = wanted_tasks b))"
proof -
  have split: "d = upto_list req j now m (Inr ts) @ xs \<and> j' = new \<and> b = j"
    if "d @ EPatchJob j' b c # r = upto_list req j now m (Inr ts) @ xs @ [EPatchJob new j c']"
      and "job_patches xs = []" for j now m ts xs new c'
    using split_at_job_patch [of d j' b c r "upto_list req j now m (Inr ts) @ xs" new j c' "[]"] that by simp
  from assms have one: "job_patches (d @ EPatchJob j' b c # r) \<noteq> []" by simp
  from assms show ?thesis
  proof (cases rule: job_path.cases)
    case (task_failed j tasks t err new now r' m)
    then show ?thesis using split [of j now m tasks "[]" new r'] by (auto simp: same_job_def)
  next
    case (completed j tasks fin now m new r')
    then show ?thesis
      using split [of j now m tasks "[ENow fin]" new r']
      by (auto simp: same_job_def decide_simps intro!: exI [of _ tasks])
  next
    case (launched j tasks k t m new now r')
    then show ?thesis
      using split [of j now m tasks "[ECreateTask t None]" new r'] by (auto simp: same_job_def)
  next
    case (launch_failed j tasks k t m err e new now r')
    then show ?thesis
      using split [of j now m tasks "[ECreateTask t (Some e)]" new r'] by (auto simp: same_job_def)
  qed (use one in auto)
qed

lemma job_path_panics:
  "job_path clk req got (Panic msg) h \<Longrightarrow> \<exists>j ts. EGetJob req (Inr j) \<in> set h \<and>
    EListTasks (job_Name j) (job_Namespace j) (Inr ts) \<in> set h \<and> list_all is_completed ts \<and> wanted_tasks j < length ts"
  by (cases rule: job_path.cases) (force simp: decide_simps job_failure_def job_success_def)+

interpretation controllers: reconcilers controller_run
proof unfold_locales
  fix kind req out and d r :: "'c trace" and t c
  assume "controller_run kind req out (d @ ECreateTask t c # r)"
  then show "\<exists>j m ts. EGetJob req (Inr j) \<in> set d \<and>
      EListTasks (job_Name j) (job_Namespace j) (Inr ts) \<in> set d \<and>
      list_all is_completed ts \<and> length ts < wanted_tasks j \<and> t = next_task j (length ts) m"
    using job_path_creates by (auto dest!: controller_run_paths dest: machine_path_silent task_path_calls)
next
  fix kind req out and d r :: "'c trace" and j b c
  assume "controller_run kind req out (d @ EPatchJob j b c # r)"
  then show "same_job j b \<and> EGetJob req (Inr b) \<in> set d \<and>
      (job_phase j = Succeeded \<longrightarrow> (\<exists>ts. EListTasks (job_Name b) (job_Namespace b) (Inr ts) \<in> set d \<and>
        list_all is_completed ts \<and> length ts = wanted_tasks b))"
    using job_path_patches by (fastforce dest!: controller_run_paths dest: machine_path_silent task_path_calls)
next
  fix kind req out and d r :: "'c trace" and t b c
  assume "controller_run kind req out (d @ EPatchTask t b c # r)"
  then show "task_Spec t = task_Spec b \<and> task_ObjectMeta t = task_ObjectMeta b \<and> \<not> is_completed b"
    by (auto simp: task_finished_def dest!: controller_run_paths
        dest: machine_path_silent task_path_calls job_path_no_task_patch)
next
  fix req m and h :: "'c trace"
  assume "controller_run JobRun req (Panic m) h"
  then show "\<exists>j ts. EGetJob req (Inr j) \<in> set h \<and>
      EListTasks (job_Name j) (job_Namespace j) (Inr ts) \<in> set h \<and>
      list_all is_completed ts \<and> wanted_tasks j < length ts"
    using job_path_panics by (fastforce dest!: controller_run_paths)
qed

end
