(* ===== verification/System_Example.thy ===== *)
theory System_Example
  imports System
begin

text \<open>
  A run of the whole system: a Job with two actions is submitted, the Job controller creates the first
  Task, the Task controller starts it and completes it, the same happens for the second, and the Job
  controller completes the Job.  The
  traces are those of the handlers, computed from their definitions.
\<close>

section \<open>Complete runs\<close>

inductive serves :: "bool \<Rightarrow> (client_object \<Rightarrow> string list) \<Rightarrow> api_state \<Rightarrow> 'c trace \<Rightarrow> api_state \<Rightarrow> bool"
  for fresh :: bool and index :: "client_object \<Rightarrow> string list" where
  none: "serves fresh index s [] s"
| more: "serve fresh index s e s' \<Longrightarrow> serves fresh index s' es s'' \<Longrightarrow> serves fresh index s (e # es) s''"

lemma reach_calls:
  assumes "serves fresh (TaskOwnerIndexFunc g gvs) s h s'"
    and "reach fresh runs g gvs s ((kind, req, out, d, h) # rs)"
  shows "reach fresh runs g gvs s' ((kind, req, out, d @ h, []) # rs)"
  using assms
proof (induction arbitrary: d rule: serves.induct)
  case (none s)
  then show ?case by simp
next
  case (more s e s' es s'')
  have "reach fresh runs g gvs s' ([] @ (kind, req, out, d @ [e], es) # rs)"
    using reach.call [of fresh runs g gvs s "[]"] more.prems more.hyps(1) by fastforce
  with more.IH [of "d @ [e]"] show ?case by simp
qed

lemma reach_run:
  assumes "reach fresh runs g gvs s rs" and "runs kind req out h" and "serves fresh (TaskOwnerIndexFunc g gvs) s h s'"
  shows "reach fresh runs g gvs s' ((kind, req, out, h, []) # rs)"
  using reach_calls [OF assms(3) reach.launch [OF assms(1,2)]] by simp

lemma reach_drop: "reach fresh runs g gvs s (x # rs) \<Longrightarrow> reach fresh runs g gvs s rs"
  using reach.crash [of fresh runs g gvs s "[]" x rs] by simp

lemma patched_job_same: "same_job j b \<Longrightarrow> patched_job b j b = j"
  by (simp add: patched_job_def same_job_def)

lemma patched_task_same: "b\<lparr>task_Status := task_Status t\<rparr> = t \<Longrightarrow> patched_task b t b = t"
  by (simp add: patched_task_def)

section \<open>The objects\<close>

definition example_job :: Job where
  "example_job = blank_job
     \<lparr>job_TypeMeta := \<lparr>tm_APIVersion = gv_string GroupVersion, tm_Kind = ''Job''\<rparr>,
      job_ObjectMeta := empty_ObjectMeta\<lparr>om_Name := ''j'', om_Namespace := ''ns''\<rparr>,
      job_Spec := \<lparr>jsp_MachineRef = \<lparr>mr_Name = ''m'', mr_Namespace = ''ns''\<rparr>,
        jsp_Tasks = [empty_Action, empty_Action]\<rparr>\<rparr>"

definition example_machine :: Machine where
  "example_machine = \<lparr>machine_TypeMeta = empty_TypeMeta, machine_ObjectMeta = empty_ObjectMeta,
     machine_Spec = \<lparr>msp_Connection = empty_Connection\<rparr>,
     machine_Status = \<lparr>ms_Power = [], ms_Conditions = []\<rparr>\<rparr>"

definition example_running :: Job where
  "example_running = running_job example_job 7"

definition example_completed :: Job where
  "example_completed = completed_job example_running 7"

text \<open>The Task for each of the two actions, as created, started and completed.\<close>

definition example_task :: "nat \<Rightarrow> Task" where
  "example_task i = next_task example_job i example_machine"

definition example_started :: "nat \<Rightarrow> Task" where
  "example_started i = task_set_start (example_task i) 7"

definition example_done :: "nat \<Rightarrow> Task" where
  "example_done i = mark_completed (example_started i) 7"

lemma example_keep [simp]:
  "job_Spec example_running = job_Spec example_job" "job_Spec example_completed = job_Spec example_job"
  "job_ObjectMeta example_running = job_ObjectMeta example_job"
  "job_ObjectMeta example_completed = job_ObjectMeta example_job"
  "job_TypeMeta example_running = job_TypeMeta example_job"
  "job_TypeMeta example_completed = job_TypeMeta example_job"
  "task_Spec (example_started i) = task_Spec (example_task i)" "task_Spec (example_done i) = task_Spec (example_task i)"
  "task_ObjectMeta (example_started i) = task_ObjectMeta (example_task i)"
  "task_ObjectMeta (example_done i) = task_ObjectMeta (example_task i)"
  by (simp_all add: example_running_def example_completed_def example_started_def example_done_def)

section \<open>The traces\<close>

text \<open>The world of \<open>steady_answers\<close>, with a Task as well.\<close>

definition example_answers :: "Job \<Rightarrow> Task list \<Rightarrow> Task \<Rightarrow> string answers" where
  "example_answers j tasks t = (steady_answers j tasks 7)
     \<lparr>aGetTask := (\<lambda>h k. Inr t),
      aGetSecret := (\<lambda>h k. Inr \<lparr>secret_Data = [''username'' \<mapsto> ''u'', ''password'' \<mapsto> ''p'']\<rparr>)\<rparr>"

lemma run_wp:
  "wp (job_Reconcile (rec_kube A) req) P [] \<Longrightarrow> P (fst (job_run A req)) (snd (job_run A req))"
  "wp (task_Reconcile (rec_kube A) (rec_bmc A) (rec_factory A) req) P [] \<Longrightarrow>
    P (fst (task_run A req)) (snd (task_run A req))"
  by (simp_all add: job_run_def task_run_def wp_def)

lemma example_facts [simp]:
  "\<not> job_is_running example_job" "job_is_running example_running"
  "\<not> Job_HasCondition example_job JobCompleted ConditionTrue"
  "\<not> Job_HasCondition example_job JobFailed ConditionTrue"
  "\<not> Job_HasCondition example_running JobCompleted ConditionTrue"
  "\<not> Job_HasCondition example_running JobFailed ConditionTrue"
  "Time_IsZero (om_DeletionTimestamp (job_ObjectMeta example_job))"
  "job_key example_job = nn ''ns'' ''j''" "job_Name example_job = ''j''" "job_Namespace example_job = ''ns''"
  "jsp_MachineRef (job_Spec example_job) = \<lparr>mr_Name = ''m'', mr_Namespace = ''ns''\<rparr>"
  "jsp_Tasks (job_Spec example_job) = [empty_Action, empty_Action]"
  "job_phase example_completed = Succeeded" "typed gv_string example_job" "job_conds example_job = []"
  by code_simp+

lemma example_task_facts [simp]:
  "\<not> is_completed (example_task i)" "\<not> is_failed (example_task i)"
  "\<not> is_completed (example_started i)" "\<not> is_failed (example_started i)"
  "is_completed (example_done i)"
  "ts_StartTime (task_Status (example_task i)) = None" "ts_StartTime (task_Status (example_started i)) = Some 7"
  "Time_IsZero (om_DeletionTimestamp (task_ObjectMeta (example_task i)))"
  "task_key (example_task i) = slot_key example_job i"
  "task_conn (example_task i) = empty_Connection" "task_Namespace (example_task i) = ''ns''"
  by (simp_all add: example_task_def example_started_def example_done_def next_task_def task_for_def Task_HasCondition_def
      has_condition_updates [unfolded Task_HasCondition_def] mark_completed_def task_set_start_def empty_TaskStatus_def
      slot_key_def object_key_def Time_IsZero_def example_machine_def)

lemma example_action [simp]: "i < 2 \<Longrightarrow> task_action (example_task i) = empty_Action"
  by (auto simp: example_task_def next_task_def task_for_def less_Suc_eq numeral_2_eq_2)

lemma example_next [simp]: "next_task example_running i example_machine = example_task i"
  by (simp add: example_running_def example_task_def)

lemma example_rerun [simp]: "running_job example_running n = example_running"
  by (simp add: running_job_def)

lemmas example_simps = wp_simps Let_def example_answers_def steady_answers_def machine_key_def
  example_machine_def [symmetric] example_running_def [symmetric] example_completed_def [symmetric]
  example_task_def [symmetric] example_started_def [symmetric] example_done_def [symmetric]

lemmas example_job_simps = job_Reconcile_def job_doReconcile_def wp_job_mark_running getMachine_def job_advance_def
  wp_job_next_task wp_job_complete next_task_running example_simps

lemma example_job_run1:
  "snd (job_run (example_answers example_job [] t) (nn ''ns'' ''j'')) =
    [EGetJob (nn ''ns'' ''j'') (Inr example_job), ENow 7,
     EGetMachine (nn ''ns'' ''m'') (Inr example_machine),
     EListTasks ''j'' ''ns'' (Inr []), ECreateTask (example_task 0) None,
     EPatchJob example_running example_job None]"
  by (rule run_wp(1)) (simp add: example_job_simps)

lemma example_job_run2:
  "snd (job_run (example_answers example_running [example_done 0] t) (nn ''ns'' ''j'')) =
    [EGetJob (nn ''ns'' ''j'') (Inr example_running),
     EGetMachine (nn ''ns'' ''m'') (Inr example_machine),
     EListTasks ''j'' ''ns'' (Inr [example_done 0]), ECreateTask (example_task 1) None,
     EPatchJob example_running example_running None]"
  by (rule run_wp(1)) (simp add: example_job_simps)

lemma example_job_run3:
  "snd (job_run (example_answers example_running [example_done 0, example_done 1] t) (nn ''ns'' ''j'')) =
    [EGetJob (nn ''ns'' ''j'') (Inr example_running),
     EGetMachine (nn ''ns'' ''m'') (Inr example_machine),
     EListTasks ''j'' ''ns'' (Inr [example_done 0, example_done 1]), ENow 7,
     EPatchJob example_completed example_running None]"
  by (rule run_wp(1)) (simp add: example_job_simps)

definition example_secret :: Secret where
  "example_secret = \<lparr>secret_Data = [''username'' \<mapsto> ''u'', ''password'' \<mapsto> ''p'']\<rparr>"

definition example_opts :: BMCOptions where
  "example_opts = \<lparr>bo_ProviderOptions = None, bo_rpcSecrets = None\<rparr>"

lemma example_task_start_run:
  assumes "i < 2"
  shows "snd (task_run (example_answers j ts (example_task i)) (slot_key example_job i)) =
    [EGetTask (slot_key example_job i) (Inr (example_task i)), EGetSecret (nn [] []) (Inr example_secret),
     EOpen [] ''u'' ''p'' (Some example_opts) (Inr []), ENow 7,
     EPatchTask (example_started i) (example_task i) None, EClose [] None]"
  by (rule run_wp(2))
    (simp add: assms task_Reconcile_def task_doReconcile_def task_body_def task_start_def wp_task_patchStatus
      connection_credentials_def resolveAuthSecretRef_def rpc_options_def empty_Connection_def secret_key_def
      runTask_def and_then_def run_power_def run_boot_device_def run_virtual_media_def empty_Action_def
      example_secret_def example_opts_def example_simps)

lemma example_task_check_run:
  assumes "i < 2"
  shows "snd (task_run (example_answers j ts (example_started i)) (slot_key example_job i)) =
    [EGetTask (slot_key example_job i) (Inr (example_started i)), EGetSecret (nn [] []) (Inr example_secret),
     EOpen [] ''u'' ''p'' (Some example_opts) (Inr []), ENow 7, ENow 7,
     EPatchTask (example_done i) (example_started i) None, EClose [] None]"
  by (rule run_wp(2))
    (simp add: assms task_Reconcile_def task_doReconcile_def task_body_def task_check_def checkTaskStatus_def
      wp_task_complete Result_IsZero_def Since_def task_timeout_def Minute_def Second_def min_duration_def max_duration_def
      connection_credentials_def resolveAuthSecretRef_def rpc_options_def empty_Connection_def secret_key_def
      empty_Action_def example_secret_def example_opts_def example_simps)

section \<open>The run\<close>

text \<open>The states of the API server: after the submission, and after each of the seven runs.\<close>

definition example_state :: "nat \<Rightarrow> api_state" where
  "example_state n = fold (\<lambda>f s. f s) (take n
     [put_job example_running \<circ> put_task (example_task 0), put_task (example_started 0), put_task (example_done 0),
      put_job example_running \<circ> put_task (example_task 1), put_task (example_started 1), put_task (example_done 1),
      put_job example_completed]) (put_job example_job empty_state)"

lemma example_state_simps:
  "example_state 0 = put_job example_job empty_state"
  "example_state 1 = put_job example_running (put_task (example_task 0) (example_state 0))"
  "example_state 2 = put_task (example_started 0) (example_state 1)"
  "example_state 3 = put_task (example_done 0) (example_state 2)"
  "example_state 4 = put_job example_running (put_task (example_task 1) (example_state 3))"
  "example_state 5 = put_task (example_started 1) (example_state 4)"
  "example_state 6 = put_task (example_done 1) (example_state 5)"
  "example_state 7 = put_job example_completed (example_state 6)"
  by (simp_all add: example_state_def eval_nat_numeral)

abbreviation example_index :: "client_object \<Rightarrow> string list" where
  "example_index \<equiv> TaskOwnerIndexFunc first_controller gv_string"

lemma example_key [simp]: "object_key (job_ObjectMeta example_job) = nn ''ns'' ''j''"
  by code_simp

lemma example_indexed [simp]: "example_index (TaskObject (example_done i)) = [''j'']"
proof -
  have "example_index (TaskObject (example_done i)) = example_index (TaskObject (example_task i))"
    by (rule index_meta) simp
  then show ?thesis
    using index_next [OF first_controller_docs, of gv_string example_job i example_machine]
    by (simp add: example_task_def [symmetric])
qed

lemma serve_put_job:
  "st_Jobs s (job_key j) = Some b \<Longrightarrow> same_job j b \<Longrightarrow> serve fresh index s (EPatchJob j b r) (put_job j s)"
  using serve.patch_job [of s j b fresh index b r] by (simp add: patched_job_same)

lemma serve_put_task:
  "st_Tasks s (task_key t) = Some b \<Longrightarrow> b\<lparr>task_Status := task_Status t\<rparr> = t \<Longrightarrow>
    serve fresh index s (EPatchTask t b r) (put_task t s)"
  using serve.patch_task [of s t b fresh b index r] by (simp add: patched_task_same)

lemma example_patched:
  "(example_task i)\<lparr>task_Status := task_Status (example_started i)\<rparr> = example_started i"
  "(example_started i)\<lparr>task_Status := task_Status (example_done i)\<rparr> = example_done i"
  by (simp_all add: example_started_def example_done_def task_set_start_def mark_completed_def
      task_set_completion_def Task_SetCondition_slot)

lemma example_same: "same_job example_running example_job" "same_job example_running example_running"
  "same_job example_completed example_running"
  by (simp_all add: same_job_def)

lemmas example_serve = serves.none serves.more [OF serve.get_job] serves.more [OF serve.get_task]
  serves.more [OF serve.list_tasks] serves.more [OF serve.create_task]
  serves.more [OF serve_put_task] serves.more [OF serve_put_job] serves.more [OF serve.nothing]

lemmas example_serve_simps = silent_def listing_def empty_state_def example_same example_patched slot_key_inject

lemma two: "(0::nat) < 2" "(1::nat) < 2"
  by simp_all

lemma example_serves:
  "serves fresh example_index (example_state 0)
    (snd (job_run (example_answers example_job [] t) (nn ''ns'' ''j''))) (example_state 1)"
  "serves fresh example_index (example_state 1)
    (snd (task_run (example_answers j ts (example_task 0)) (slot_key example_job 0))) (example_state 2)"
  "serves fresh example_index (example_state 2)
    (snd (task_run (example_answers j ts (example_started 0)) (slot_key example_job 0))) (example_state 3)"
  "serves fresh example_index (example_state 3)
    (snd (job_run (example_answers example_running [example_done 0] t) (nn ''ns'' ''j''))) (example_state 4)"
  "serves fresh example_index (example_state 4)
    (snd (task_run (example_answers j ts (example_task 1)) (slot_key example_job 1))) (example_state 5)"
  "serves fresh example_index (example_state 5)
    (snd (task_run (example_answers j ts (example_started 1)) (slot_key example_job 1))) (example_state 6)"
  "serves fresh example_index (example_state 6)
    (snd (job_run (example_answers example_running [example_done 0, example_done 1] t) (nn ''ns'' ''j''))) (example_state 7)"
  unfolding example_job_run1 example_job_run2 example_job_run3
    example_task_start_run [OF two(1)] example_task_check_run [OF two(1)]
    example_task_start_run [OF two(2)] example_task_check_run [OF two(2)] example_state_simps
  by (rule example_serve; (simp add: example_serve_simps)?)+

text \<open>The last configuration: the Job is Completed, its last run still recorded.\<close>

definition example_last :: "string answers" where
  "example_last = example_answers example_running [example_done 0, example_done 1] (example_task 0)"

lemma controller_runs:
  "controller_run JobRun req (fst (job_run A req)) (snd (job_run A req))"
  "controller_run TaskRun req (fst (task_run A req)) (snd (task_run A req))"
  by (auto simp: controller_run_def intro: exI [of _ A])

lemma example_reach:
  "reach fresh controller_run first_controller gv_string (example_state 7)
    [(JobRun, nn ''ns'' ''j'', fst (job_run example_last (nn ''ns'' ''j'')),
      snd (job_run example_last (nn ''ns'' ''j'')), [])]"
proof -
  have "submitted gv_string example_job"
    using example_facts by (simp add: submitted_def typed_def)
  then have "reach fresh controller_run first_controller gv_string (example_state 0) ([] :: string run list)"
    using reach.submit [OF reach.start, of gv_string example_job]
    by (simp add: example_state_simps empty_state_def)
  from reach_drop [OF reach_run [OF this controller_runs(1) example_serves(1)]]
  have "reach fresh controller_run first_controller gv_string (example_state 1) ([] :: string run list)" .
  from reach_drop [OF reach_run [OF this controller_runs(2) example_serves(2)]]
  have "reach fresh controller_run first_controller gv_string (example_state 2) ([] :: string run list)" .
  from reach_drop [OF reach_run [OF this controller_runs(2) example_serves(3)]]
  have "reach fresh controller_run first_controller gv_string (example_state 3) ([] :: string run list)" .
  from reach_drop [OF reach_run [OF this controller_runs(1) example_serves(4)]]
  have "reach fresh controller_run first_controller gv_string (example_state 4) ([] :: string run list)" .
  from reach_drop [OF reach_run [OF this controller_runs(2) example_serves(5)]]
  have "reach fresh controller_run first_controller gv_string (example_state 5) ([] :: string run list)" .
  from reach_drop [OF reach_run [OF this controller_runs(2) example_serves(6)]]
  have "reach fresh controller_run first_controller gv_string (example_state 6) ([] :: string run list)" .
  from reach_run [OF this controller_runs(1) example_serves(7)]
  show ?thesis by (simp add: example_last_def)
qed

lemma example_completed_stored:
  "st_Jobs (example_state 7) (nn ''ns'' ''j'') = Some example_completed"
  "wanted_tasks example_completed = 2" "job_phase example_completed = Succeeded"
  "st_Tasks (example_state 7) (slot_key example_completed 0) = Some (example_done 0)"
  "st_Tasks (example_state 7) (slot_key example_completed 1) = Some (example_done 1)"
  by (simp_all add: example_state_simps slot_key_inject slot_key_same [of example_completed example_job])

end
