(* ===== verification/Stale_Reads.thy ===== *)
theory Stale_Reads
  imports System_Example
begin

text \<open>
  What a stale read of a Task can do.  The Task controller reads through a cache and patches the
  conditions as one list, without a check of the version.  After the run of \<open>System_Example\<close>, in which a
  Job is Completed, the Task controller once more reads its Task as it was when it was started, fails to
  connect, and its patch replaces the condition Completed by Failed.
\<close>

definition stale_answers :: "string answers" where
  "stale_answers = (example_answers example_running [] (example_started 0))
     \<lparr>aOpen := (\<lambda>h host user pass opts. Inl (New ''refused''))\<rparr>"

definition stale_patch :: Task where
  "stale_patch = mark_failed (example_started 0) ''Failed to connect to BMC: refused''"

lemma stale_run:
  "snd (task_run stale_answers (slot_key example_job 0)) =
    [EGetTask (slot_key example_job 0) (Inr (example_started 0)), EGetSecret (nn [] []) (Inr example_secret),
     EOpen [] ''u'' ''p'' (Some example_opts) (Inl (New ''refused'')),
     EPatchTask stale_patch (example_started 0) None]"
  by (rule run_wp(2))
    (simp add: task_Reconcile_def task_doReconcile_def wp_task_fail stale_answers_def stale_patch_def
      connection_credentials_def resolveAuthSecretRef_def rpc_options_def empty_Connection_def secret_key_def
      example_secret_def example_opts_def example_simps)

text \<open>The Task that is stored after the patch.\<close>

definition undone_task :: Task where
  "undone_task = patched_task (example_started 0) stale_patch (example_done 0)"

definition undone_state :: api_state where
  "undone_state = put_task undone_task (example_state 7)"

lemma stale_patch_keep [simp]: "task_ObjectMeta stale_patch = task_ObjectMeta (example_task 0)"
  by (simp add: stale_patch_def)

lemma undone_keep [simp]: "task_ObjectMeta undone_task = task_ObjectMeta (example_task 0)"
  by (simp add: undone_task_def)

lemma undone_conditions: "is_failed undone_task" "\<not> is_completed undone_task"
  by code_simp+

lemma stale_serves:
  "serves False example_index (example_state 7) (snd (task_run stale_answers (slot_key example_job 0))) undone_state"
  unfolding stale_run undone_state_def undone_task_def
  by (rule serves.more [OF serve.get_task] serves.more [OF serve.nothing] serves.more [OF serve.patch_task] serves.none;
      (simp add: silent_def example_state_simps slot_key_inject)?)+

text \<open>C19. When Task reads may be stale, a state is reachable in which a Task of a Completed Job that had
  been Completed is Failed and no longer Completed: the Task controller read an old version of it and could
  not connect to the BMC.  (With fresh reads there is no such state, by \<open>completed_job_is_done\<close>.)\<close>

theorem stale_read_undoes_completion:
  "\<exists>s j t. reach False controller_run first_controller gv_string s ([] :: string run list) \<and>
    st_Jobs s (job_key j) = Some j \<and> job_phase j = Succeeded \<and> was_completed s (slot_key j 0) \<and>
    st_Tasks s (slot_key j 0) = Some t \<and> is_failed t \<and> \<not> is_completed t"
proof -
  have slot: "slot_key example_completed 0 = slot_key example_job 0"
    by (simp add: slot_key_same [of example_completed example_job])
  have "reach False controller_run first_controller gv_string undone_state ([] :: string run list)"
    using reach_drop [OF reach_run [OF reach_drop [OF example_reach] controller_runs(2) stale_serves]] .
  moreover have "was_completed undone_state (slot_key example_completed 0)"
    by (simp add: undone_state_def example_state_simps slot slot_key_inject)
  moreover have "st_Jobs undone_state (job_key example_completed) = Some example_completed"
    "st_Tasks undone_state (slot_key example_completed 0) = Some undone_task"
    by (simp_all add: undone_state_def example_state_simps slot slot_key_inject)
  ultimately show ?thesis using undone_conditions example_completed_stored(3) by blast
qed

end
