(* ===== verification/Client_Traces.thy ===== *)
theory Client_Traces
  imports Trace_Rules
begin

text \<open>
  Which Secrets the credentials of a connection come from, and how the client factory builds and
  opens a client: facts on the traces of \<open>connection_credentials\<close> and \<open>NewClientFunc\<close>.
\<close>

section \<open>Secrets read for a connection\<close>

definition secret_keys :: "'c trace \<Rightarrow> NamespacedName list" where
  "secret_keys h = [k. EGetSecret k r \<leftarrow> h]"

lemma secret_keys_simps [simp]:
  "secret_keys [] = []" "secret_keys (g @ h) = secret_keys g @ secret_keys h"
  "secret_keys (EGetSecret k r # h) = k # secret_keys h"
  by (simp_all add: secret_keys_def)

text \<open>The references of the HMAC options, in the order they are visited.\<close>

definition hmac_refs :: "HMACSecrets \<Rightarrow> NamespacedName list" where
  "hmac_refs kvs = concat (map (\<lambda>(k, ss). map secret_key ss) kvs)"

lemma hmac_refs_Nil [simp]: "hmac_refs [] = []"
  by (simp add: hmac_refs_def)

text \<open>The events of a run read the given keys, all of them when it succeeds.\<close>

definition reads_keys :: "NamespacedName list \<Rightarrow> 'c trace \<Rightarrow> 'e + 'a \<Rightarrow> 'c trace \<Rightarrow> bool" where
  "reads_keys ks h r h' \<longleftrightarrow> (\<exists>es. h' = h @ es \<and> secret_reads es \<and> prefix (secret_keys es) ks \<and>
     (\<not> isl r \<longrightarrow> secret_keys es = ks))"

lemma reads_keys_fail: "reads_keys (k # ks) h (Inl e) (h @ [EGetSecret k x])"
  by (auto simp: reads_keys_def)

lemma reads_keys_step: "reads_keys ks (h @ [EGetSecret k x]) r h' \<Longrightarrow> reads_keys (k # ks) h r h'"
  by (auto simp: reads_keys_def intro: exI [of _ "EGetSecret k x # es" for es])

lemma reads_keys_none: "reads_keys [] h (Inr v) h"
  by (simp add: reads_keys_def)

lemma reads_keys_append:
  "reads_keys ks h (Inr v) h1 \<Longrightarrow> reads_keys ks' h1 r h2 \<Longrightarrow> reads_keys (ks @ ks') h r h2"
  by (auto simp: reads_keys_def) (auto simp: secret_reads_def intro!: exI [of _ "es @ es'" for es es'])

lemma reads_keys_stop: "reads_keys ks h (Inl e) h1 \<Longrightarrow> reads_keys (ks @ ks') h (Inl e') h1"
  by (auto simp: reads_keys_def intro: prefix_order.trans)

lemma wp_refs_keys: "wp (retrieve_refs (rec_kube A) k ss sec) (reads_keys (map secret_key ss) h) h"
proof (induction ss arbitrary: sec h)
  case Nil
  then show ?case by (simp add: wp_simps reads_keys_none)
next
  case (Cons s ss)
  then show ?case
    by (auto simp: wp_simps Let_def reads_keys_fail split: sum.split intro: wp_mono [OF Cons.IH] reads_keys_step)
qed

lemma wp_algorithms_keys:
  "wp (retrieve_algorithms (rec_kube A) kvs sec) (reads_keys (hmac_refs kvs) h) h"
proof (induction kvs arbitrary: sec h)
  case Nil
  then show ?case by (simp add: wp_simps reads_keys_none hmac_refs_def)
next
  case (Cons kv kvs)
  obtain k ss where kv: "kv = (k, ss)" by (cases kv)
  have "wp (retrieve_refs (rec_kube A) k ss sec) (\<lambda>r. wp (case r of
      Inl e \<Rightarrow> State_Monad.return (Inl e)
    | Inr sec' \<Rightarrow> retrieve_algorithms (rec_kube A) kvs sec') (reads_keys (hmac_refs (kv # kvs)) h)) h"
  proof (rule wp_mono [OF wp_refs_keys])
    fix r :: "goerr + Secrets" and h1
    assume r: "reads_keys (map secret_key ss) h r h1"
    show "wp (case r of Inl e \<Rightarrow> State_Monad.return (Inl e)
      | Inr sec' \<Rightarrow> retrieve_algorithms (rec_kube A) kvs sec') (reads_keys (hmac_refs (kv # kvs)) h) h1"
    proof (cases r)
      case (Inl e)
      with r show ?thesis by (simp add: wp_simps kv hmac_refs_def reads_keys_stop)
    next
      case (Inr sec')
      with r have "reads_keys (map secret_key ss) h (Inr sec' :: goerr + Secrets) h1" by simp
      from wp_mono [OF Cons.IH reads_keys_append [OF this]] show ?thesis
        by (simp add: Inr kv hmac_refs_def)
    qed
  qed
  then show ?case by (simp add: kv wp_bind)
qed

definition credentials_run ::
  "'c answers \<Rightarrow> Connection \<Rightarrow> (goerr + string \<times> string \<times> BMCOptions) \<times> 'c trace" where
  "credentials_run A conn = run_state (connection_credentials (rec_kube A) conn []) []"

text \<open>C29. With rpc options the user name and the password are empty and only the Secrets the HMAC
  options refer to are read, in order, the credentials Secret not at all; without them exactly the
  credentials Secret is read, and no HMAC secrets are passed.  In both cases the provider options
  are passed on as they are.\<close>

theorem credentials_source:
  "let (r, h) = credentials_run A conn in
   case rpc_options conn of
     Some rpc \<Rightarrow> prefix (secret_keys h) (hmac_refs (hmac_secrets rpc)) \<and>
       (case r of
          Inl e \<Rightarrow> hmac_secrets rpc \<noteq> []
        | Inr (user, pass, opts) \<Rightarrow> user = [] \<and> pass = [] \<and>
            bo_ProviderOptions opts = cn_ProviderOptions conn \<and>
            secret_keys h = hmac_refs (hmac_secrets rpc) \<and>
            (bo_rpcSecrets opts = None) = (hmac_secrets rpc = []))
   | None \<Rightarrow> secret_keys h = [secret_key (cn_AuthSecretRef conn)] \<and>
       (case r of Inl e \<Rightarrow> True
        | Inr (user, pass, opts) \<Rightarrow>
            bo_ProviderOptions opts = cn_ProviderOptions conn \<and> bo_rpcSecrets opts = None)"
proof -
  let ?post = "\<lambda>r h. case rpc_options conn of
     Some rpc \<Rightarrow> prefix (secret_keys h) (hmac_refs (hmac_secrets rpc)) \<and>
       (case r of
          Inl e \<Rightarrow> hmac_secrets rpc \<noteq> []
        | Inr (user, pass, opts) \<Rightarrow> user = [] \<and> pass = [] \<and>
            bo_ProviderOptions opts = cn_ProviderOptions conn \<and>
            secret_keys h = hmac_refs (hmac_secrets rpc) \<and>
            (bo_rpcSecrets opts = None) = (hmac_secrets rpc = []))
   | None \<Rightarrow> secret_keys h = [secret_key (cn_AuthSecretRef conn)] \<and>
       (case r of Inl e \<Rightarrow> True
        | Inr (user, pass, opts) \<Rightarrow>
            bo_ProviderOptions opts = cn_ProviderOptions conn \<and> bo_rpcSecrets opts = None)"
  have "wp (connection_credentials (rec_kube A) conn []) ?post []"
  proof (cases "rpc_options conn")
    case None
    then show ?thesis
      by (auto simp: connection_credentials_def resolveAuthSecretRef_def wp_simps Let_def
          split: sum.split option.split)
  next
    case (Some rpc)
    then show ?thesis
      by (auto simp: connection_credentials_def retrieveHMACSecrets_def wp_simps Let_def
          reads_keys_def intro!: wp_mono [OF wp_algorithms_keys] split: sum.split)
  qed
  then show ?thesis by (simp add: credentials_run_def wp_def case_prod_beta)
qed

section \<open>The client factory\<close>

text \<open>C30. The client factory builds one client with the translated options and the logger, reorders its
  drivers exactly when a preferred order is given, and then opens it once, bounded by the time-out; it
  returns the client when that succeeds, and the wrapped error, the client dropped, when it fails.\<close>

theorem client_factory_trace:
  "\<exists>c r. snd (dial_run L A timeout host user pass opts) =
     [EDial host user pass ((case opts of None \<Rightarrow> [] | Some b \<Rightarrow> Translate L b host) @ [WithLogger]) c] @
     (if preferred_order opts = [] then [] else [EPrefer c (preferred_order opts)]) @
     [EDialOpen c timeout r] \<and>
   fst (dial_run L A timeout host user pass opts) =
     (case r of None \<Rightarrow> Inr c | Some e \<Rightarrow> Inl (Wrap ''failed to open connection to BMC: '' e))"
  by (auto simp: dial_run_def NewClientFunc_def rec_dial_def call_def toStringSlice_same run_simps
      split: option.split)

end
