(* ===== verification/Go_Memory.thy ===== *)
theory Go_Memory
  imports Rufio_Prelude
begin

text \<open>
  The memory of a Go program, for the code that copies objects: the variables and arrays
  that \<open>new\<close> and \<open>make\<close> allocate, loads and stores at a Go type, what it means that a memory
  extends another, and the pointers a value goes through.  The cells are those of the
  program (the type variable \<open>'c\<close>); a Go type is given by how a cell holds an array of its
  values.  Nothing here mentions the program.
\<close>

section \<open>Cells\<close>

text \<open>
  The allocated cells in the order of their allocation, so the address of a cell is its
  position, and the random draws the run time makes when it ranges over a map.
\<close>

record 'c memory =
  mem_cells :: "'c list"
  mem_draws :: "nat \<Rightarrow> nat"

type_synonym addr = nat
type_synonym ('c, 'a) mprog = "('c memory, 'a) prog"

definition msize :: "'c memory \<Rightarrow> nat" where
  "msize h = length (mem_cells h)"

definition cell_at :: "'c memory \<Rightarrow> addr \<Rightarrow> 'c option" where
  "cell_at h a = (if a < msize h then Some (mem_cells h ! a) else None)"

definition add_cell :: "'c \<Rightarrow> 'c memory \<Rightarrow> 'c memory" where
  "add_cell c h = h\<lparr>mem_cells := mem_cells h @ [c]\<rparr>"

definition put_cell :: "addr \<Rightarrow> 'c \<Rightarrow> 'c memory \<Rightarrow> 'c memory" where
  "put_cell a c h = h\<lparr>mem_cells := (mem_cells h)[a := c]\<rparr>"

definition next_draw :: "'c memory \<Rightarrow> 'c memory" where
  "next_draw h = h\<lparr>mem_draws := (\<lambda>n. mem_draws h (Suc n))\<rparr>"

lemma msize_add_cell [simp]: "msize (add_cell c h) = Suc (msize h)"
  by (simp add: msize_def add_cell_def)

lemma msize_put_cell [simp]: "msize (put_cell a c h) = msize h"
  by (simp add: msize_def put_cell_def)

lemma msize_next_draw [simp]: "msize (next_draw h) = msize h"
  by (simp add: msize_def next_draw_def)

lemma cell_at_add_cell: "cell_at (add_cell c h) a = (if a = msize h then Some c else cell_at h a)"
  by (auto simp: cell_at_def add_cell_def nth_append msize_def)

lemma cell_at_put_cell: "cell_at (put_cell a c h) b = (if b = a \<and> a < msize h then Some c else cell_at h b)"
  by (auto simp: cell_at_def put_cell_def msize_def)

lemma cell_at_next_draw [simp]: "cell_at (next_draw h) = cell_at h"
  by (auto simp: cell_at_def next_draw_def msize_def)

lemma cell_at_inside: "cell_at h a = Some c \<Longrightarrow> a < msize h"
  by (simp add: cell_at_def split: if_splits)

section \<open>Typed access\<close>

datatype ('c, 'a) gotype = GoType (as_cell: "'a list \<Rightarrow> 'c") (of_cell: "'c \<Rightarrow> 'a list option") (zero_value: 'a)

definition valid_type :: "('c, 'a) gotype \<Rightarrow> bool" where
  "valid_type T \<longleftrightarrow> (\<forall>xs. of_cell T (as_cell T xs) = Some xs)"

definition array_at :: "('c, 'a) gotype \<Rightarrow> 'c memory \<Rightarrow> addr \<Rightarrow> 'a list option" where
  "array_at T h a = Option.bind (cell_at h a) (of_cell T)"

text \<open>
  A variable is an array of one element.  Go's types keep a program from reading a cell
  at another type or address; the programs below then take the zero value.
\<close>

definition alloc :: "('c, 'a) gotype \<Rightarrow> 'a list \<Rightarrow> ('c, addr) mprog" where
  "alloc T xs = State (\<lambda>h. (msize h, add_cell (as_cell T xs) h))"

definition new :: "('c, 'a) gotype \<Rightarrow> ('c, addr) mprog" where
  "new T = alloc T [zero_value T]"

definition make_array :: "('c, 'a) gotype \<Rightarrow> nat \<Rightarrow> ('c, addr) mprog" where
  "make_array T n = alloc T (replicate n (zero_value T))"

definition load_at :: "('c, 'a) gotype \<Rightarrow> addr \<Rightarrow> nat \<Rightarrow> ('c, 'a) mprog" where
  "load_at T a i = State (\<lambda>h. (case array_at T h a of
     Some xs \<Rightarrow> if i < length xs then xs ! i else zero_value T
   | None \<Rightarrow> zero_value T, h))"

definition store_at :: "('c, 'a) gotype \<Rightarrow> addr \<Rightarrow> nat \<Rightarrow> 'a \<Rightarrow> ('c, unit) mprog" where
  "store_at T a i x = State (\<lambda>h. ((), case array_at T h a of
     Some xs \<Rightarrow> put_cell a (as_cell T (xs[i := x])) h
   | None \<Rightarrow> h))"

definition draw :: "('c, nat) mprog" where
  "draw = State (\<lambda>h. (mem_draws h 0, next_draw h))"

lemma wp_alloc [wp_simps]: "wp (alloc T xs) Q h \<longleftrightarrow> Q (msize h) (add_cell (as_cell T xs) h)"
  by (simp add: wp_def alloc_def)

lemma wp_load_at:
  "array_at T h a = Some xs \<Longrightarrow> i < length xs \<Longrightarrow> wp (load_at T a i) Q h \<longleftrightarrow> Q (xs ! i) h"
  by (simp add: wp_def load_at_def)

lemma wp_store_at:
  "array_at T h a = Some xs \<Longrightarrow>
    wp (store_at T a i x) Q h \<longleftrightarrow> Q () (put_cell a (as_cell T (xs[i := x])) h)"
  by (simp add: wp_def store_at_def)

lemma wp_draw [wp_simps]: "wp draw Q h \<longleftrightarrow> Q (mem_draws h 0) (next_draw h)"
  by (simp add: wp_def draw_def)

lemma array_at_inside: "array_at T h a = Some xs \<Longrightarrow> a < msize h"
  by (cases "cell_at h a") (auto simp: array_at_def dest: cell_at_inside)

lemma array_at_add_cell:
  "valid_type T \<Longrightarrow> array_at T (add_cell (as_cell T xs) h) (msize h) = Some xs"
  by (simp add: array_at_def cell_at_add_cell valid_type_def)

lemma array_at_put_cell:
  "valid_type T \<Longrightarrow> a < msize h \<Longrightarrow> array_at T (put_cell a (as_cell T xs) h) a = Some xs"
  by (simp add: array_at_def cell_at_put_cell valid_type_def)

lemma array_at_cong: "cell_at h' a = cell_at h a \<Longrightarrow> array_at T h' a = array_at T h a"
  by (simp add: array_at_def)

section \<open>Extension of the memory\<close>

definition extends :: "'c memory \<Rightarrow> 'c memory \<Rightarrow> bool" where
  "extends h h' \<longleftrightarrow> msize h \<le> msize h' \<and> (\<forall>a < msize h. cell_at h' a = cell_at h a)"

lemma extends_refl [simp]: "extends h h"
  by (simp add: extends_def)

lemma extends_trans: "extends h h' \<Longrightarrow> extends h' h'' \<Longrightarrow> extends h h''"
  by (auto simp: extends_def)

lemma extends_size: "extends h h' \<Longrightarrow> msize h \<le> msize h'"
  by (simp add: extends_def)

lemma extends_add_cell: "extends h h' \<Longrightarrow> extends h (add_cell c h')"
  by (auto simp: extends_def cell_at_add_cell)

lemma extends_put_cell: "extends h h' \<Longrightarrow> msize h \<le> a \<Longrightarrow> extends h (put_cell a c h')"
  by (auto simp: extends_def cell_at_put_cell)

lemma extends_next_draw: "extends h h' \<Longrightarrow> extends h (next_draw h')"
  by (simp add: extends_def)

lemma extends_cell: "extends h h' \<Longrightarrow> a < msize h \<Longrightarrow> cell_at h' a = cell_at h a"
  by (simp add: extends_def)

lemma extends_array:
  assumes "extends h h'" and "array_at T h a = Some xs"
  shows "array_at T h' a = Some xs"
  using assms array_at_cong [OF extends_cell [OF assms(1) array_at_inside [OF assms(2)]], of T] by simp

section \<open>The pointers of a value\<close>

text \<open>
  A reader lists the pointers, slices and maps it goes through, nil ones included; the
  owned addresses of such a list are those of its non-nil entries.
\<close>

fun owned :: "addr option list \<Rightarrow> addr list" where
  "owned [] = []"
| "owned (None # A) = owned A"
| "owned (Some a # A) = a # owned A"

lemma owned_append [simp]: "owned (A @ B) = owned A @ owned B"
  by (induction A rule: owned.induct) simp_all

text \<open>All owned addresses are different and none was allocated when the memory had size \<open>n\<close>.\<close>

definition fresh :: "nat \<Rightarrow> addr option list \<Rightarrow> bool" where
  "fresh n A \<longleftrightarrow> distinct (owned A) \<and> (\<forall>a \<in> set (owned A). n \<le> a)"

lemma fresh_Nil [simp]: "fresh n []"
  by (simp add: fresh_def)

lemma fresh_None [simp]: "fresh n (None # A) \<longleftrightarrow> fresh n A"
  by (simp add: fresh_def)

lemma fresh_mono: "fresh n A \<Longrightarrow> m \<le> n \<Longrightarrow> fresh m A"
  by (auto simp: fresh_def)

lemma fresh_append:
  assumes "fresh n A" and "\<forall>a \<in> set (owned A). a < m" and "fresh m B" and "n \<le> m"
  shows "fresh n (A @ B)"
  using assms by (force simp: fresh_def)

lemma fresh_Some: "fresh (Suc a) A \<Longrightarrow> n \<le> a \<Longrightarrow> fresh n (Some a # A)"
  by (force simp: fresh_def)

text \<open>Two pointer lists have nil at the same places.\<close>

definition same_nils :: "addr option list \<Rightarrow> addr option list \<Rightarrow> bool" where
  "same_nils A B \<longleftrightarrow> list_all2 (\<lambda>p q. (p = None) = (q = None)) A B"

lemma same_nils_simps [simp]:
  "same_nils [] []" "same_nils (None # A) (None # B) = same_nils A B"
  "same_nils (Some a # A) (Some b # B) = same_nils A B"
  by (simp_all add: same_nils_def)

lemma same_nils_append: "same_nils A B \<Longrightarrow> same_nils A' B' \<Longrightarrow> same_nils (A @ A') (B @ B')"
  by (simp add: same_nils_def list_all2_appendI)

end
