(* ===== verification/Copiers.thy ===== *)
theory Copiers
  imports Go_Memory
begin

text \<open>
  The pieces of the generated deep copies and their contract.  A reader gives the value a
  piece of memory stands for, with the pointers it goes through; the locales \<open>reader\<close> and
  \<open>copier\<close> say what a type's reader and its \<open>DeepCopyInto\<close> promise, and the lemmas after
  them build the contract of a pointer, a slice and a struct from those of its parts.
\<close>

section \<open>Readers and copiers\<close>

type_synonym ('c, 'm, 'v) reads = "'c memory \<Rightarrow> 'm \<Rightarrow> ('v \<times> addr option list) option"

text \<open>
  What a reader promises: it depends on the cells it lists only, and those are allocated.
\<close>

locale reader =
  fixes rd :: "('c, 'm, 'v) reads"
  assumes local: "rd h m = Some (v, A) \<Longrightarrow> \<forall>a \<in> set (owned A). cell_at h' a = cell_at h a \<Longrightarrow>
      rd h' m = Some (v, A)"
    and inside: "rd h m = Some (v, A) \<Longrightarrow> a \<in> set (owned A) \<Longrightarrow> a < msize h"
begin

lemma extended: "rd h m = Some (v, A) \<Longrightarrow> extends h h' \<Longrightarrow> rd h' m = Some (v, A)"
  by (rule local) (auto simp: inside extends_cell)

lemma drawn: "rd h m = Some (v, A) \<Longrightarrow> rd (next_draw h) m = Some (v, A)"
  by (erule local) simp

lemma put_elsewhere:
  assumes "rd h m = Some (v, A)" and "a \<notin> set (owned A)"
  shows "rd (put_cell a c h) m = Some (v, A)"
  using assms by (intro local [OF assms(1)]) (auto simp: cell_at_put_cell)

end

text \<open>
  What a \<open>DeepCopyInto\<close> promises of the value it puts in place of \<open>*out\<close>: no cell that
  was there changes, the result stands for the same value and is nil at the same places,
  and everything it points to is newly allocated and not shared.
\<close>

definition copied :: "('c, 'm, 'v) reads \<Rightarrow> 'c memory \<Rightarrow> 'v \<Rightarrow> addr option list \<Rightarrow> 'm \<Rightarrow> 'c memory \<Rightarrow> bool" where
  "copied rd h v A m' h' \<longleftrightarrow> extends h h' \<and>
     (\<exists>B. rd h' m' = Some (v, B) \<and> fresh (msize h) B \<and> same_nils A B)"

locale copier = reader rd
  for rd :: "('c, 'm, 'v) reads" +
  fixes into :: "'m \<Rightarrow> ('c, 'm) mprog"
  assumes copies: "rd h m = Some (v, A) \<Longrightarrow> wp (into m) (copied rd h v A) h"
begin

text \<open>
  After the copy, a write to a cell of the copy leaves the value of the original, and a
  write to a cell that was there before leaves the value of the copy.
\<close>

lemma independent:
  assumes "rd h m = Some (v, A)"
  shows "wp (into m) (\<lambda>m' h'. rd h' m = Some (v, A) \<and> (\<exists>B. rd h' m' = Some (v, B) \<and> same_nils A B \<and>
      (\<forall>a c. a \<in> set (owned B) \<longrightarrow> rd (put_cell a c h') m = Some (v, A)) \<and>
      (\<forall>a c. a < msize h \<longrightarrow> rd (put_cell a c h') m' = Some (v, B)))) h"
proof (rule wp_mono [OF copies [OF assms]])
  fix m' h'
  assume "copied rd h v A m' h'"
  then obtain B where ext: "extends h h'" and B: "rd h' m' = Some (v, B)" "fresh (msize h) B" "same_nils A B"
    by (auto simp: copied_def)
  have A: "rd h' m = Some (v, A)" using assms ext by (rule extended)
  have "a \<notin> set (owned A)" if "a \<in> set (owned B)" for a
    using that B(2) inside [OF assms] by (force simp: fresh_def)
  moreover have "a \<notin> set (owned B)" if "a < msize h" for a
    using that B(2) by (force simp: fresh_def)
  ultimately show "rd h' m = Some (v, A) \<and> (\<exists>B. rd h' m' = Some (v, B) \<and> same_nils A B \<and>
      (\<forall>a c. a \<in> set (owned B) \<longrightarrow> rd (put_cell a c h') m = Some (v, A)) \<and>
      (\<forall>a c. a < msize h \<longrightarrow> rd (put_cell a c h') m' = Some (v, B)))"
    using A B by (blast intro: put_elsewhere)
qed

end

lemma copierI:
  assumes "reader rd"
    and "\<And>h m v A. rd h m = Some (v, A) \<Longrightarrow> wp (into m) (copied rd h v A) h"
  shows "copier rd into"
  using assms by (simp add: copier_def copier_axioms_def)

lemma copier_reader: "copier rd into \<Longrightarrow> reader rd"
  by (simp add: copier_def)

lemma wp_copied:
  assumes "copier rd into" and "rd h m = Some (v, A)"
    and "\<And>m' h'. copied rd h v A m' h' \<Longrightarrow> Q m' h'"
  shows "wp (into m) Q h"
  by (rule wp_mono [OF copier.copies [OF assms(1,2)] assms(3)])

lemma copier_cong: "copier rd into \<Longrightarrow> (\<And>m. into' m = into m) \<Longrightarrow> copier rd into'"
  by (simp add: copier_def copier_axioms_def)

section \<open>Values without pointers\<close>

text \<open>\<open>*out = *in\<close>, for a type that holds no pointer.\<close>

definition read_flat :: "('c, 'a, 'a) reads" where
  "read_flat h x = Some (x, [])"

definition copy_flat :: "'a \<Rightarrow> ('c, 'a) mprog" where
  "copy_flat x = State_Monad.return x"

lemma reader_flat: "reader read_flat"
  by unfold_locales (auto simp: read_flat_def)

lemma copier_flat: "copier read_flat copy_flat"
  by (rule copierI [OF reader_flat]) (auto simp: read_flat_def copy_flat_def copied_def wp_simps)

section \<open>Several fields\<close>

definition read_pair :: "('c, 'm, 'v) reads \<Rightarrow> ('c, 'n, 'u) reads \<Rightarrow> ('c, 'm \<times> 'n, 'v \<times> 'u) reads" where
  "read_pair r1 r2 h p = (case r1 h (fst p) of None \<Rightarrow> None | Some (v, A) \<Rightarrow>
     (case r2 h (snd p) of None \<Rightarrow> None | Some (u, B) \<Rightarrow> Some ((v, u), A @ B)))"

definition copy_pair :: "('m \<Rightarrow> ('c, 'm) mprog) \<Rightarrow> ('n \<Rightarrow> ('c, 'n) mprog) \<Rightarrow> 'm \<times> 'n \<Rightarrow> ('c, 'm \<times> 'n) mprog" where
  "copy_pair c1 c2 p = do { x \<leftarrow> c1 (fst p); y \<leftarrow> c2 (snd p); State_Monad.return (x, y) }"

lemma read_pair_Some:
  "read_pair r1 r2 h (m, n) = Some (w, C) \<longleftrightarrow>
    (\<exists>v u A B. r1 h m = Some (v, A) \<and> r2 h n = Some (u, B) \<and> w = (v, u) \<and> C = A @ B)"
  by (auto simp: read_pair_def split: option.splits prod.splits)

lemma reader_pair:
  assumes "reader r1" and "reader r2"
  shows "reader (read_pair r1 r2)"
proof
  fix h h' and p :: "'b \<times> 'd" and w :: "'c \<times> 'e" and C a
  obtain m n where p: "p = (m, n)" by (cases p)
  assume "read_pair r1 r2 h p = Some (w, C)"
  then obtain v u A B where rd: "r1 h m = Some (v, A)" "r2 h n = Some (u, B)"
    and w: "w = (v, u)" "C = A @ B" unfolding p read_pair_Some by blast
  show "read_pair r1 r2 h' p = Some (w, C)" if "\<forall>a \<in> set (owned C). cell_at h' a = cell_at h a"
    using that w reader.local [OF assms(1) rd(1), of h'] reader.local [OF assms(2) rd(2), of h']
    unfolding p read_pair_Some by auto
  show "a < msize h" if "a \<in> set (owned C)"
    using that w reader.inside [OF assms(1) rd(1)] reader.inside [OF assms(2) rd(2)] by auto
qed

text \<open>What was copied stays copied while more is allocated, and can be put together with it.\<close>

lemma copied_extends: "copied rd h v A m' h' \<Longrightarrow> extends h h'"
  by (simp add: copied_def)

lemma copied_pair:
  assumes "reader r1" and "reader r2" and c1: "copied r1 h v A m1 h1" and c2: "copied r2 h1 u B m2 h2"
  shows "copied (read_pair r1 r2) h (v, u) (A @ B) (m1, m2) h2"
proof -
  obtain A' where A': "r1 h1 m1 = Some (v, A')" "fresh (msize h) A'" "same_nils A A'"
    and e1: "extends h h1" using c1 by (auto simp: copied_def)
  obtain B' where B': "r2 h2 m2 = Some (u, B')" "fresh (msize h1) B'" "same_nils B B'"
    and e2: "extends h1 h2" using c2 by (auto simp: copied_def)
  have "r1 h2 m1 = Some (v, A')" using reader.extended [OF assms(1) A'(1) e2] .
  then have "read_pair r1 r2 h2 (m1, m2) = Some ((v, u), A' @ B')"
    using B'(1) by (simp add: read_pair_Some)
  moreover have "fresh (msize h) (A' @ B')"
    using A'(2) _ B'(2) extends_size [OF e1]
    by (rule fresh_append) (use reader.inside [OF assms(1) A'(1)] in blast)
  moreover have "same_nils (A @ B) (A' @ B')"
    using A'(3) B'(3) by (rule same_nils_append)
  moreover have "extends h h2" using e1 e2 by (rule extends_trans)
  ultimately show ?thesis unfolding copied_def by blast
qed

lemma copier_pair:
  assumes "copier r1 c1" and "copier r2 c2"
  shows "copier (read_pair r1 r2) (copy_pair c1 c2)"
proof (rule copierI)
  note readers = copier_reader [OF assms(1)] copier_reader [OF assms(2)]
  show "reader (read_pair r1 r2)" using readers by (rule reader_pair)
  fix h and p :: "'b \<times> 'd" and w :: "'c \<times> 'e" and C
  obtain m n where p: "p = (m, n)" by (cases p)
  assume "read_pair r1 r2 h p = Some (w, C)"
  then obtain v u A B where rd: "r1 h m = Some (v, A)" "r2 h n = Some (u, B)"
    and w: "w = (v, u)" "C = A @ B" unfolding p read_pair_Some by blast
  show "wp (copy_pair c1 c2 p) (copied (read_pair r1 r2) h w C) h"
    unfolding copy_pair_def p w wp_simps fst_conv snd_conv
  proof (rule wp_copied [OF assms(1) rd(1)])
    fix m1 h1 assume 1: "copied r1 h v A m1 h1"
    have rd2: "r2 h1 n = Some (u, B)"
      using reader.extended [OF readers(2) rd(2) copied_extends [OF 1]] .
    show "wp (c2 n) (\<lambda>y. copied (read_pair r1 r2) h (v, u) (A @ B) (m1, y)) h1"
      by (rule wp_copied [OF assms(2) rd2]) (rule copied_pair [OF readers 1])
  qed
qed

section \<open>Structs\<close>

text \<open>
  A struct is its fields that hold pointers (\<open>get\<close> selects them, \<open>put\<close> writes them back)
  and others that are copied with it; \<open>mk\<close> builds the value it stands for.
\<close>

lemma reader_struct:
  assumes "reader rp"
    and rd: "\<And>h m. rd h m = map_option (\<lambda>(v, A). (mk m v, A)) (rp h (get m))"
  shows "reader rd"
  by unfold_locales
    (auto simp: rd dest: reader.local [OF assms(1)] reader.inside [OF assms(1)])

lemma copier_struct:
  assumes "copier rp cp"
    and rd: "\<And>h m. rd h m = map_option (\<lambda>(v, A). (mk m v, A)) (rp h (get m))"
    and into: "\<And>m. into m = State_Monad.bind (cp (get m)) (\<lambda>p. State_Monad.return (put m p))"
    and get: "\<And>m p. get (put m p) = p" and mk: "\<And>m p v. mk (put m p) v = mk m v"
  shows "copier rd into"
proof (rule copierI)
  show "reader rd" using copier_reader [OF assms(1)] rd by (rule reader_struct)
  fix h m v A assume "rd h m = Some (v, A)"
  then obtain u where u: "rp h (get m) = Some (u, A)" "v = mk m u" by (auto simp: rd)
  show "wp (into m) (copied rd h v A) h"
    unfolding into wp_simps
    by (rule wp_copied [OF assms(1) u(1)]) (auto simp: copied_def rd get mk u(2))
qed

lemmas struct_simps = copy_pair_def Let_def split_beta

section \<open>Pointers\<close>

text \<open>
  The block \<open>if in.F != nil { *out = new(T); (*in).DeepCopyInto(*out) }\<close> of a pointer
  field, and the generated \<open>DeepCopy\<close> of a type, which is the same on its receiver.
\<close>

definition read_ptr :: "('c, 'm) gotype \<Rightarrow> ('c, 'm, 'v) reads \<Rightarrow> ('c, addr option, 'v option) reads" where
  "read_ptr T rd h p = (case p of
     None \<Rightarrow> Some (None, [None])
   | Some a \<Rightarrow> (case array_at T h a of
       Some [x] \<Rightarrow> (case rd h x of Some (v, A) \<Rightarrow> Some (Some v, Some a # A) | None \<Rightarrow> None)
     | _ \<Rightarrow> None))"

definition copy_ptr :: "('c, 'm) gotype \<Rightarrow> ('m \<Rightarrow> ('c, 'm) mprog) \<Rightarrow> addr option \<Rightarrow> ('c, addr option) mprog" where
  "copy_ptr T into p = (case p of
     None \<Rightarrow> State_Monad.return None
   | Some a \<Rightarrow> do {
       out \<leftarrow> new T;
       x \<leftarrow> load_at T a 0;
       y \<leftarrow> into x;
       store_at T out 0 y;
       State_Monad.return (Some out)
     })"

lemma read_ptr_None [simp]: "read_ptr T rd h None = Some (None, [None])"
  by (simp add: read_ptr_def)

lemma read_ptr_Some:
  "read_ptr T rd h (Some a) = Some (w, C) \<longleftrightarrow>
    (\<exists>x v A. array_at T h a = Some [x] \<and> rd h x = Some (v, A) \<and> w = Some v \<and> C = Some a # A)"
  by (auto simp: read_ptr_def split: option.splits list.splits prod.splits)

lemma reader_ptr: "reader rd \<Longrightarrow> reader (read_ptr T rd)"
proof
  assume r: "reader rd"
  fix h h' p w C a
  assume rd: "read_ptr T rd h p = Some (w, C)"
  show "read_ptr T rd h' p = Some (w, C)" if same: "\<forall>a \<in> set (owned C). cell_at h' a = cell_at h a"
  proof (cases p)
    case (Some b)
    then obtain x v A where x: "array_at T h b = Some [x]" "rd h x = Some (v, A)"
      and w: "w = Some v" "C = Some b # A" using rd by (auto simp: read_ptr_Some)
    have "array_at T h' b = Some [x]" using x(1) same w array_at_cong [of h' b h T] by simp
    moreover have "rd h' x = Some (v, A)" using same w by (intro reader.local [OF r x(2)]) simp
    ultimately show ?thesis using Some w by (simp add: read_ptr_Some)
  qed (use rd in simp)
  show "a < msize h" if "a \<in> set (owned C)"
    using rd that by (cases p) (auto simp: read_ptr_Some reader.inside [OF r] array_at_inside)
qed

text \<open>Storing what was copied into a cell allocated just before.\<close>

lemma copier_ptr:
  assumes T: "valid_type T" and c: "copier rd into"
  shows "copier (read_ptr T rd) (copy_ptr T into)"
proof (rule copierI)
  note r = copier_reader [OF c]
  show "reader (read_ptr T rd)" using r by (rule reader_ptr)
  fix h p w C assume rd: "read_ptr T rd h p = Some (w, C)"
  show "wp (copy_ptr T into p) (copied (read_ptr T rd) h w C) h"
  proof (cases p)
    case None
    then show ?thesis using rd by (auto simp: copy_ptr_def wp_simps copied_def)
  next
    case (Some a)
    then obtain x v A where x: "array_at T h a = Some [x]" "rd h x = Some (v, A)"
      and w: "w = Some v" "C = Some a # A" using rd by (auto simp: read_ptr_Some)
    let ?h1 = "add_cell (as_cell T [zero_value T]) h"
    let ?q = "msize h"
    have e1: "extends h ?h1" by (rule extends_add_cell) simp
    have x1: "array_at T ?h1 a = Some [x]" "rd ?h1 x = Some (v, A)"
      using x e1 by (auto intro: extends_array reader.extended [OF r])
    have stored: "copied (read_ptr T rd) h w C (Some ?q) (put_cell ?q (as_cell T [y]) h2)"
      and q: "array_at T h2 ?q = Some [zero_value T]"
      if cp: "copied rd ?h1 v A y h2" for y h2
    proof -
      obtain B where B: "rd h2 y = Some (v, B)" "fresh (Suc ?q) B" "same_nils A B"
        and e2: "extends ?h1 h2" using cp by (auto simp: copied_def)
      show q: "array_at T h2 ?q = Some [zero_value T]"
        using extends_array [OF e2 array_at_add_cell [OF T]] .
      have "?q \<notin> set (owned B)" using B(2) by (auto simp: fresh_def)
      then have "rd (put_cell ?q (as_cell T [y]) h2) y = Some (v, B)"
        using B(1) by (simp add: reader.put_elsewhere [OF r])
      then have "read_ptr T rd (put_cell ?q (as_cell T [y]) h2) (Some ?q) = Some (Some v, Some ?q # B)"
        using array_at_put_cell [OF T array_at_inside [OF q]] by (simp add: read_ptr_Some)
      moreover have "extends h (put_cell ?q (as_cell T [y]) h2)"
        using extends_trans [OF e1 e2] by (rule extends_put_cell) simp
      ultimately show "copied (read_ptr T rd) h w C (Some ?q) (put_cell ?q (as_cell T [y]) h2)"
        using B fresh_Some [OF B(2)] w by (auto simp: copied_def)
    qed
    show ?thesis
      unfolding Some copy_ptr_def option.case new_def wp_simps
      using x1 by (auto simp: wp_load_at [OF x1(1)] wp_store_at [OF q] wp_simps intro!: wp_copied [OF c x1(2)] stored)
  qed
qed

section \<open>Slices\<close>

text \<open>
  A slice is an array, the offset of its first element and its length; its capacity goes to
  the end of the array.  The loop \<open>for i := range *in { (*in)[i].DeepCopyInto(&(*out)[i]) }\<close>
  fills the elements of the new array one by one; \<open>copy\<close> is the same loop for elements
  without pointers.
\<close>

record slice =
  sl_array :: addr
  sl_off :: nat
  sl_len :: nat

fun read_elems :: "('c, 'm, 'v) reads \<Rightarrow> ('c, 'm list, 'v list) reads" where
  "read_elems rd h [] = Some ([], [])"
| "read_elems rd h (x # xs) = (case rd h x of None \<Rightarrow> None | Some (v, A) \<Rightarrow>
     (case read_elems rd h xs of None \<Rightarrow> None | Some (vs, B) \<Rightarrow> Some (v # vs, A @ B)))"

definition slice_elems :: "('c, 'm) gotype \<Rightarrow> 'c memory \<Rightarrow> slice \<Rightarrow> 'm list option" where
  "slice_elems T h s = (case array_at T h (sl_array s) of
     Some xs \<Rightarrow> if sl_off s + sl_len s \<le> length xs
       then Some (take (sl_len s) (drop (sl_off s) xs)) else None
   | None \<Rightarrow> None)"

definition read_slice :: "('c, 'm) gotype \<Rightarrow> ('c, 'm, 'v) reads \<Rightarrow> ('c, slice option, 'v list) reads" where
  "read_slice T rd h p = (case p of
     None \<Rightarrow> Some ([], [None])
   | Some s \<Rightarrow> (case slice_elems T h s of
       Some xs \<Rightarrow> (case read_elems rd h xs of
         Some (vs, A) \<Rightarrow> Some (vs, Some (sl_array s) # A) | None \<Rightarrow> None)
     | None \<Rightarrow> None))"

fun range_copy :: "('c, 'm) gotype \<Rightarrow> ('m \<Rightarrow> ('c, 'm) mprog) \<Rightarrow> slice \<Rightarrow> addr \<Rightarrow> nat \<Rightarrow> nat \<Rightarrow> ('c, unit) mprog" where
  "range_copy T into s out i 0 = State_Monad.return ()"
| "range_copy T into s out i (Suc n) = do {
     x \<leftarrow> load_at T (sl_array s) (sl_off s + i);
     y \<leftarrow> into x;
     store_at T out i y;
     range_copy T into s out (Suc i) n
   }"

definition copy_slice :: "('c, 'm) gotype \<Rightarrow> ('m \<Rightarrow> ('c, 'm) mprog) \<Rightarrow> slice option \<Rightarrow> ('c, slice option) mprog" where
  "copy_slice T into p = (case p of
     None \<Rightarrow> State_Monad.return None
   | Some s \<Rightarrow> do {
       out \<leftarrow> make_array T (sl_len s);
       range_copy T into s out 0 (sl_len s);
       State_Monad.return (Some \<lparr>sl_array = out, sl_off = 0, sl_len = sl_len s\<rparr>)
     })"

lemma read_elems_Cons:
  "read_elems rd h (x # xs) = Some (ws, C) \<longleftrightarrow>
    (\<exists>v A vs B. rd h x = Some (v, A) \<and> read_elems rd h xs = Some (vs, B) \<and> ws = v # vs \<and> C = A @ B)"
  by (auto split: option.splits)

lemma reader_elems:
  assumes r: "reader rd"
  shows "reader (read_elems rd)"
proof
  fix h h' xs vs A a
  assume rd: "read_elems rd h xs = Some (vs, A)"
  show "read_elems rd h' xs = Some (vs, A)" if "\<forall>a \<in> set (owned A). cell_at h' a = cell_at h a"
    using rd that
  proof (induction xs arbitrary: vs A)
    case (Cons x xs)
    then show ?case using reader.local [OF r, of h x _ _ h']
      by (fastforce simp: read_elems_Cons simp del: read_elems.simps(2))
  qed simp
  show "a < msize h" if "a \<in> set (owned A)"
    using rd that
  proof (induction xs arbitrary: vs A)
    case (Cons x xs)
    then show ?case using reader.inside [OF r]
      by (fastforce simp: read_elems_Cons simp del: read_elems.simps(2))
  qed simp
qed

lemma read_elems_append:
  "read_elems rd h xs = Some (vs, A) \<Longrightarrow> read_elems rd h ys = Some (us, B) \<Longrightarrow>
    read_elems rd h (xs @ ys) = Some (vs @ us, A @ B)"
  by (induction xs arbitrary: vs A) (auto split: option.splits)

lemma read_elems_flat: "read_elems read_flat h xs = Some (xs, [])"
  by (induction xs) (simp_all add: read_flat_def)

lemma reader_slice: "reader rd \<Longrightarrow> reader (read_slice T rd)"
proof
  assume r: "reader rd"
  note re = reader_elems [OF r]
  fix h h' p w C a
  assume rd: "read_slice T rd h p = Some (w, C)"
  show "read_slice T rd h' p = Some (w, C)" if same: "\<forall>a \<in> set (owned C). cell_at h' a = cell_at h a"
  proof (cases p)
    case (Some s)
    then obtain xs A where xs: "slice_elems T h s = Some xs" "read_elems rd h xs = Some (w, A)"
      and C: "C = Some (sl_array s) # A"
      using rd by (auto simp: read_slice_def split: option.splits)
    have "slice_elems T h' s = Some xs"
      using xs(1) same C array_at_cong [of h' "sl_array s" h T] by (simp add: slice_elems_def)
    moreover have "read_elems rd h' xs = Some (w, A)"
      using same C by (intro reader.local [OF re xs(2)]) simp
    ultimately show ?thesis using Some C by (simp add: read_slice_def)
  qed (use rd in \<open>simp add: read_slice_def\<close>)
  show "a < msize h" if "a \<in> set (owned C)"
    using rd that
    by (auto simp: read_slice_def slice_elems_def dest: reader.inside [OF re] array_at_inside split: option.splits if_splits)
qed

lemma slice_elems_load:
  assumes "slice_elems T h s = Some ss" and "i < length ss"
  obtains xs where "array_at T h (sl_array s) = Some xs" and "sl_off s + i < length xs"
    and "xs ! (sl_off s + i) = ss ! i"
  using assms by (auto simp: slice_elems_def split: option.splits if_splits)

lemma length_slice_elems: "slice_elems T h s = Some ss \<Longrightarrow> length ss = sl_len s"
  by (auto simp: slice_elems_def split: option.splits if_splits)

text \<open>
  The state of the loop before index \<open>i\<close>: the elements of the new array \<open>a\<close> up to \<open>i\<close>
  are copies, with the pointers \<open>B\<close>, allocated after the array and not shared.
\<close>

definition filled :: "('c, 'm) gotype \<Rightarrow> ('c, 'm, 'v) reads \<Rightarrow> 'c memory \<Rightarrow> addr \<Rightarrow> 'v list \<Rightarrow> nat \<Rightarrow>
    addr option list \<Rightarrow> 'c memory \<Rightarrow> bool" where
  "filled T rd h0 a vs i B h \<longleftrightarrow> extends h0 h \<and> fresh (Suc a) B \<and>
     (\<exists>ys. array_at T h a = Some ys \<and> length ys = length vs \<and>
       read_elems rd h (take i ys) = Some (take i vs, B))"

lemma filled_step:
  assumes T: "valid_type T" and r: "reader rd" and a: "msize h0 \<le> a" and i: "i < length vs"
    and f: "filled T rd h0 a vs i B h" and y: "copied rd h (vs ! i) A y h2"
  shows "\<exists>ys B'. array_at T h2 a = Some ys \<and> same_nils A B' \<and>
    filled T rd h0 a vs (Suc i) (B @ B') (put_cell a (as_cell T (ys[i := y])) h2)"
proof -
  obtain ys where ys: "array_at T h a = Some ys" "length ys = length vs"
      "read_elems rd h (take i ys) = Some (take i vs, B)"
    and e: "extends h0 h" and B: "fresh (Suc a) B" using f by (auto simp: filled_def)
  obtain B' where B': "rd h2 y = Some (vs ! i, B')" "fresh (msize h) B'" "same_nils A B'"
    and e2: "extends h h2" using y by (auto simp: copied_def)
  let ?h3 = "put_cell a (as_cell T (ys[i := y])) h2"
  have ys2: "array_at T h2 a = Some ys" using e2 ys(1) by (rule extends_array)
  have a_lt: "a < msize h" using ys(1) by (rule array_at_inside)
  note re = reader_elems [OF r]
  have out: "a \<notin> set (owned B)" "a \<notin> set (owned B')"
    using B B'(2) a_lt by (auto simp: fresh_def)
  have "read_elems rd ?h3 (take i ys) = Some (take i vs, B)"
    using reader.put_elsewhere [OF re reader.extended [OF re ys(3) e2] out(1)] .
  moreover have "read_elems rd ?h3 [y] = Some ([vs ! i], B')"
    using reader.put_elsewhere [OF r B'(1) out(2)] by simp
  ultimately have "read_elems rd ?h3 (take i ys @ [y]) = Some (take i vs @ [vs ! i], B @ B')"
    by (rule read_elems_append)
  then have "read_elems rd ?h3 (take (Suc i) (ys[i := y])) = Some (take (Suc i) vs, B @ B')"
    using i ys(2) by (simp add: take_Suc_conv_app_nth)
  moreover have "array_at T ?h3 a = Some (ys[i := y])"
    using array_at_put_cell [OF T array_at_inside [OF ys2]] .
  moreover have "fresh (Suc a) (B @ B')"
    using B _ B'(2) by (rule fresh_append) (use a_lt reader.inside [OF re ys(3)] in auto)
  moreover have "extends h0 ?h3"
    using extends_trans [OF e e2] a by (rule extends_put_cell)
  ultimately show ?thesis
    using ys2 ys(2) B'(3) unfolding filled_def by auto
qed

lemma range_copy_fills:
  assumes T: "valid_type T" and c: "copier rd into" and a: "msize h0 \<le> a"
    and ss: "slice_elems T h0 s = Some ss"
    and "i + n = length ss" and "length vs = length ss"
    and "read_elems rd h0 (drop i ss) = Some (drop i vs, A)"
    and "filled T rd h0 a vs i B h"
  shows "wp (range_copy T into s a i n)
    (\<lambda>_ h'. \<exists>B'. filled T rd h0 a vs (length vs) (B @ B') h' \<and> same_nils A B') h"
  using assms(5-)
proof (induction n arbitrary: i A B h)
  case 0
  then show ?case by (auto simp: wp_simps intro!: exI [of _ "[]"])
next
  case (Suc n)
  note r = copier_reader [OF c]
  have i: "i < length ss" "i < length vs" using Suc.prems by simp_all
  then have rd: "read_elems rd h0 (ss ! i # drop (Suc i) ss) = Some (vs ! i # drop (Suc i) vs, A)"
    using Suc.prems(3) by (simp add: Cons_nth_drop_Suc del: read_elems.simps)
  then obtain A1 A2 where A1: "rd h0 (ss ! i) = Some (vs ! i, A1)"
    and A2: "read_elems rd h0 (drop (Suc i) ss) = Some (drop (Suc i) vs, A2)" and A: "A = A1 @ A2"
    unfolding read_elems_Cons by blast
  have e: "extends h0 h" using Suc.prems(4) by (simp add: filled_def)
  obtain xs where xs: "array_at T h0 (sl_array s) = Some xs" "sl_off s + i < length xs"
    "xs ! (sl_off s + i) = ss ! i" using ss i(1) by (rule slice_elems_load)
  have now: "rd h (ss ! i) = Some (vs ! i, A1)" using A1 e by (rule reader.extended [OF r])
  show ?case
    unfolding range_copy.simps wp_simps wp_load_at [OF extends_array [OF e xs(1)] xs(2)] xs(3)
  proof (rule wp_copied [OF c now])
    fix y h2 assume y: "copied rd h (vs ! i) A1 y h2"
    obtain ys B' where ys: "array_at T h2 a = Some ys" and nils: "same_nils A1 B'"
      and f: "filled T rd h0 a vs (Suc i) (B @ B') (put_cell a (as_cell T (ys[i := y])) h2)"
      using filled_step [OF T r a i(2) Suc.prems(4) y] by blast
    have "Suc i + n = length ss" using Suc.prems(1) by simp
    from Suc.IH [OF this Suc.prems(2) A2 f]
    show "wp (store_at T a i y) (\<lambda>_. wp (range_copy T into s a (Suc i) n)
        (\<lambda>_ h'. \<exists>B'. filled T rd h0 a vs (length vs) (B @ B') h' \<and> same_nils A B')) h2"
      unfolding wp_store_at [OF ys] A append_assoc
      by (rule wp_mono) (use nils in \<open>blast intro: same_nils_append\<close>)
  qed
qed

lemma length_read_elems: "read_elems rd h xs = Some (vs, A) \<Longrightarrow> length vs = length xs"
  by (induction xs arbitrary: vs A) (auto split: option.splits)

lemma copier_slice:
  assumes T: "valid_type T" and c: "copier rd into"
  shows "copier (read_slice T rd) (copy_slice T into)"
proof (rule copierI)
  note r = copier_reader [OF c]
  show "reader (read_slice T rd)" using r by (rule reader_slice)
  fix h p w C assume rd: "read_slice T rd h p = Some (w, C)"
  show "wp (copy_slice T into p) (copied (read_slice T rd) h w C) h"
  proof (cases p)
    case None
    then show ?thesis using rd by (auto simp: read_slice_def copy_slice_def wp_simps copied_def)
  next
    case (Some s)
    then obtain ss A where ss: "slice_elems T h s = Some ss" "read_elems rd h ss = Some (w, A)"
      and C: "C = Some (sl_array s) # A"
      using rd by (auto simp: read_slice_def split: option.splits)
    let ?n = "sl_len s" and ?a = "msize h"
    let ?h1 = "add_cell (as_cell T (replicate ?n (zero_value T))) h"
    have e1: "extends h ?h1" by (rule extends_add_cell) simp
    have len: "length ss = ?n" "length w = length ss"
      using length_slice_elems [OF ss(1)] length_read_elems [OF ss(2)] by simp_all
    have "filled T rd h ?a w 0 [] ?h1"
      using e1 array_at_add_cell [OF T] len by (simp add: filled_def)
    then have loop: "wp (range_copy T into s ?a 0 ?n)
        (\<lambda>_ h'. \<exists>B'. filled T rd h ?a w (length w) ([] @ B') h' \<and> same_nils A B') ?h1"
      using len ss by (intro range_copy_fills [OF T c _ ss(1)]) simp_all
    show ?thesis
      unfolding Some copy_slice_def option.case make_array_def wp_simps
    proof (rule wp_mono [OF loop])
      fix u :: unit and h'
      assume "\<exists>B'. filled T rd h ?a w (length w) ([] @ B') h' \<and> same_nils A B'"
      then obtain B ys where B: "fresh (Suc ?a) B" "same_nils A B" and e: "extends h h'"
        and ys: "array_at T h' ?a = Some ys" "length ys = length w" "read_elems rd h' ys = Some (w, B)"
        by (auto simp: filled_def)
      show "copied (read_slice T rd) h w C (Some \<lparr>sl_array = ?a, sl_off = 0, sl_len = ?n\<rparr>) h'"
        using e ys len B(2) C fresh_Some [OF B(1)]
        by (auto simp: copied_def read_slice_def slice_elems_def)
    qed
  qed
qed

end
