(* ===== verification/Copiers_Maps.thy ===== *)
theory Copiers_Maps
  imports Copiers
begin

text \<open>
  Maps with slices as values, and the loop that copies one.  Go leaves the order of a
  \<open>range\<close> over a map open; the copy has the contract of a copier in every order.
\<close>

section \<open>Maps\<close>

text \<open>
  A map with slices as values: a table of its entries, kept in the order of the keys.  A
  \<open>range\<close> over a map visits every key once, in an order that Go leaves open: each step
  draws the next key from those that are left.
\<close>

type_synonym 'k table = "('k \<times> slice option) list"

definition table_get :: "'k table \<Rightarrow> 'k \<Rightarrow> slice option" where
  "table_get t k = (case map_of t k of Some p \<Rightarrow> p | None \<Rightarrow> None)"

fun table_put :: "'k::linorder \<Rightarrow> slice option \<Rightarrow> 'k table \<Rightarrow> 'k table" where
  "table_put k p [] = [(k, p)]"
| "table_put k p ((k', p') # t) =
     (if k < k' then (k, p) # (k', p') # t else if k = k' then (k, p) # t else (k', p') # table_put k p t)"

lemma keys_table_put [simp]: "fst ` set (table_put k p t) = insert k (fst ` set t)"
  by (induction k p t rule: table_put.induct) auto

lemma sorted_table_put:
  "sorted_wrt (<) (map fst t) \<Longrightarrow> sorted_wrt (<) (map fst (table_put k p t))"
  by (induction k p t rule: table_put.induct) (auto simp: image_iff dest: order.strict_trans)

lemma map_of_table_put: "sorted_wrt (<) (map fst t) \<Longrightarrow> map_of (table_put k p t) = (map_of t)(k \<mapsto> p)"
  by (induction k p t rule: table_put.induct) (auto simp: fun_eq_iff map_of_eq_None_iff)

lemma same_keys:
  fixes xs ys :: "'k::linorder list"
  assumes "sorted_wrt (<) xs" and "sorted_wrt (<) ys" and "set xs = set ys"
  shows "xs = ys"
  using assms by (intro strict_sorted_equal) simp_all

definition map_store :: "('c, 'k::linorder table) gotype \<Rightarrow> addr \<Rightarrow> 'k \<Rightarrow> slice option \<Rightarrow> ('c, unit) mprog" where
  "map_store TT b k p = do { t \<leftarrow> load_at TT b 0; store_at TT b 0 (table_put k p t) }"

lemma wp_map_store:
  "array_at TT h b = Some [t] \<Longrightarrow>
    wp (map_store TT b k p) Q h \<longleftrightarrow> Q () (put_cell b (as_cell TT [table_put k p t]) h)"
  by (simp add: map_store_def wp_simps wp_load_at wp_store_at)

lemma drawn_in: "(k # ks) ! (d mod Suc (length ks)) \<in> set (k # ks)"
  by (rule nth_mem) simp

lemma length_remove1_drawn: "length (remove1 ((k # ks) ! (d mod Suc (length ks))) (k # ks)) = length ks"
  using drawn_in [of k ks d] by (subst length_remove1) simp

function range_keys :: "('k \<Rightarrow> ('c, unit) mprog) \<Rightarrow> 'k list \<Rightarrow> ('c, unit) mprog" where
  "range_keys body [] = State_Monad.return ()"
| "range_keys body (k # ks) = do {
     d \<leftarrow> draw;
     let key = (k # ks) ! (d mod Suc (length ks));
     body key;
     range_keys body (remove1 key (k # ks))
   }"
  by pat_completeness auto

termination
  by (relation "measure (length \<circ> snd)") (simp_all add: length_remove1_drawn del: remove1.simps)

declare range_keys.simps(2) [simp del]

text \<open>An invariant over the keys visited so far, whatever the order.\<close>

lemma wp_range_keys:
  assumes body: "\<And>V k h. I V h \<Longrightarrow> k \<in> K \<Longrightarrow> k \<notin> V \<Longrightarrow> wp (body k) (\<lambda>_. I (insert k V)) h"
    and draws: "\<And>V h. I V h \<Longrightarrow> I V (next_draw h)"
  shows "I V h \<Longrightarrow> distinct ks \<Longrightarrow> V \<inter> set ks = {} \<Longrightarrow> set ks \<subseteq> K \<Longrightarrow>
    wp (range_keys body ks) (\<lambda>_. I (V \<union> set ks)) h"
proof (induction "length ks" arbitrary: ks V h)
  case 0
  then show ?case by (simp add: wp_simps)
next
  case (Suc n)
  then obtain k ks' where ks: "ks = k # ks'" by (cases ks) auto
  define key where "key = ks ! (mem_draws h 0 mod Suc (length ks'))"
  have key: "key \<in> set ks" using drawn_in [of k ks'] by (simp add: key_def ks)
  have "wp (range_keys body (remove1 key ks)) (\<lambda>_. I (insert key V \<union> set (remove1 key ks))) h'"
    if "I (insert key V) h'" for h'
    using Suc.prems Suc.hyps(2) key that
    by (intro Suc.hyps(1)) (auto simp: length_remove1)
  moreover have "insert key V \<union> set (remove1 key ks) = V \<union> set ks"
    using key Suc.prems(2) by auto
  ultimately have rest: "wp (range_keys body (remove1 key ks)) (\<lambda>_. I (V \<union> set ks)) h'"
    if "I (insert key V) h'" for h' using that by simp
  have "wp (body key) (\<lambda>_. I (insert key V)) (next_draw h)"
    using Suc.prems key by (intro body draws) auto
  then show ?case
    using rest unfolding ks range_keys.simps(2) wp_simps Let_def
    unfolding ks [symmetric] key_def [symmetric] by (rule wp_mono)
qed

text \<open>
  The loop of the generated copies over a map: a nil slice is stored as nil, another is
  copied into an array of its own.
\<close>

definition copy_entry :: "('c, 'k::linorder table) gotype \<Rightarrow> ('c, 'm) gotype \<Rightarrow> ('m \<Rightarrow> ('c, 'm) mprog) \<Rightarrow>
    addr \<Rightarrow> addr \<Rightarrow> 'k \<Rightarrow> ('c, unit) mprog" where
  "copy_entry TT T into a out key = do {
     t \<leftarrow> load_at TT a 0;
     outVal \<leftarrow> (case table_get t key of
         None \<Rightarrow> do { map_store TT out key None; State_Monad.return None }
       | Some inVal \<Rightarrow> copy_slice T into (Some inVal));
     map_store TT out key outVal
   }"

definition copy_map :: "('c, 'k::linorder table) gotype \<Rightarrow> ('c, 'm) gotype \<Rightarrow> ('m \<Rightarrow> ('c, 'm) mprog) \<Rightarrow>
    addr option \<Rightarrow> ('c, addr option) mprog" where
  "copy_map TT T into m = (case m of
     None \<Rightarrow> State_Monad.return None
   | Some a \<Rightarrow> do {
       out \<leftarrow> alloc TT [[]];
       t \<leftarrow> load_at TT a 0;
       range_keys (copy_entry TT T into a out) (map fst t);
       State_Monad.return (Some out)
     })"

definition read_entry :: "('c, 'm) gotype \<Rightarrow> ('c, 'm, 'v) reads \<Rightarrow> ('c, 'k \<times> slice option, 'k \<times> 'v list) reads" where
  "read_entry T rd h e = map_option (\<lambda>(v, A). ((fst e, v), A)) (read_slice T rd h (snd e))"

definition read_map :: "('c, 'k::linorder table) gotype \<Rightarrow> ('c, 'm) gotype \<Rightarrow> ('c, 'm, 'v) reads \<Rightarrow>
    ('c, addr option, ('k \<times> 'v list) list) reads" where
  "read_map TT T rd h m = (case m of
     None \<Rightarrow> Some ([], [None])
   | Some a \<Rightarrow> (case array_at TT h a of
       Some [t] \<Rightarrow> if sorted_wrt (<) (map fst t)
         then (case read_elems (read_entry T rd) h t of
           Some (vs, A) \<Rightarrow> Some (vs, Some a # A) | None \<Rightarrow> None) else None
     | _ \<Rightarrow> None))"

lemma read_map_Some:
  "read_map TT T rd h (Some a) = Some (w, C) \<longleftrightarrow>
    (\<exists>t A. array_at TT h a = Some [t] \<and> sorted_wrt (<) (map fst t) \<and>
      read_elems (read_entry T rd) h t = Some (w, A) \<and> C = Some a # A)"
  by (auto simp: read_map_def split: option.splits list.splits)

lemma reader_entry: "reader rd \<Longrightarrow> reader (read_entry T rd)"
  by (rule reader_struct [OF reader_slice, where mk = "\<lambda>e v. (fst e, v)" and get = snd])
    (simp_all add: read_entry_def)

lemma reader_map:
  assumes r: "reader rd"
  shows "reader (read_map TT T rd)"
proof
  note re = reader_elems [OF reader_entry [OF r]]
  fix h h' m w C a
  assume rd: "read_map TT T rd h m = Some (w, C)"
  show "read_map TT T rd h' m = Some (w, C)" if same: "\<forall>a \<in> set (owned C). cell_at h' a = cell_at h a"
  proof (cases m)
    case (Some b)
    then obtain t A where t: "array_at TT h b = Some [t]" "sorted_wrt (<) (map fst t)"
        "read_elems (read_entry T rd) h t = Some (w, A)"
      and C: "C = Some b # A" using rd by (auto simp: read_map_Some)
    have "array_at TT h' b = Some [t]" using t(1) same C array_at_cong [of h' b h TT] by simp
    moreover have "read_elems (read_entry T rd) h' t = Some (w, A)"
      using same C by (intro reader.local [OF re t(3)]) simp
    ultimately show ?thesis using Some C t(2) by (simp add: read_map_Some)
  qed (use rd in \<open>simp add: read_map_def\<close>)
  show "a < msize h" if "a \<in> set (owned C)"
    using rd that by (cases m) (auto simp: read_map_Some read_map_def [of _ _ _ _ None]
      dest: reader.inside [OF re] array_at_inside)
qed

lemma read_entry_slice: "read_slice T rd h p = Some (v, A) \<Longrightarrow> read_entry T rd h (k, p) = Some ((k, v), A)"
  by (simp add: read_entry_def)

lemma table_get_in: "distinct (map fst t) \<Longrightarrow> (k, p) \<in> set t \<Longrightarrow> table_get t k = p"
  by (simp add: table_get_def)

lemma strict_sorted_distinct: "sorted_wrt (<) (xs :: 'k::linorder list) \<Longrightarrow> distinct xs"
  by (simp add: strict_sorted_iff)

text \<open>Two tables with the same keys whose entries are copies of each other.\<close>

lemma read_entries_copied:
  assumes "map fst t' = map fst t" and "distinct (map fst t)"
    and "read_elems (read_entry T rd) h0 t = Some (vs, A)"
    and "\<And>k v A. k \<in> fst ` set t \<Longrightarrow> read_slice T rd h0 (table_get t k) = Some (v, A) \<Longrightarrow>
      read_slice T rd h' (table_get t' k) = Some (v, B k) \<and> same_nils A (B k) \<and> fresh n (B k)"
    and "\<And>k k'. k \<in> fst ` set t \<Longrightarrow> k' \<in> fst ` set t \<Longrightarrow> k \<noteq> k' \<Longrightarrow> set (owned (B k)) \<inter> set (owned (B k')) = {}"
  shows "\<exists>C. read_elems (read_entry T rd) h' t' = Some (vs, C) \<and> same_nils A C \<and> fresh n C \<and>
    set (owned C) = (\<Union>k \<in> fst ` set t. set (owned (B k)))"
  using assms
proof (induction t arbitrary: t' vs A)
  case Nil
  then show ?case by simp
next
  case (Cons e t)
  obtain k p where e: "e = (k, p)" by (cases e)
  obtain p' u where t': "t' = (k, p') # u" and keys: "map fst u = map fst t"
    using Cons.prems(1) e by (cases t') auto
  have k: "k \<notin> fst ` set t" and dist: "distinct (map fst t)" using Cons.prems(2) e by auto
  have ku: "k \<notin> fst ` set u" using k keys by (metis image_set)
  obtain v A1 ws A2 where v: "read_slice T rd h0 p = Some (v, A1)"
    and ws: "read_elems (read_entry T rd) h0 t = Some (ws, A2)" and eq: "vs = (k, v) # ws" "A = A1 @ A2"
    using Cons.prems(3) unfolding e read_elems_Cons by (auto simp: read_entry_def)
  have later: "table_get (e # t) k' = table_get t k'" "table_get t' k' = table_get u k'" if "k' \<in> fst ` set t" for k'
    using that k by (auto simp: e t' table_get_def)
  have first: "read_slice T rd h' p' = Some (v, B k)" "same_nils A1 (B k)" "fresh n (B k)"
    using Cons.prems(4) [of k v A1] v by (simp_all add: e t' table_get_def)
  have "\<exists>C. read_elems (read_entry T rd) h' u = Some (ws, C) \<and> same_nils A2 C \<and> fresh n C \<and>
    set (owned C) = (\<Union>k \<in> fst ` set t. set (owned (B k)))"
  proof (rule Cons.IH [OF keys dist ws])
    fix k' v' A' assume k': "k' \<in> fst ` set t" and rd: "read_slice T rd h0 (table_get t k') = Some (v', A')"
    show "read_slice T rd h' (table_get u k') = Some (v', B k') \<and> same_nils A' (B k') \<and> fresh n (B k')"
      using Cons.prems(4) [of k' v' A'] k' rd later [OF k'] by simp
  qed (use Cons.prems(5) in simp)
  then obtain C where C: "read_elems (read_entry T rd) h' u = Some (ws, C)" "same_nils A2 C" "fresh n C"
    "set (owned C) = (\<Union>k \<in> fst ` set t. set (owned (B k)))" by blast
  have "set (owned (B k)) \<inter> set (owned C) = {}" using Cons.prems(5) [of k] k C(4) e by fastforce
  then have "fresh n (B k @ C)" using first(3) C(3) by (auto simp: fresh_def)
  then show ?case
    using C(1,4) same_nils_append [OF first(2) C(2)] eq read_entry_slice [OF first(1), of k]
    by (auto simp: t' e)
qed

text \<open>The state of the loop after the keys in \<open>V\<close>: the new table has them, each with its copy.\<close>

definition entries_done :: "('c, 'k::linorder table) gotype \<Rightarrow> ('c, 'm) gotype \<Rightarrow> ('c, 'm, 'v) reads \<Rightarrow>
    'c memory \<Rightarrow> 'k table \<Rightarrow> addr \<Rightarrow> 'k set \<Rightarrow> 'c memory \<Rightarrow> bool" where
  "entries_done TT T rd h0 t b V h \<longleftrightarrow> extends h0 h \<and>
     (\<exists>u B. array_at TT h b = Some [u] \<and> sorted_wrt (<) (map fst u) \<and> fst ` set u = V \<and>
       (\<forall>k v A. k \<in> V \<longrightarrow> read_slice T rd h0 (table_get t k) = Some (v, A) \<longrightarrow>
         read_slice T rd h (table_get u k) = Some (v, B k) \<and> same_nils A (B k) \<and> fresh (Suc b) (B k)) \<and>
       (\<forall>k \<in> V. \<forall>a \<in> set (owned (B k)). a < msize h) \<and>
       (\<forall>k \<in> V. \<forall>k' \<in> V. k \<noteq> k' \<longrightarrow> set (owned (B k)) \<inter> set (owned (B k')) = {}))"

lemma entries_done_draw:
  assumes r: "reader rd" and d: "entries_done TT T rd h0 t b V h"
  shows "entries_done TT T rd h0 t b V (next_draw h)"
proof -
  note rs = reader_slice [OF r, of T]
  obtain u B where u: "array_at TT h b = Some [u]" "sorted_wrt (<) (map fst u)" "fst ` set u = V"
    and B: "\<forall>k v A. k \<in> V \<longrightarrow> read_slice T rd h0 (table_get t k) = Some (v, A) \<longrightarrow>
        read_slice T rd h (table_get u k) = Some (v, B k) \<and> same_nils A (B k) \<and> fresh (Suc b) (B k)"
      "\<forall>k \<in> V. \<forall>a \<in> set (owned (B k)). a < msize h"
      "\<forall>k \<in> V. \<forall>k' \<in> V. k \<noteq> k' \<longrightarrow> set (owned (B k)) \<inter> set (owned (B k')) = {}"
    and e: "extends h0 h"
    using d unfolding entries_done_def by (elim conjE exE) (rule that)
  have "\<forall>k v A. k \<in> V \<longrightarrow> read_slice T rd h0 (table_get t k) = Some (v, A) \<longrightarrow>
      read_slice T rd (next_draw h) (table_get u k) = Some (v, B k) \<and> same_nils A (B k) \<and> fresh (Suc b) (B k)"
    using B(1) reader.drawn [OF rs] by simp
  then show ?thesis
    unfolding entries_done_def using u B(2,3) extends_next_draw [OF e] array_at_cong [of "next_draw h" b h TT]
    by (intro conjI exI [of _ u] exI [of _ B]) simp_all
qed

lemma entries_done_step:
  assumes TT: "valid_type TT" and r: "reader rd" and b: "msize h0 \<le> b" and k: "k \<notin> V"
    and rd: "read_slice T rd h0 (table_get t k) = Some (v, A)"
    and d: "entries_done TT T rd h0 t b V h" and u: "array_at TT h b = Some [u]"
    and c: "copied (read_slice T rd) h v A p h2"
  shows "array_at TT h2 b = Some [u]"
    and "entries_done TT T rd h0 t b (insert k V) (put_cell b (as_cell TT [table_put k p u]) h2)"
proof -
  note rs = reader_slice [OF r, of T]
  obtain u' B where u': "array_at TT h b = Some [u']" "sorted_wrt (<) (map fst u')" "fst ` set u' = V"
    and all: "\<forall>k v A. k \<in> V \<longrightarrow> read_slice T rd h0 (table_get t k) = Some (v, A) \<longrightarrow>
        read_slice T rd h (table_get u' k) = Some (v, B k) \<and> same_nils A (B k) \<and> fresh (Suc b) (B k)"
      "\<forall>k \<in> V. \<forall>a \<in> set (owned (B k)). a < msize h"
      "\<forall>k \<in> V. \<forall>k' \<in> V. k \<noteq> k' \<longrightarrow> set (owned (B k)) \<inter> set (owned (B k')) = {}"
    and e: "extends h0 h"
    using d unfolding entries_done_def by (elim conjE exE) (rule that)
  then have [simp]: "u' = u" using u by simp
  note srt = u'(2) [simplified] and V = u'(3) [simplified] and B = all(1) [simplified, rule_format]
    and lt = all(2) [rule_format] and disj = all(3) [rule_format]
  obtain C where C: "read_slice T rd h2 p = Some (v, C)" "fresh (msize h) C" "same_nils A C"
    and e2: "extends h h2" using c by (auto simp: copied_def)
  show u2: "array_at TT h2 b = Some [u]" using e2 u by (rule extends_array)
  let ?w = "table_put k p u" and ?B = "B(k := C)"
  let ?h3 = "put_cell b (as_cell TT [?w]) h2"
  have b_lt: "b < msize h" using u by (rule array_at_inside)
  have get: "table_get ?w k' = (if k' = k then p else table_get u k')" for k'
    using map_of_table_put [OF srt, of k p] by (simp add: table_get_def)
  have old: "read_slice T rd ?h3 (table_get ?w k') = Some (v', ?B k') \<and> same_nils A' (?B k') \<and> fresh (Suc b) (?B k')"
    if "k' \<in> V" "read_slice T rd h0 (table_get t k') = Some (v', A')" for k' v' A'
  proof -
    have B': "read_slice T rd h (table_get u k') = Some (v', B k')" "same_nils A' (B k')" "fresh (Suc b) (B k')"
      using B [OF that] by simp_all
    have "b \<notin> set (owned (B k'))" using B'(3) by (auto simp: fresh_def)
    then have "read_slice T rd ?h3 (table_get u k') = Some (v', B k')"
      by (rule reader.put_elsewhere [OF rs reader.extended [OF rs B'(1) e2]])
    then show ?thesis using that(1) k B' get by auto
  qed
  have "b \<notin> set (owned C)" using C(2) b_lt by (auto simp: fresh_def)
  then have now: "read_slice T rd ?h3 (table_get ?w k) = Some (v, C)"
    using reader.put_elsewhere [OF rs C(1)] get by simp
  have fr: "fresh (Suc b) C" using C(2) b_lt by (auto intro: fresh_mono)
  have apart: "set (owned (B k')) \<inter> set (owned C) = {}" if "k' \<in> V" for k'
    using lt [OF that] C(2) by (force simp: fresh_def)
  have "extends h0 ?h3" using extends_trans [OF e e2] b by (rule extends_put_cell)
  moreover have "array_at TT ?h3 b = Some [?w]"
    using array_at_put_cell [OF TT array_at_inside [OF u2]] .
  moreover have "\<forall>k' v' A'. k' \<in> insert k V \<longrightarrow> read_slice T rd h0 (table_get t k') = Some (v', A') \<longrightarrow>
      read_slice T rd ?h3 (table_get ?w k') = Some (v', ?B k') \<and> same_nils A' (?B k') \<and> fresh (Suc b) (?B k')"
    using old now C(3) fr rd by auto
  moreover have "\<forall>k' \<in> insert k V. \<forall>a \<in> set (owned (?B k')). a < msize ?h3"
    using lt extends_size [OF e2] reader.inside [OF rs C(1)] k by (auto intro: less_le_trans)
  moreover have "\<forall>k1 \<in> insert k V. \<forall>k2 \<in> insert k V. k1 \<noteq> k2 \<longrightarrow> set (owned (?B k1)) \<inter> set (owned (?B k2)) = {}"
    using disj apart k by auto
  ultimately show "entries_done TT T rd h0 t b (insert k V) ?h3"
    unfolding entries_done_def using sorted_table_put [OF srt, of k p] V
    by (intro conjI exI [of _ ?w] exI [of _ ?B]) auto
qed

lemma table_put_twice: "table_put k p (table_put k q t) = table_put k p t"
  by (induction k q t rule: table_put.induct) auto

lemma put_cell_twice: "put_cell b c (put_cell b d h) = put_cell b c h"
  by (simp add: put_cell_def)

text \<open>One pass of the loop.\<close>

lemma copy_entry_step:
  assumes TT: "valid_type TT" and T: "valid_type T" and c: "copier rd into"
    and t: "array_at TT h0 a = Some [t]" and b: "msize h0 \<le> b" and k: "k \<notin> V"
    and rd: "read_slice T rd h0 (table_get t k) = Some (v, A)"
    and d: "entries_done TT T rd h0 t b V h"
  shows "wp (copy_entry TT T into a b k) (\<lambda>_. entries_done TT T rd h0 t b (insert k V)) h"
proof -
  note r = copier_reader [OF c]
  have e: "extends h0 h" using d by (simp add: entries_done_def)
  obtain u where u: "array_at TT h b = Some [u]" using d by (auto simp: entries_done_def)
  note step = entries_done_step [OF TT r b k rd d u]
  have ld: "wp (load_at TT a 0) Q h = Q t h" for Q
    using extends_array [OF e t] by (simp add: wp_load_at)
  show ?thesis
  proof (cases "table_get t k")
    case None
    then have "copied (read_slice T rd) h v A None h"
      using rd by (auto simp: copied_def read_slice_def)
    from step [OF this] have fin: "entries_done TT T rd h0 t b (insert k V) (put_cell b (as_cell TT [table_put k None u]) h)"
      by simp
    have "array_at TT (put_cell b (as_cell TT [table_put k None u]) h) b = Some [table_put k None u]"
      using array_at_put_cell [OF TT array_at_inside [OF u]] .
    then show ?thesis
      using fin by (simp add: copy_entry_def wp_simps ld None wp_map_store [OF u] wp_map_store
          table_put_twice put_cell_twice)
  next
    case (Some s)
    have now: "read_slice T rd h (Some s) = Some (v, A)"
      using reader.extended [OF reader_slice [OF r] rd e] Some by simp
    show ?thesis
      unfolding copy_entry_def wp_simps ld Some option.case
      by (rule wp_copied [OF copier_slice [OF T c] now]) (simp add: wp_map_store [OF step(1)] step(2))
  qed
qed

lemma entry_reads:
  "read_elems (read_entry T rd) h t = Some (ws, A) \<Longrightarrow> distinct (map fst t) \<Longrightarrow> k \<in> fst ` set t \<Longrightarrow>
    \<exists>v B. read_slice T rd h (table_get t k) = Some (v, B)"
proof (induction t arbitrary: ws A)
  case (Cons e t)
  obtain k' p where e: "e = (k', p)" by (cases e)
  have k': "k' \<notin> fst ` set t" using Cons.prems(2) e by auto
  obtain v B ws' B' where hd: "read_slice T rd h p = Some (v, B)"
    and tl: "read_elems (read_entry T rd) h t = Some (ws', B')"
    using Cons.prems(1) unfolding e read_elems_Cons by (auto simp: read_entry_def)
  show ?case
  proof (cases "k = k'")
    case True
    then show ?thesis using hd e by (simp add: table_get_def)
  next
    case False
    then have "k \<in> fst ` set t" "table_get (e # t) k = table_get t k"
      using Cons.prems(3) e by (auto simp: table_get_def)
    then show ?thesis using Cons.IH [OF tl] Cons.prems(2) by simp
  qed
qed simp

lemma copier_map:
  assumes TT: "valid_type TT" and T: "valid_type T" and c: "copier rd into"
  shows "copier (read_map TT T rd) (copy_map TT T into)"
proof (rule copierI)
  note r = copier_reader [OF c]
  show "reader (read_map TT T rd)" using r by (rule reader_map)
  fix h m w C assume rd: "read_map TT T rd h m = Some (w, C)"
  show "wp (copy_map TT T into m) (copied (read_map TT T rd) h w C) h"
  proof (cases m)
    case None
    then show ?thesis using rd by (auto simp: read_map_def copy_map_def wp_simps copied_def)
  next
    case (Some a)
    then obtain t A where t: "array_at TT h a = Some [t]" "sorted_wrt (<) (map fst t)"
        "read_elems (read_entry T rd) h t = Some (w, A)" and C: "C = Some a # A"
      using rd by (auto simp: read_map_Some)
    have dist: "distinct (map fst t)" using t(2) by (rule strict_sorted_distinct)
    let ?b = "msize h" and ?K = "fst ` set t"
    let ?h1 = "add_cell (as_cell TT [[]]) h"
    have e1: "extends h ?h1" by (rule extends_add_cell) simp
    have start: "entries_done TT T rd h t ?b {} ?h1"
      using e1 array_at_add_cell [OF TT, of "[[]]" h] by (auto simp: entries_done_def)
    have ld: "wp (load_at TT a 0) Q ?h1 = Q t ?h1" for Q
      using extends_array [OF e1 t(1)] by (simp add: wp_load_at)
    have loop: "wp (range_keys (copy_entry TT T into a ?b) (map fst t))
        (\<lambda>_. entries_done TT T rd h t ?b ({} \<union> set (map fst t))) ?h1"
    proof (rule wp_range_keys [where K = ?K])
      fix V k h' assume I: "entries_done TT T rd h t ?b V h'" and k: "k \<in> ?K" "k \<notin> V"
      obtain v B where "read_slice T rd h (table_get t k) = Some (v, B)"
        using entry_reads [OF t(3) dist k(1)] by blast
      then show "wp (copy_entry TT T into a ?b k) (\<lambda>_. entries_done TT T rd h t ?b (insert k V)) h'"
        using k(2) I by (intro copy_entry_step [OF TT T c t(1)]) simp_all
    next
      fix V h' assume "entries_done TT T rd h t ?b V h'"
      then show "entries_done TT T rd h t ?b V (next_draw h')" by (rule entries_done_draw [OF r])
    qed (use start dist in simp_all)
    show ?thesis
      unfolding Some copy_map_def option.case wp_simps ld
    proof (rule wp_mono [OF loop])
      fix x :: unit and h'
      assume "entries_done TT T rd h t ?b ({} \<union> set (map fst t)) h'"
      then obtain u B where e: "extends h h'" and u: "array_at TT h' ?b = Some [u]" "sorted_wrt (<) (map fst u)"
          "fst ` set u = ?K"
        and B: "\<forall>k v A. k \<in> ?K \<longrightarrow> read_slice T rd h (table_get t k) = Some (v, A) \<longrightarrow>
          read_slice T rd h' (table_get u k) = Some (v, B k) \<and> same_nils A (B k) \<and> fresh (Suc ?b) (B k)"
          "\<forall>k \<in> ?K. \<forall>k' \<in> ?K. k \<noteq> k' \<longrightarrow> set (owned (B k)) \<inter> set (owned (B k')) = {}"
        unfolding entries_done_def by auto
      have "map fst u = map fst t" using u(2,3) t(2) by (intro same_keys) simp_all
      then obtain D where D: "read_elems (read_entry T rd) h' u = Some (w, D)" "same_nils A D" "fresh (Suc ?b) D"
        using read_entries_copied [OF _ dist t(3), of u h' B "Suc ?b"] B by blast
      then show "copied (read_map TT T rd) h w C (Some ?b) h'"
        using e u fresh_Some [OF D(3)] C by (auto simp: copied_def read_map_Some)
    qed
  qed
qed

end
