(* ===== verification/Api_Memory.thy ===== *)
theory Api_Memory
  imports Copiers_Maps Api_Types "HOL-Library.List_Lexorder" "HOL-Library.Char_ord"
begin

text \<open>
  The API objects (\<open>api/v1alpha1\<close>) as they lie in memory.  A struct without pointers is
  its record of theory \<open>Api_Types\<close>; one with pointers has a record of its own, with the
  same fields in the same order, where a pointer or a map is an address and a slice a slice
  header (\<open>None\<close> for nil).  For each type there is its Go type, the cell that holds an array
  of its values, its zero value, and a reader to the record of \<open>Api_Types\<close> that the controllers work
  on.  The entries of a map are read in the order of the keys, a nil slice or map as an empty list.
\<close>

section \<open>Structs with pointers\<close>

record OwnerReference_m =
  orm_APIVersion :: string
  orm_Kind :: string
  orm_Name :: string
  orm_UID :: string
  orm_Controller :: "addr option"

record ObjectMeta_m =
  omm_Name :: string
  omm_Namespace :: string
  omm_UID :: string
  omm_DeletionTimestamp :: "addr option"
  omm_OwnerReferences :: "slice option"

record ListMeta_m =
  lmm_ResourceVersion :: string
  lmm_Continue :: string
  lmm_RemainingItemCount :: "addr option"

record OneTimeBootDeviceAction_m =
  bdam_Devices :: "slice option"
  bdam_EFIBoot :: bool

record Action_m =
  actm_PowerAction :: "addr option"
  actm_OneTimeBootDeviceAction :: "addr option"
  actm_VirtualMediaAction :: "addr option"

record RequestOpts_m =
  rqm_HTTPContentType :: string
  rqm_HTTPMethod :: string
  rqm_StaticHeaders :: "addr option"
  rqm_TimestampFormat :: string
  rqm_TimestampHeader :: string

record SignatureOpts_m =
  sgm_HeaderName :: string
  sgm_AppendAlgoToHeaderDisabled :: bool
  sgm_IncludedPayloadHeaders :: "slice option"

record HMACOpts_m =
  hmm_PrefixSigDisabled :: bool
  hmm_Secrets :: "addr option"

record RPCOptions_m =
  rpcm_ConsumerURL :: string
  rpcm_LogNotificationsDisabled :: bool
  rpcm_Request :: "addr option"
  rpcm_Signature :: "addr option"
  rpcm_HMAC :: "addr option"
  rpcm_Experimental :: "addr option"

record ProviderOptions_m =
  pom_PreferredOrder :: "slice option"
  pom_IntelAMT :: "addr option"
  pom_IPMITOOL :: "addr option"
  pom_Redfish :: "addr option"
  pom_RPC :: "addr option"

record Connection_m =
  cnm_Host :: string
  cnm_Port :: int
  cnm_AuthSecretRef :: SecretReference
  cnm_InsecureTLS :: bool
  cnm_ProviderOptions :: "addr option"

record MachineSpec_m =
  mspm_Connection :: Connection_m

record MachineStatus_m =
  msm_Power :: PowerState
  msm_Conditions :: "slice option"

record Machine_m =
  machinem_TypeMeta :: TypeMeta
  machinem_ObjectMeta :: ObjectMeta_m
  machinem_Spec :: MachineSpec_m
  machinem_Status :: MachineStatus_m

record MachineList_m =
  mlm_TypeMeta :: TypeMeta
  mlm_ListMeta :: ListMeta_m
  mlm_Items :: "slice option"

record JobSpec_m =
  jspm_MachineRef :: MachineRef
  jspm_Tasks :: "slice option"

record JobStatus_m =
  jsm_Conditions :: "slice option"
  jsm_StartTime :: "addr option"
  jsm_CompletionTime :: "addr option"

record Job_m =
  jobm_TypeMeta :: TypeMeta
  jobm_ObjectMeta :: ObjectMeta_m
  jobm_Spec :: JobSpec_m
  jobm_Status :: JobStatus_m

record JobList_m =
  jlm_TypeMeta :: TypeMeta
  jlm_ListMeta :: ListMeta_m
  jlm_Items :: "slice option"

record TaskSpec_m =
  tspm_Task :: Action_m
  tspm_Connection :: Connection_m

record TaskStatus_m =
  tsm_Conditions :: "slice option"
  tsm_StartTime :: "addr option"
  tsm_CompletionTime :: "addr option"

record Task_m =
  taskm_TypeMeta :: TypeMeta
  taskm_ObjectMeta :: ObjectMeta_m
  taskm_Spec :: TaskSpec_m
  taskm_Status :: TaskStatus_m

record TaskList_m =
  tlm_TypeMeta :: TypeMeta
  tlm_ListMeta :: ListMeta_m
  tlm_Items :: "slice option"

text \<open>Zero values.\<close>

definition zero_OwnerReference :: OwnerReference_m where
  "zero_OwnerReference =
     \<lparr>orm_APIVersion = [], orm_Kind = [], orm_Name = [], orm_UID = [],
       orm_Controller = None\<rparr>"

definition zero_ObjectMeta :: ObjectMeta_m where
  "zero_ObjectMeta =
     \<lparr>omm_Name = [], omm_Namespace = [], omm_UID = [], omm_DeletionTimestamp = None,
       omm_OwnerReferences = None\<rparr>"

definition zero_ListMeta :: ListMeta_m where
  "zero_ListMeta =
     \<lparr>lmm_ResourceVersion = [], lmm_Continue = [], lmm_RemainingItemCount = None\<rparr>"

definition zero_OneTimeBootDeviceAction :: OneTimeBootDeviceAction_m where
  "zero_OneTimeBootDeviceAction =
     \<lparr>bdam_Devices = None, bdam_EFIBoot = False\<rparr>"

definition zero_Action :: Action_m where
  "zero_Action =
     \<lparr>actm_PowerAction = None, actm_OneTimeBootDeviceAction = None,
       actm_VirtualMediaAction = None\<rparr>"

definition zero_RequestOpts :: RequestOpts_m where
  "zero_RequestOpts =
     \<lparr>rqm_HTTPContentType = [], rqm_HTTPMethod = [], rqm_StaticHeaders = None,
       rqm_TimestampFormat = [], rqm_TimestampHeader = []\<rparr>"

definition zero_SignatureOpts :: SignatureOpts_m where
  "zero_SignatureOpts =
     \<lparr>sgm_HeaderName = [], sgm_AppendAlgoToHeaderDisabled = False,
       sgm_IncludedPayloadHeaders = None\<rparr>"

definition zero_HMACOpts :: HMACOpts_m where
  "zero_HMACOpts =
     \<lparr>hmm_PrefixSigDisabled = False, hmm_Secrets = None\<rparr>"

definition zero_RPCOptions :: RPCOptions_m where
  "zero_RPCOptions =
     \<lparr>rpcm_ConsumerURL = [], rpcm_LogNotificationsDisabled = False, rpcm_Request = None,
       rpcm_Signature = None, rpcm_HMAC = None, rpcm_Experimental = None\<rparr>"

definition zero_ProviderOptions :: ProviderOptions_m where
  "zero_ProviderOptions =
     \<lparr>pom_PreferredOrder = None, pom_IntelAMT = None, pom_IPMITOOL = None,
       pom_Redfish = None, pom_RPC = None\<rparr>"

definition zero_Connection :: Connection_m where
  "zero_Connection =
     \<lparr>cnm_Host = [], cnm_Port = 0,
       cnm_AuthSecretRef = \<lparr>sr_Name = [], sr_Namespace = []\<rparr>,
       cnm_InsecureTLS = False, cnm_ProviderOptions = None\<rparr>"

definition zero_MachineSpec :: MachineSpec_m where
  "zero_MachineSpec =
     \<lparr>mspm_Connection = zero_Connection\<rparr>"

definition zero_MachineStatus :: MachineStatus_m where
  "zero_MachineStatus =
     \<lparr>msm_Power = [], msm_Conditions = None\<rparr>"

definition zero_Machine :: Machine_m where
  "zero_Machine =
     \<lparr>machinem_TypeMeta = empty_TypeMeta, machinem_ObjectMeta = zero_ObjectMeta,
       machinem_Spec = zero_MachineSpec, machinem_Status = zero_MachineStatus\<rparr>"

definition zero_MachineList :: MachineList_m where
  "zero_MachineList =
     \<lparr>mlm_TypeMeta = empty_TypeMeta, mlm_ListMeta = zero_ListMeta,
       mlm_Items = None\<rparr>"

definition zero_JobSpec :: JobSpec_m where
  "zero_JobSpec =
     \<lparr>jspm_MachineRef = \<lparr>mr_Name = [], mr_Namespace = []\<rparr>,
       jspm_Tasks = None\<rparr>"

definition zero_JobStatus :: JobStatus_m where
  "zero_JobStatus =
     \<lparr>jsm_Conditions = None, jsm_StartTime = None, jsm_CompletionTime = None\<rparr>"

definition zero_Job :: Job_m where
  "zero_Job =
     \<lparr>jobm_TypeMeta = empty_TypeMeta, jobm_ObjectMeta = zero_ObjectMeta,
       jobm_Spec = zero_JobSpec, jobm_Status = zero_JobStatus\<rparr>"

definition zero_JobList :: JobList_m where
  "zero_JobList =
     \<lparr>jlm_TypeMeta = empty_TypeMeta, jlm_ListMeta = zero_ListMeta,
       jlm_Items = None\<rparr>"

definition zero_TaskSpec :: TaskSpec_m where
  "zero_TaskSpec =
     \<lparr>tspm_Task = zero_Action, tspm_Connection = zero_Connection\<rparr>"

definition zero_TaskStatus :: TaskStatus_m where
  "zero_TaskStatus =
     \<lparr>tsm_Conditions = None, tsm_StartTime = None, tsm_CompletionTime = None\<rparr>"

definition zero_Task :: Task_m where
  "zero_Task =
     \<lparr>taskm_TypeMeta = empty_TypeMeta, taskm_ObjectMeta = zero_ObjectMeta,
       taskm_Spec = zero_TaskSpec, taskm_Status = zero_TaskStatus\<rparr>"

definition zero_TaskList :: TaskList_m where
  "zero_TaskList =
     \<lparr>tlm_TypeMeta = empty_TypeMeta, tlm_ListMeta = zero_ListMeta,
       tlm_Items = None\<rparr>"

section \<open>Cells\<close>

text \<open>What a cell of memory holds: an array of values of one type, of one element for a variable.\<close>

datatype basic_cell =
    C_string "string list"
  | C_bool "bool list"
  | C_int "int list"
  | C_time "time list"
  | C_OwnerReference "OwnerReference_m list"

datatype conn_cell =
    C_SecretReference "SecretReference list"
  | C_HMACSecrets "addr option list"
  | C_table "string table list"
  | C_IntelAMTOptions "IntelAMTOptions list"
  | C_IPMITOOLOptions "IPMITOOLOptions list"
  | C_RedfishOptions "RedfishOptions list"
  | C_RequestOpts "RequestOpts_m list"
  | C_SignatureOpts "SignatureOpts_m list"
  | C_HMACOpts "HMACOpts_m list"
  | C_ExperimentalOpts "ExperimentalOpts list"
  | C_RPCOptions "RPCOptions_m list"
  | C_ProviderOptions "ProviderOptions_m list"
  | C_Connection "Connection_m list"

datatype obj_cell =
    C_OneTimeBootDeviceAction "OneTimeBootDeviceAction_m list"
  | C_VirtualMediaAction "VirtualMediaAction list"
  | C_Action "Action_m list"
  | C_MachineCondition "MachineCondition list"
  | C_MachineSpec "MachineSpec_m list"
  | C_MachineStatus "MachineStatus_m list"
  | C_Machine "Machine_m list"
  | C_MachineRef "MachineRef list"
  | C_JobCondition "JobCondition list"
  | C_JobSpec "JobSpec_m list"
  | C_JobStatus "JobStatus_m list"
  | C_Job "Job_m list"

datatype tsk_cell =
    C_TaskCondition "TaskCondition list"
  | C_TaskSpec "TaskSpec_m list"
  | C_TaskStatus "TaskStatus_m list"
  | C_Task "Task_m list"
  | C_MachineList "MachineList_m list"
  | C_JobList "JobList_m list"
  | C_TaskList "TaskList_m list"

datatype cell = Basic basic_cell | Conn conn_cell | Obj obj_cell | Tsk tsk_cell

text \<open>The Go types.\<close>

named_theorems go_types "definitions of the Go types"

definition string_T :: "(cell, string) gotype" where [go_types]:
  "string_T = GoType (\<lambda>xs. Basic (C_string xs))
     (\<lambda>c. case c of Basic (C_string xs) \<Rightarrow> Some xs | _ \<Rightarrow> None)
     []"

definition bool_T :: "(cell, bool) gotype" where [go_types]:
  "bool_T = GoType (\<lambda>xs. Basic (C_bool xs))
     (\<lambda>c. case c of Basic (C_bool xs) \<Rightarrow> Some xs | _ \<Rightarrow> None)
     False"

definition int_T :: "(cell, int) gotype" where [go_types]:
  "int_T = GoType (\<lambda>xs. Basic (C_int xs))
     (\<lambda>c. case c of Basic (C_int xs) \<Rightarrow> Some xs | _ \<Rightarrow> None)
     0"

definition time_T :: "(cell, time) gotype" where [go_types]:
  "time_T = GoType (\<lambda>xs. Basic (C_time xs))
     (\<lambda>c. case c of Basic (C_time xs) \<Rightarrow> Some xs | _ \<Rightarrow> None)
     0"

definition OwnerReference_T :: "(cell, OwnerReference_m) gotype" where [go_types]:
  "OwnerReference_T = GoType (\<lambda>xs. Basic (C_OwnerReference xs))
     (\<lambda>c. case c of Basic (C_OwnerReference xs) \<Rightarrow> Some xs | _ \<Rightarrow> None)
     zero_OwnerReference"

definition SecretReference_T :: "(cell, SecretReference) gotype" where [go_types]:
  "SecretReference_T = GoType (\<lambda>xs. Conn (C_SecretReference xs))
     (\<lambda>c. case c of Conn (C_SecretReference xs) \<Rightarrow> Some xs | _ \<Rightarrow> None)
     \<lparr>sr_Name = [], sr_Namespace = []\<rparr>"

definition HMACSecrets_T :: "(cell, addr option) gotype" where [go_types]:
  "HMACSecrets_T = GoType (\<lambda>xs. Conn (C_HMACSecrets xs))
     (\<lambda>c. case c of Conn (C_HMACSecrets xs) \<Rightarrow> Some xs | _ \<Rightarrow> None)
     None"

definition IntelAMTOptions_T :: "(cell, IntelAMTOptions) gotype" where [go_types]:
  "IntelAMTOptions_T = GoType (\<lambda>xs. Conn (C_IntelAMTOptions xs))
     (\<lambda>c. case c of Conn (C_IntelAMTOptions xs) \<Rightarrow> Some xs | _ \<Rightarrow> None)
     \<lparr>amt_Port = 0, amt_HostScheme = []\<rparr>"

definition IPMITOOLOptions_T :: "(cell, IPMITOOLOptions) gotype" where [go_types]:
  "IPMITOOLOptions_T = GoType (\<lambda>xs. Conn (C_IPMITOOLOptions xs))
     (\<lambda>c. case c of Conn (C_IPMITOOLOptions xs) \<Rightarrow> Some xs | _ \<Rightarrow> None)
     \<lparr>ipmi_Port = 0, ipmi_CipherSuite = []\<rparr>"

definition RedfishOptions_T :: "(cell, RedfishOptions) gotype" where [go_types]:
  "RedfishOptions_T = GoType (\<lambda>xs. Conn (C_RedfishOptions xs))
     (\<lambda>c. case c of Conn (C_RedfishOptions xs) \<Rightarrow> Some xs | _ \<Rightarrow> None)
     \<lparr>rf_Port = 0, rf_UseBasicAuth = False, rf_SystemName = []\<rparr>"

definition RequestOpts_T :: "(cell, RequestOpts_m) gotype" where [go_types]:
  "RequestOpts_T = GoType (\<lambda>xs. Conn (C_RequestOpts xs))
     (\<lambda>c. case c of Conn (C_RequestOpts xs) \<Rightarrow> Some xs | _ \<Rightarrow> None)
     zero_RequestOpts"

definition SignatureOpts_T :: "(cell, SignatureOpts_m) gotype" where [go_types]:
  "SignatureOpts_T = GoType (\<lambda>xs. Conn (C_SignatureOpts xs))
     (\<lambda>c. case c of Conn (C_SignatureOpts xs) \<Rightarrow> Some xs | _ \<Rightarrow> None)
     zero_SignatureOpts"

definition HMACOpts_T :: "(cell, HMACOpts_m) gotype" where [go_types]:
  "HMACOpts_T = GoType (\<lambda>xs. Conn (C_HMACOpts xs))
     (\<lambda>c. case c of Conn (C_HMACOpts xs) \<Rightarrow> Some xs | _ \<Rightarrow> None)
     zero_HMACOpts"

definition ExperimentalOpts_T :: "(cell, ExperimentalOpts) gotype" where [go_types]:
  "ExperimentalOpts_T = GoType (\<lambda>xs. Conn (C_ExperimentalOpts xs))
     (\<lambda>c. case c of Conn (C_ExperimentalOpts xs) \<Rightarrow> Some xs | _ \<Rightarrow> None)
     \<lparr>ex_CustomRequestPayload = [], ex_DotPath = []\<rparr>"

definition RPCOptions_T :: "(cell, RPCOptions_m) gotype" where [go_types]:
  "RPCOptions_T = GoType (\<lambda>xs. Conn (C_RPCOptions xs))
     (\<lambda>c. case c of Conn (C_RPCOptions xs) \<Rightarrow> Some xs | _ \<Rightarrow> None)
     zero_RPCOptions"

definition ProviderOptions_T :: "(cell, ProviderOptions_m) gotype" where [go_types]:
  "ProviderOptions_T = GoType (\<lambda>xs. Conn (C_ProviderOptions xs))
     (\<lambda>c. case c of Conn (C_ProviderOptions xs) \<Rightarrow> Some xs | _ \<Rightarrow> None)
     zero_ProviderOptions"

definition Connection_T :: "(cell, Connection_m) gotype" where [go_types]:
  "Connection_T = GoType (\<lambda>xs. Conn (C_Connection xs))
     (\<lambda>c. case c of Conn (C_Connection xs) \<Rightarrow> Some xs | _ \<Rightarrow> None)
     zero_Connection"

definition table_T :: "(cell, string table) gotype" where [go_types]:
  "table_T = GoType (\<lambda>xs. Conn (C_table xs))
     (\<lambda>c. case c of Conn (C_table xs) \<Rightarrow> Some xs | _ \<Rightarrow> None)
     []"

definition OneTimeBootDeviceAction_T :: "(cell, OneTimeBootDeviceAction_m) gotype" where [go_types]:
  "OneTimeBootDeviceAction_T = GoType (\<lambda>xs. Obj (C_OneTimeBootDeviceAction xs))
     (\<lambda>c. case c of Obj (C_OneTimeBootDeviceAction xs) \<Rightarrow> Some xs | _ \<Rightarrow> None)
     zero_OneTimeBootDeviceAction"

definition VirtualMediaAction_T :: "(cell, VirtualMediaAction) gotype" where [go_types]:
  "VirtualMediaAction_T = GoType (\<lambda>xs. Obj (C_VirtualMediaAction xs))
     (\<lambda>c. case c of Obj (C_VirtualMediaAction xs) \<Rightarrow> Some xs | _ \<Rightarrow> None)
     \<lparr>vma_MediaURL = [], vma_Kind = []\<rparr>"

definition Action_T :: "(cell, Action_m) gotype" where [go_types]:
  "Action_T = GoType (\<lambda>xs. Obj (C_Action xs))
     (\<lambda>c. case c of Obj (C_Action xs) \<Rightarrow> Some xs | _ \<Rightarrow> None)
     zero_Action"

definition MachineCondition_T :: "(cell, MachineCondition) gotype" where [go_types]:
  "MachineCondition_T = GoType (\<lambda>xs. Obj (C_MachineCondition xs))
     (\<lambda>c. case c of Obj (C_MachineCondition xs) \<Rightarrow> Some xs | _ \<Rightarrow> None)
     \<lparr>mc_Type = [], mc_Status = [], mc_LastUpdateTime = 0, mc_Message = []\<rparr>"

definition MachineSpec_T :: "(cell, MachineSpec_m) gotype" where [go_types]:
  "MachineSpec_T = GoType (\<lambda>xs. Obj (C_MachineSpec xs))
     (\<lambda>c. case c of Obj (C_MachineSpec xs) \<Rightarrow> Some xs | _ \<Rightarrow> None)
     zero_MachineSpec"

definition MachineStatus_T :: "(cell, MachineStatus_m) gotype" where [go_types]:
  "MachineStatus_T = GoType (\<lambda>xs. Obj (C_MachineStatus xs))
     (\<lambda>c. case c of Obj (C_MachineStatus xs) \<Rightarrow> Some xs | _ \<Rightarrow> None)
     zero_MachineStatus"

definition Machine_T :: "(cell, Machine_m) gotype" where [go_types]:
  "Machine_T = GoType (\<lambda>xs. Obj (C_Machine xs))
     (\<lambda>c. case c of Obj (C_Machine xs) \<Rightarrow> Some xs | _ \<Rightarrow> None)
     zero_Machine"

definition MachineRef_T :: "(cell, MachineRef) gotype" where [go_types]:
  "MachineRef_T = GoType (\<lambda>xs. Obj (C_MachineRef xs))
     (\<lambda>c. case c of Obj (C_MachineRef xs) \<Rightarrow> Some xs | _ \<Rightarrow> None)
     \<lparr>mr_Name = [], mr_Namespace = []\<rparr>"

definition JobCondition_T :: "(cell, JobCondition) gotype" where [go_types]:
  "JobCondition_T = GoType (\<lambda>xs. Obj (C_JobCondition xs))
     (\<lambda>c. case c of Obj (C_JobCondition xs) \<Rightarrow> Some xs | _ \<Rightarrow> None)
     \<lparr>jc_Type = [], jc_Status = [], jc_Message = []\<rparr>"

definition JobSpec_T :: "(cell, JobSpec_m) gotype" where [go_types]:
  "JobSpec_T = GoType (\<lambda>xs. Obj (C_JobSpec xs))
     (\<lambda>c. case c of Obj (C_JobSpec xs) \<Rightarrow> Some xs | _ \<Rightarrow> None)
     zero_JobSpec"

definition JobStatus_T :: "(cell, JobStatus_m) gotype" where [go_types]:
  "JobStatus_T = GoType (\<lambda>xs. Obj (C_JobStatus xs))
     (\<lambda>c. case c of Obj (C_JobStatus xs) \<Rightarrow> Some xs | _ \<Rightarrow> None)
     zero_JobStatus"

definition Job_T :: "(cell, Job_m) gotype" where [go_types]:
  "Job_T = GoType (\<lambda>xs. Obj (C_Job xs))
     (\<lambda>c. case c of Obj (C_Job xs) \<Rightarrow> Some xs | _ \<Rightarrow> None)
     zero_Job"

definition TaskCondition_T :: "(cell, TaskCondition) gotype" where [go_types]:
  "TaskCondition_T = GoType (\<lambda>xs. Tsk (C_TaskCondition xs))
     (\<lambda>c. case c of Tsk (C_TaskCondition xs) \<Rightarrow> Some xs | _ \<Rightarrow> None)
     \<lparr>tc_Type = [], tc_Status = [], tc_Message = []\<rparr>"

definition TaskSpec_T :: "(cell, TaskSpec_m) gotype" where [go_types]:
  "TaskSpec_T = GoType (\<lambda>xs. Tsk (C_TaskSpec xs))
     (\<lambda>c. case c of Tsk (C_TaskSpec xs) \<Rightarrow> Some xs | _ \<Rightarrow> None)
     zero_TaskSpec"

definition TaskStatus_T :: "(cell, TaskStatus_m) gotype" where [go_types]:
  "TaskStatus_T = GoType (\<lambda>xs. Tsk (C_TaskStatus xs))
     (\<lambda>c. case c of Tsk (C_TaskStatus xs) \<Rightarrow> Some xs | _ \<Rightarrow> None)
     zero_TaskStatus"

definition Task_T :: "(cell, Task_m) gotype" where [go_types]:
  "Task_T = GoType (\<lambda>xs. Tsk (C_Task xs))
     (\<lambda>c. case c of Tsk (C_Task xs) \<Rightarrow> Some xs | _ \<Rightarrow> None)
     zero_Task"

definition MachineList_T :: "(cell, MachineList_m) gotype" where [go_types]:
  "MachineList_T = GoType (\<lambda>xs. Tsk (C_MachineList xs))
     (\<lambda>c. case c of Tsk (C_MachineList xs) \<Rightarrow> Some xs | _ \<Rightarrow> None)
     zero_MachineList"

definition JobList_T :: "(cell, JobList_m) gotype" where [go_types]:
  "JobList_T = GoType (\<lambda>xs. Tsk (C_JobList xs))
     (\<lambda>c. case c of Tsk (C_JobList xs) \<Rightarrow> Some xs | _ \<Rightarrow> None)
     zero_JobList"

definition TaskList_T :: "(cell, TaskList_m) gotype" where [go_types]:
  "TaskList_T = GoType (\<lambda>xs. Tsk (C_TaskList xs))
     (\<lambda>c. case c of Tsk (C_TaskList xs) \<Rightarrow> Some xs | _ \<Rightarrow> None)
     zero_TaskList"

lemma valid_types [simp, intro]:
  "valid_type string_T" "valid_type bool_T" "valid_type int_T" "valid_type time_T"
  "valid_type OwnerReference_T" "valid_type SecretReference_T" "valid_type HMACSecrets_T"
  "valid_type IntelAMTOptions_T" "valid_type IPMITOOLOptions_T" "valid_type RedfishOptions_T"
  "valid_type RequestOpts_T" "valid_type SignatureOpts_T" "valid_type HMACOpts_T"
  "valid_type ExperimentalOpts_T" "valid_type RPCOptions_T" "valid_type ProviderOptions_T"
  "valid_type Connection_T" "valid_type table_T" "valid_type OneTimeBootDeviceAction_T"
  "valid_type VirtualMediaAction_T" "valid_type Action_T" "valid_type MachineCondition_T"
  "valid_type MachineSpec_T" "valid_type MachineStatus_T" "valid_type Machine_T"
  "valid_type MachineRef_T" "valid_type JobCondition_T" "valid_type JobSpec_T"
  "valid_type JobStatus_T" "valid_type Job_T" "valid_type TaskCondition_T" "valid_type TaskSpec_T"
  "valid_type TaskStatus_T" "valid_type Task_T" "valid_type MachineList_T" "valid_type JobList_T"
  "valid_type TaskList_T"
  by (simp_all add: valid_type_def go_types)

section \<open>Readers\<close>

text \<open>
  The pointers of a struct are read in the order of its fields, and the value is built from
  what they give and the fields without pointers.
\<close>

definition value_OwnerReference :: "OwnerReference_m \<Rightarrow> bool option \<Rightarrow> OwnerReference" where
  "value_OwnerReference m x =
     \<lparr>or_APIVersion = orm_APIVersion m, or_Kind = orm_Kind m, or_Name = orm_Name m,
       or_UID = orm_UID m, or_Controller = x\<rparr>"

definition read_OwnerReference :: "(cell, OwnerReference_m, OwnerReference) reads" where
  "read_OwnerReference h m = map_option (\<lambda>(v, A). (value_OwnerReference m v, A))
     (read_ptr bool_T read_flat
       h (orm_Controller m))"

definition value_ObjectMeta :: "ObjectMeta_m \<Rightarrow> time option \<times> OwnerReference list \<Rightarrow> ObjectMeta" where
  "value_ObjectMeta m v = (case v of (x, y) \<Rightarrow>
     \<lparr>om_Name = omm_Name m, om_Namespace = omm_Namespace m, om_UID = omm_UID m,
       om_DeletionTimestamp = x, om_OwnerReferences = y\<rparr>)"

definition read_ObjectMeta :: "(cell, ObjectMeta_m, ObjectMeta) reads" where
  "read_ObjectMeta h m = map_option (\<lambda>(v, A). (value_ObjectMeta m v, A))
     (read_pair (read_ptr time_T read_flat)
       (read_slice OwnerReference_T read_OwnerReference)
       h (omm_DeletionTimestamp m, omm_OwnerReferences m))"

definition value_ListMeta :: "ListMeta_m \<Rightarrow> int option \<Rightarrow> ListMeta" where
  "value_ListMeta m x =
     \<lparr>lm_ResourceVersion = lmm_ResourceVersion m, lm_Continue = lmm_Continue m,
       lm_RemainingItemCount = x\<rparr>"

definition read_ListMeta :: "(cell, ListMeta_m, ListMeta) reads" where
  "read_ListMeta h m = map_option (\<lambda>(v, A). (value_ListMeta m v, A))
     (read_ptr int_T read_flat
       h (lmm_RemainingItemCount m))"

definition value_OneTimeBootDeviceAction :: "OneTimeBootDeviceAction_m \<Rightarrow> string list \<Rightarrow> OneTimeBootDeviceAction" where
  "value_OneTimeBootDeviceAction m x =
     \<lparr>bda_Devices = x, bda_EFIBoot = bdam_EFIBoot m\<rparr>"

definition read_OneTimeBootDeviceAction :: "(cell, OneTimeBootDeviceAction_m, OneTimeBootDeviceAction) reads" where
  "read_OneTimeBootDeviceAction h m = map_option (\<lambda>(v, A). (value_OneTimeBootDeviceAction m v, A))
     (read_slice string_T read_flat
       h (bdam_Devices m))"

definition value_Action :: "Action_m \<Rightarrow> string option \<times> OneTimeBootDeviceAction option \<times> VirtualMediaAction option \<Rightarrow> Action" where
  "value_Action m v = (case v of (x, y, z) \<Rightarrow>
     \<lparr>act_PowerAction = x, act_OneTimeBootDeviceAction = y,
       act_VirtualMediaAction = z\<rparr>)"

definition read_Action :: "(cell, Action_m, Action) reads" where
  "read_Action h m = map_option (\<lambda>(v, A). (value_Action m v, A))
     (read_pair (read_ptr string_T read_flat)
       (read_pair (read_ptr OneTimeBootDeviceAction_T read_OneTimeBootDeviceAction)
       (read_ptr VirtualMediaAction_T read_flat))
       h (actm_PowerAction m, actm_OneTimeBootDeviceAction m, actm_VirtualMediaAction m))"

definition value_RequestOpts :: "RequestOpts_m \<Rightarrow> (string \<times> string list) list \<Rightarrow> RequestOpts" where
  "value_RequestOpts m x =
     \<lparr>rq_HTTPContentType = rqm_HTTPContentType m, rq_HTTPMethod = rqm_HTTPMethod m,
       rq_StaticHeaders = x, rq_TimestampFormat = rqm_TimestampFormat m,
       rq_TimestampHeader = rqm_TimestampHeader m\<rparr>"

definition read_RequestOpts :: "(cell, RequestOpts_m, RequestOpts) reads" where
  "read_RequestOpts h m = map_option (\<lambda>(v, A). (value_RequestOpts m v, A))
     (read_map table_T string_T read_flat
       h (rqm_StaticHeaders m))"

definition value_SignatureOpts :: "SignatureOpts_m \<Rightarrow> string list \<Rightarrow> SignatureOpts" where
  "value_SignatureOpts m x =
     \<lparr>sg_HeaderName = sgm_HeaderName m,
       sg_AppendAlgoToHeaderDisabled = sgm_AppendAlgoToHeaderDisabled m,
       sg_IncludedPayloadHeaders = x\<rparr>"

definition read_SignatureOpts :: "(cell, SignatureOpts_m, SignatureOpts) reads" where
  "read_SignatureOpts h m = map_option (\<lambda>(v, A). (value_SignatureOpts m v, A))
     (read_slice string_T read_flat
       h (sgm_IncludedPayloadHeaders m))"

definition value_HMACOpts :: "HMACOpts_m \<Rightarrow> (string \<times> SecretReference list) list \<Rightarrow> HMACOpts" where
  "value_HMACOpts m x =
     \<lparr>hm_PrefixSigDisabled = hmm_PrefixSigDisabled m, hm_Secrets = x\<rparr>"

definition read_HMACOpts :: "(cell, HMACOpts_m, HMACOpts) reads" where
  "read_HMACOpts h m = map_option (\<lambda>(v, A). (value_HMACOpts m v, A))
     (read_map table_T SecretReference_T read_flat
       h (hmm_Secrets m))"

definition value_RPCOptions :: "RPCOptions_m \<Rightarrow> RequestOpts option \<times> SignatureOpts option \<times> HMACOpts option \<times> ExperimentalOpts option \<Rightarrow> RPCOptions" where
  "value_RPCOptions m v = (case v of (x, y, z, u) \<Rightarrow>
     \<lparr>rpc_ConsumerURL = rpcm_ConsumerURL m,
       rpc_LogNotificationsDisabled = rpcm_LogNotificationsDisabled m, rpc_Request = x,
       rpc_Signature = y, rpc_HMAC = z, rpc_Experimental = u\<rparr>)"

definition read_RPCOptions :: "(cell, RPCOptions_m, RPCOptions) reads" where
  "read_RPCOptions h m = map_option (\<lambda>(v, A). (value_RPCOptions m v, A))
     (read_pair (read_ptr RequestOpts_T read_RequestOpts)
       (read_pair (read_ptr SignatureOpts_T read_SignatureOpts)
       (read_pair (read_ptr HMACOpts_T read_HMACOpts)
       (read_ptr ExperimentalOpts_T read_flat)))
       h (rpcm_Request m, rpcm_Signature m, rpcm_HMAC m, rpcm_Experimental m))"

definition value_ProviderOptions :: "ProviderOptions_m \<Rightarrow> string list \<times> IntelAMTOptions option \<times> IPMITOOLOptions option \<times> RedfishOptions option \<times> RPCOptions option \<Rightarrow> ProviderOptions" where
  "value_ProviderOptions m v = (case v of (x, y, z, u, v) \<Rightarrow>
     \<lparr>po_PreferredOrder = x, po_IntelAMT = y, po_IPMITOOL = z, po_Redfish = u,
       po_RPC = v\<rparr>)"

definition read_ProviderOptions :: "(cell, ProviderOptions_m, ProviderOptions) reads" where
  "read_ProviderOptions h m = map_option (\<lambda>(v, A). (value_ProviderOptions m v, A))
     (read_pair (read_slice string_T read_flat)
       (read_pair (read_ptr IntelAMTOptions_T read_flat)
       (read_pair (read_ptr IPMITOOLOptions_T read_flat)
       (read_pair (read_ptr RedfishOptions_T read_flat)
       (read_ptr RPCOptions_T read_RPCOptions))))
       h (pom_PreferredOrder m, pom_IntelAMT m, pom_IPMITOOL m, pom_Redfish m, pom_RPC m))"

definition value_Connection :: "Connection_m \<Rightarrow> ProviderOptions option \<Rightarrow> Connection" where
  "value_Connection m x =
     \<lparr>cn_Host = cnm_Host m, cn_Port = cnm_Port m, cn_AuthSecretRef = cnm_AuthSecretRef m,
       cn_InsecureTLS = cnm_InsecureTLS m, cn_ProviderOptions = x\<rparr>"

definition read_Connection :: "(cell, Connection_m, Connection) reads" where
  "read_Connection h m = map_option (\<lambda>(v, A). (value_Connection m v, A))
     (read_ptr ProviderOptions_T read_ProviderOptions
       h (cnm_ProviderOptions m))"

definition value_MachineSpec :: "MachineSpec_m \<Rightarrow> Connection \<Rightarrow> MachineSpec" where
  "value_MachineSpec m x =
     \<lparr>msp_Connection = x\<rparr>"

definition read_MachineSpec :: "(cell, MachineSpec_m, MachineSpec) reads" where
  "read_MachineSpec h m = map_option (\<lambda>(v, A). (value_MachineSpec m v, A))
     (read_Connection
       h (mspm_Connection m))"

definition value_MachineStatus :: "MachineStatus_m \<Rightarrow> MachineCondition list \<Rightarrow> MachineStatus" where
  "value_MachineStatus m x =
     \<lparr>ms_Power = msm_Power m, ms_Conditions = x\<rparr>"

definition read_MachineStatus :: "(cell, MachineStatus_m, MachineStatus) reads" where
  "read_MachineStatus h m = map_option (\<lambda>(v, A). (value_MachineStatus m v, A))
     (read_slice MachineCondition_T read_flat
       h (msm_Conditions m))"

definition value_Machine :: "Machine_m \<Rightarrow> ObjectMeta \<times> MachineSpec \<times> MachineStatus \<Rightarrow> Machine" where
  "value_Machine m v = (case v of (x, y, z) \<Rightarrow>
     \<lparr>machine_TypeMeta = machinem_TypeMeta m, machine_ObjectMeta = x, machine_Spec = y,
       machine_Status = z\<rparr>)"

definition read_Machine :: "(cell, Machine_m, Machine) reads" where
  "read_Machine h m = map_option (\<lambda>(v, A). (value_Machine m v, A))
     (read_pair (read_ObjectMeta)
       (read_pair (read_MachineSpec)
       (read_MachineStatus))
       h (machinem_ObjectMeta m, machinem_Spec m, machinem_Status m))"

definition value_MachineList :: "MachineList_m \<Rightarrow> ListMeta \<times> Machine list \<Rightarrow> MachineList" where
  "value_MachineList m v = (case v of (x, y) \<Rightarrow>
     \<lparr>ml_TypeMeta = mlm_TypeMeta m, ml_ListMeta = x, ml_Items = y\<rparr>)"

definition read_MachineList :: "(cell, MachineList_m, MachineList) reads" where
  "read_MachineList h m = map_option (\<lambda>(v, A). (value_MachineList m v, A))
     (read_pair (read_ListMeta)
       (read_slice Machine_T read_Machine)
       h (mlm_ListMeta m, mlm_Items m))"

definition value_JobSpec :: "JobSpec_m \<Rightarrow> Action list \<Rightarrow> JobSpec" where
  "value_JobSpec m x =
     \<lparr>jsp_MachineRef = jspm_MachineRef m, jsp_Tasks = x\<rparr>"

definition read_JobSpec :: "(cell, JobSpec_m, JobSpec) reads" where
  "read_JobSpec h m = map_option (\<lambda>(v, A). (value_JobSpec m v, A))
     (read_slice Action_T read_Action
       h (jspm_Tasks m))"

definition value_JobStatus :: "JobStatus_m \<Rightarrow> JobCondition list \<times> time option \<times> time option \<Rightarrow> JobStatus" where
  "value_JobStatus m v = (case v of (x, y, z) \<Rightarrow>
     \<lparr>js_Conditions = x, js_StartTime = y, js_CompletionTime = z\<rparr>)"

definition read_JobStatus :: "(cell, JobStatus_m, JobStatus) reads" where
  "read_JobStatus h m = map_option (\<lambda>(v, A). (value_JobStatus m v, A))
     (read_pair (read_slice JobCondition_T read_flat)
       (read_pair (read_ptr time_T read_flat)
       (read_ptr time_T read_flat))
       h (jsm_Conditions m, jsm_StartTime m, jsm_CompletionTime m))"

definition value_Job :: "Job_m \<Rightarrow> ObjectMeta \<times> JobSpec \<times> JobStatus \<Rightarrow> Job" where
  "value_Job m v = (case v of (x, y, z) \<Rightarrow>
     \<lparr>job_TypeMeta = jobm_TypeMeta m, job_ObjectMeta = x, job_Spec = y,
       job_Status = z\<rparr>)"

definition read_Job :: "(cell, Job_m, Job) reads" where
  "read_Job h m = map_option (\<lambda>(v, A). (value_Job m v, A))
     (read_pair (read_ObjectMeta)
       (read_pair (read_JobSpec)
       (read_JobStatus))
       h (jobm_ObjectMeta m, jobm_Spec m, jobm_Status m))"

definition value_JobList :: "JobList_m \<Rightarrow> ListMeta \<times> Job list \<Rightarrow> JobList" where
  "value_JobList m v = (case v of (x, y) \<Rightarrow>
     \<lparr>jl_TypeMeta = jlm_TypeMeta m, jl_ListMeta = x, jl_Items = y\<rparr>)"

definition read_JobList :: "(cell, JobList_m, JobList) reads" where
  "read_JobList h m = map_option (\<lambda>(v, A). (value_JobList m v, A))
     (read_pair (read_ListMeta)
       (read_slice Job_T read_Job)
       h (jlm_ListMeta m, jlm_Items m))"

definition value_TaskSpec :: "TaskSpec_m \<Rightarrow> Action \<times> Connection \<Rightarrow> TaskSpec" where
  "value_TaskSpec m v = (case v of (x, y) \<Rightarrow>
     \<lparr>tsp_Task = x, tsp_Connection = y\<rparr>)"

definition read_TaskSpec :: "(cell, TaskSpec_m, TaskSpec) reads" where
  "read_TaskSpec h m = map_option (\<lambda>(v, A). (value_TaskSpec m v, A))
     (read_pair (read_Action)
       (read_Connection)
       h (tspm_Task m, tspm_Connection m))"

definition value_TaskStatus :: "TaskStatus_m \<Rightarrow> TaskCondition list \<times> time option \<times> time option \<Rightarrow> TaskStatus" where
  "value_TaskStatus m v = (case v of (x, y, z) \<Rightarrow>
     \<lparr>ts_Conditions = x, ts_StartTime = y, ts_CompletionTime = z\<rparr>)"

definition read_TaskStatus :: "(cell, TaskStatus_m, TaskStatus) reads" where
  "read_TaskStatus h m = map_option (\<lambda>(v, A). (value_TaskStatus m v, A))
     (read_pair (read_slice TaskCondition_T read_flat)
       (read_pair (read_ptr time_T read_flat)
       (read_ptr time_T read_flat))
       h (tsm_Conditions m, tsm_StartTime m, tsm_CompletionTime m))"

definition value_Task :: "Task_m \<Rightarrow> ObjectMeta \<times> TaskSpec \<times> TaskStatus \<Rightarrow> Task" where
  "value_Task m v = (case v of (x, y, z) \<Rightarrow>
     \<lparr>task_TypeMeta = taskm_TypeMeta m, task_ObjectMeta = x, task_Spec = y,
       task_Status = z\<rparr>)"

definition read_Task :: "(cell, Task_m, Task) reads" where
  "read_Task h m = map_option (\<lambda>(v, A). (value_Task m v, A))
     (read_pair (read_ObjectMeta)
       (read_pair (read_TaskSpec)
       (read_TaskStatus))
       h (taskm_ObjectMeta m, taskm_Spec m, taskm_Status m))"

definition value_TaskList :: "TaskList_m \<Rightarrow> ListMeta \<times> Task list \<Rightarrow> TaskList" where
  "value_TaskList m v = (case v of (x, y) \<Rightarrow>
     \<lparr>tl_TypeMeta = tlm_TypeMeta m, tl_ListMeta = x, tl_Items = y\<rparr>)"

definition read_TaskList :: "(cell, TaskList_m, TaskList) reads" where
  "read_TaskList h m = map_option (\<lambda>(v, A). (value_TaskList m v, A))
     (read_pair (read_ListMeta)
       (read_slice Task_T read_Task)
       h (tlm_ListMeta m, tlm_Items m))"

section \<open>A pointer to an action\<close>

text \<open>\<open>Ptr\<close> returns the address of its receiver, which is a variable of its own.\<close>

definition PowerAction_Ptr :: "PowerAction \<Rightarrow> (cell, addr) mprog" where
  "PowerAction_Ptr p = alloc string_T [p]"

lemma PowerAction_Ptr_reads:
  "wp (PowerAction_Ptr p) (\<lambda>a h'. extends h h' \<and> read_ptr string_T read_flat h' (Some a) = Some (Some p, [Some a])) h"
  using array_at_add_cell [of string_T "[p]" h]
  by (simp add: PowerAction_Ptr_def wp_simps extends_add_cell read_ptr_Some read_flat_def)

end
