(* ===== verification/Deep_Copies.thy ===== *)
theory Deep_Copies
  imports Api_Memory
begin

text \<open>
  The generated deep copies of the API types (\<open>api/v1alpha1/zz_generated.deepcopy.go\<close>).
  A \<open>T_DeepCopyInto\<close> takes the struct \<open>*in\<close> and gives the struct it leaves in \<open>*out\<close>,
  allocating what \<open>out\<close> points to; a \<open>T_DeepCopy\<close> takes and gives a pointer; a
  \<open>DeepCopyObject\<close> gives the pointer as a \<open>runtime.Object\<close>.  The copies of the
  Kubernetes metadata and of \<open>metav1.Time\<close> are library code and so parameters.
\<close>

section \<open>The copies of the metadata library\<close>

record metalib =
  Time_DeepCopy :: "addr option \<Rightarrow> (cell, addr option) mprog"
  Time_DeepCopyInto :: "time \<Rightarrow> (cell, time) mprog"
  ObjectMeta_DeepCopyInto :: "ObjectMeta_m \<Rightarrow> (cell, ObjectMeta_m) mprog"
  ListMeta_DeepCopyInto :: "ListMeta_m \<Rightarrow> (cell, ListMeta_m) mprog"

text \<open>What the library documents of them: they are deep copies.\<close>

definition metalib_ok :: "metalib \<Rightarrow> bool" where
  "metalib_ok L \<longleftrightarrow> copier (read_ptr time_T read_flat) (Time_DeepCopy L) \<and>
     copier read_flat (Time_DeepCopyInto L) \<and>
     copier read_ObjectMeta (ObjectMeta_DeepCopyInto L) \<and>
     copier read_ListMeta (ListMeta_DeepCopyInto L)"

text \<open>The block \<open>if in.F != nil { *out = (*in).DeepCopy() }\<close> of a time field.\<close>

definition copy_time :: "metalib \<Rightarrow> addr option \<Rightarrow> (cell, addr option) mprog" where
  "copy_time L p = (case p of
     None \<Rightarrow> State_Monad.return None
   | Some a \<Rightarrow> Time_DeepCopy L (Some a))"

section \<open>DeepCopyInto\<close>

text \<open>Types without pointers: \<open>*out = *in\<close>.\<close>

definition ExperimentalOpts_DeepCopyInto :: "ExperimentalOpts \<Rightarrow> (cell, ExperimentalOpts) mprog" where
  "ExperimentalOpts_DeepCopyInto inp = State_Monad.return inp"

definition IPMITOOLOptions_DeepCopyInto :: "IPMITOOLOptions \<Rightarrow> (cell, IPMITOOLOptions) mprog" where
  "IPMITOOLOptions_DeepCopyInto inp = State_Monad.return inp"

definition IntelAMTOptions_DeepCopyInto :: "IntelAMTOptions \<Rightarrow> (cell, IntelAMTOptions) mprog" where
  "IntelAMTOptions_DeepCopyInto inp = State_Monad.return inp"

definition JobCondition_DeepCopyInto :: "JobCondition \<Rightarrow> (cell, JobCondition) mprog" where
  "JobCondition_DeepCopyInto inp = State_Monad.return inp"

definition MachineRef_DeepCopyInto :: "MachineRef \<Rightarrow> (cell, MachineRef) mprog" where
  "MachineRef_DeepCopyInto inp = State_Monad.return inp"

definition RedfishOptions_DeepCopyInto :: "RedfishOptions \<Rightarrow> (cell, RedfishOptions) mprog" where
  "RedfishOptions_DeepCopyInto inp = State_Monad.return inp"

definition TaskCondition_DeepCopyInto :: "TaskCondition \<Rightarrow> (cell, TaskCondition) mprog" where
  "TaskCondition_DeepCopyInto inp = State_Monad.return inp"

definition VirtualMediaAction_DeepCopyInto :: "VirtualMediaAction \<Rightarrow> (cell, VirtualMediaAction) mprog" where
  "VirtualMediaAction_DeepCopyInto inp = State_Monad.return inp"

text \<open>
  \<open>MachineCondition\<close> has its time copied by the library, and \<open>HMACSecrets\<close> is a map whose
  \<open>DeepCopyInto\<close> makes a map even of a nil one.
\<close>

definition MachineCondition_DeepCopyInto :: "metalib \<Rightarrow> MachineCondition \<Rightarrow> (cell, MachineCondition) mprog" where
  "MachineCondition_DeepCopyInto L inp = do {
     let out = inp;
     t \<leftarrow> Time_DeepCopyInto L (mc_LastUpdateTime inp);
     let out = out\<lparr>mc_LastUpdateTime := t\<rparr>;
     State_Monad.return out
   }"

definition HMACSecrets_DeepCopyInto :: "addr option \<Rightarrow> (cell, addr option) mprog" where
  "HMACSecrets_DeepCopyInto inp = (case inp of
     None \<Rightarrow> do {
       out \<leftarrow> alloc table_T [[]];
       State_Monad.return (Some out)
     }
   | Some a \<Rightarrow> copy_map table_T SecretReference_T copy_flat (Some a))"

text \<open>Structs with pointers: \<open>*out = *in\<close>, and then the fields that point to something.\<close>

definition OneTimeBootDeviceAction_DeepCopyInto :: "OneTimeBootDeviceAction_m \<Rightarrow> (cell, OneTimeBootDeviceAction_m) mprog" where
  "OneTimeBootDeviceAction_DeepCopyInto inp = do {
     let out = inp;
     p \<leftarrow> copy_slice string_T copy_flat (bdam_Devices inp);
     let out = out\<lparr>bdam_Devices := p\<rparr>;
     State_Monad.return out
   }"

definition Action_DeepCopyInto :: "Action_m \<Rightarrow> (cell, Action_m) mprog" where
  "Action_DeepCopyInto inp = do {
     let out = inp;
     p \<leftarrow> copy_ptr string_T copy_flat (actm_PowerAction inp);
     let out = out\<lparr>actm_PowerAction := p\<rparr>;
     p \<leftarrow> copy_ptr OneTimeBootDeviceAction_T OneTimeBootDeviceAction_DeepCopyInto (actm_OneTimeBootDeviceAction inp);
     let out = out\<lparr>actm_OneTimeBootDeviceAction := p\<rparr>;
     p \<leftarrow> copy_ptr VirtualMediaAction_T copy_flat (actm_VirtualMediaAction inp);
     let out = out\<lparr>actm_VirtualMediaAction := p\<rparr>;
     State_Monad.return out
   }"

definition RequestOpts_DeepCopyInto :: "RequestOpts_m \<Rightarrow> (cell, RequestOpts_m) mprog" where
  "RequestOpts_DeepCopyInto inp = do {
     let out = inp;
     p \<leftarrow> copy_map table_T string_T copy_flat (rqm_StaticHeaders inp);
     let out = out\<lparr>rqm_StaticHeaders := p\<rparr>;
     State_Monad.return out
   }"

definition SignatureOpts_DeepCopyInto :: "SignatureOpts_m \<Rightarrow> (cell, SignatureOpts_m) mprog" where
  "SignatureOpts_DeepCopyInto inp = do {
     let out = inp;
     p \<leftarrow> copy_slice string_T copy_flat (sgm_IncludedPayloadHeaders inp);
     let out = out\<lparr>sgm_IncludedPayloadHeaders := p\<rparr>;
     State_Monad.return out
   }"

definition HMACOpts_DeepCopyInto :: "HMACOpts_m \<Rightarrow> (cell, HMACOpts_m) mprog" where
  "HMACOpts_DeepCopyInto inp = do {
     let out = inp;
     p \<leftarrow> copy_map table_T SecretReference_T copy_flat (hmm_Secrets inp);
     let out = out\<lparr>hmm_Secrets := p\<rparr>;
     State_Monad.return out
   }"

definition RPCOptions_DeepCopyInto :: "RPCOptions_m \<Rightarrow> (cell, RPCOptions_m) mprog" where
  "RPCOptions_DeepCopyInto inp = do {
     let out = inp;
     p \<leftarrow> copy_ptr RequestOpts_T RequestOpts_DeepCopyInto (rpcm_Request inp);
     let out = out\<lparr>rpcm_Request := p\<rparr>;
     p \<leftarrow> copy_ptr SignatureOpts_T SignatureOpts_DeepCopyInto (rpcm_Signature inp);
     let out = out\<lparr>rpcm_Signature := p\<rparr>;
     p \<leftarrow> copy_ptr HMACOpts_T HMACOpts_DeepCopyInto (rpcm_HMAC inp);
     let out = out\<lparr>rpcm_HMAC := p\<rparr>;
     p \<leftarrow> copy_ptr ExperimentalOpts_T copy_flat (rpcm_Experimental inp);
     let out = out\<lparr>rpcm_Experimental := p\<rparr>;
     State_Monad.return out
   }"

definition ProviderOptions_DeepCopyInto :: "ProviderOptions_m \<Rightarrow> (cell, ProviderOptions_m) mprog" where
  "ProviderOptions_DeepCopyInto inp = do {
     let out = inp;
     p \<leftarrow> copy_slice string_T copy_flat (pom_PreferredOrder inp);
     let out = out\<lparr>pom_PreferredOrder := p\<rparr>;
     p \<leftarrow> copy_ptr IntelAMTOptions_T copy_flat (pom_IntelAMT inp);
     let out = out\<lparr>pom_IntelAMT := p\<rparr>;
     p \<leftarrow> copy_ptr IPMITOOLOptions_T copy_flat (pom_IPMITOOL inp);
     let out = out\<lparr>pom_IPMITOOL := p\<rparr>;
     p \<leftarrow> copy_ptr RedfishOptions_T copy_flat (pom_Redfish inp);
     let out = out\<lparr>pom_Redfish := p\<rparr>;
     p \<leftarrow> copy_ptr RPCOptions_T RPCOptions_DeepCopyInto (pom_RPC inp);
     let out = out\<lparr>pom_RPC := p\<rparr>;
     State_Monad.return out
   }"

definition Connection_DeepCopyInto :: "Connection_m \<Rightarrow> (cell, Connection_m) mprog" where
  "Connection_DeepCopyInto inp = do {
     let out = inp;
     let out = out\<lparr>cnm_AuthSecretRef := cnm_AuthSecretRef inp\<rparr>;
     p \<leftarrow> copy_ptr ProviderOptions_T ProviderOptions_DeepCopyInto (cnm_ProviderOptions inp);
     let out = out\<lparr>cnm_ProviderOptions := p\<rparr>;
     State_Monad.return out
   }"

definition MachineSpec_DeepCopyInto :: "MachineSpec_m \<Rightarrow> (cell, MachineSpec_m) mprog" where
  "MachineSpec_DeepCopyInto inp = do {
     let out = inp;
     p \<leftarrow> Connection_DeepCopyInto (mspm_Connection inp);
     let out = out\<lparr>mspm_Connection := p\<rparr>;
     State_Monad.return out
   }"

definition MachineStatus_DeepCopyInto :: "metalib \<Rightarrow> MachineStatus_m \<Rightarrow> (cell, MachineStatus_m) mprog" where
  "MachineStatus_DeepCopyInto L inp = do {
     let out = inp;
     p \<leftarrow> copy_slice MachineCondition_T (MachineCondition_DeepCopyInto L) (msm_Conditions inp);
     let out = out\<lparr>msm_Conditions := p\<rparr>;
     State_Monad.return out
   }"

definition Machine_DeepCopyInto :: "metalib \<Rightarrow> Machine_m \<Rightarrow> (cell, Machine_m) mprog" where
  "Machine_DeepCopyInto L inp = do {
     let out = inp;
     let out = out\<lparr>machinem_TypeMeta := machinem_TypeMeta inp\<rparr>;
     p \<leftarrow> ObjectMeta_DeepCopyInto L (machinem_ObjectMeta inp);
     let out = out\<lparr>machinem_ObjectMeta := p\<rparr>;
     p \<leftarrow> MachineSpec_DeepCopyInto (machinem_Spec inp);
     let out = out\<lparr>machinem_Spec := p\<rparr>;
     p \<leftarrow> MachineStatus_DeepCopyInto L (machinem_Status inp);
     let out = out\<lparr>machinem_Status := p\<rparr>;
     State_Monad.return out
   }"

definition MachineList_DeepCopyInto :: "metalib \<Rightarrow> MachineList_m \<Rightarrow> (cell, MachineList_m) mprog" where
  "MachineList_DeepCopyInto L inp = do {
     let out = inp;
     let out = out\<lparr>mlm_TypeMeta := mlm_TypeMeta inp\<rparr>;
     p \<leftarrow> ListMeta_DeepCopyInto L (mlm_ListMeta inp);
     let out = out\<lparr>mlm_ListMeta := p\<rparr>;
     p \<leftarrow> copy_slice Machine_T (Machine_DeepCopyInto L) (mlm_Items inp);
     let out = out\<lparr>mlm_Items := p\<rparr>;
     State_Monad.return out
   }"

definition JobSpec_DeepCopyInto :: "JobSpec_m \<Rightarrow> (cell, JobSpec_m) mprog" where
  "JobSpec_DeepCopyInto inp = do {
     let out = inp;
     let out = out\<lparr>jspm_MachineRef := jspm_MachineRef inp\<rparr>;
     p \<leftarrow> copy_slice Action_T Action_DeepCopyInto (jspm_Tasks inp);
     let out = out\<lparr>jspm_Tasks := p\<rparr>;
     State_Monad.return out
   }"

definition JobStatus_DeepCopyInto :: "metalib \<Rightarrow> JobStatus_m \<Rightarrow> (cell, JobStatus_m) mprog" where
  "JobStatus_DeepCopyInto L inp = do {
     let out = inp;
     p \<leftarrow> copy_slice JobCondition_T copy_flat (jsm_Conditions inp);
     let out = out\<lparr>jsm_Conditions := p\<rparr>;
     p \<leftarrow> copy_time L (jsm_StartTime inp);
     let out = out\<lparr>jsm_StartTime := p\<rparr>;
     p \<leftarrow> copy_time L (jsm_CompletionTime inp);
     let out = out\<lparr>jsm_CompletionTime := p\<rparr>;
     State_Monad.return out
   }"

definition Job_DeepCopyInto :: "metalib \<Rightarrow> Job_m \<Rightarrow> (cell, Job_m) mprog" where
  "Job_DeepCopyInto L inp = do {
     let out = inp;
     let out = out\<lparr>jobm_TypeMeta := jobm_TypeMeta inp\<rparr>;
     p \<leftarrow> ObjectMeta_DeepCopyInto L (jobm_ObjectMeta inp);
     let out = out\<lparr>jobm_ObjectMeta := p\<rparr>;
     p \<leftarrow> JobSpec_DeepCopyInto (jobm_Spec inp);
     let out = out\<lparr>jobm_Spec := p\<rparr>;
     p \<leftarrow> JobStatus_DeepCopyInto L (jobm_Status inp);
     let out = out\<lparr>jobm_Status := p\<rparr>;
     State_Monad.return out
   }"

definition JobList_DeepCopyInto :: "metalib \<Rightarrow> JobList_m \<Rightarrow> (cell, JobList_m) mprog" where
  "JobList_DeepCopyInto L inp = do {
     let out = inp;
     let out = out\<lparr>jlm_TypeMeta := jlm_TypeMeta inp\<rparr>;
     p \<leftarrow> ListMeta_DeepCopyInto L (jlm_ListMeta inp);
     let out = out\<lparr>jlm_ListMeta := p\<rparr>;
     p \<leftarrow> copy_slice Job_T (Job_DeepCopyInto L) (jlm_Items inp);
     let out = out\<lparr>jlm_Items := p\<rparr>;
     State_Monad.return out
   }"

definition TaskSpec_DeepCopyInto :: "TaskSpec_m \<Rightarrow> (cell, TaskSpec_m) mprog" where
  "TaskSpec_DeepCopyInto inp = do {
     let out = inp;
     p \<leftarrow> Action_DeepCopyInto (tspm_Task inp);
     let out = out\<lparr>tspm_Task := p\<rparr>;
     p \<leftarrow> Connection_DeepCopyInto (tspm_Connection inp);
     let out = out\<lparr>tspm_Connection := p\<rparr>;
     State_Monad.return out
   }"

definition TaskStatus_DeepCopyInto :: "metalib \<Rightarrow> TaskStatus_m \<Rightarrow> (cell, TaskStatus_m) mprog" where
  "TaskStatus_DeepCopyInto L inp = do {
     let out = inp;
     p \<leftarrow> copy_slice TaskCondition_T copy_flat (tsm_Conditions inp);
     let out = out\<lparr>tsm_Conditions := p\<rparr>;
     p \<leftarrow> copy_time L (tsm_StartTime inp);
     let out = out\<lparr>tsm_StartTime := p\<rparr>;
     p \<leftarrow> copy_time L (tsm_CompletionTime inp);
     let out = out\<lparr>tsm_CompletionTime := p\<rparr>;
     State_Monad.return out
   }"

definition Task_DeepCopyInto :: "metalib \<Rightarrow> Task_m \<Rightarrow> (cell, Task_m) mprog" where
  "Task_DeepCopyInto L inp = do {
     let out = inp;
     let out = out\<lparr>taskm_TypeMeta := taskm_TypeMeta inp\<rparr>;
     p \<leftarrow> ObjectMeta_DeepCopyInto L (taskm_ObjectMeta inp);
     let out = out\<lparr>taskm_ObjectMeta := p\<rparr>;
     p \<leftarrow> TaskSpec_DeepCopyInto (taskm_Spec inp);
     let out = out\<lparr>taskm_Spec := p\<rparr>;
     p \<leftarrow> TaskStatus_DeepCopyInto L (taskm_Status inp);
     let out = out\<lparr>taskm_Status := p\<rparr>;
     State_Monad.return out
   }"

definition TaskList_DeepCopyInto :: "metalib \<Rightarrow> TaskList_m \<Rightarrow> (cell, TaskList_m) mprog" where
  "TaskList_DeepCopyInto L inp = do {
     let out = inp;
     let out = out\<lparr>tlm_TypeMeta := tlm_TypeMeta inp\<rparr>;
     p \<leftarrow> ListMeta_DeepCopyInto L (tlm_ListMeta inp);
     let out = out\<lparr>tlm_ListMeta := p\<rparr>;
     p \<leftarrow> copy_slice Task_T (Task_DeepCopyInto L) (tlm_Items inp);
     let out = out\<lparr>tlm_Items := p\<rparr>;
     State_Monad.return out
   }"

section \<open>DeepCopy\<close>

text \<open>
  A nil receiver gives nil; another gives a pointer to a new variable that \<open>DeepCopyInto\<close> fills.
\<close>

definition Action_DeepCopy :: "addr option \<Rightarrow> (cell, addr option) mprog" where
  "Action_DeepCopy inp = copy_ptr Action_T Action_DeepCopyInto inp"

definition Connection_DeepCopy :: "addr option \<Rightarrow> (cell, addr option) mprog" where
  "Connection_DeepCopy inp = copy_ptr Connection_T Connection_DeepCopyInto inp"

definition ExperimentalOpts_DeepCopy :: "addr option \<Rightarrow> (cell, addr option) mprog" where
  "ExperimentalOpts_DeepCopy inp = copy_ptr ExperimentalOpts_T ExperimentalOpts_DeepCopyInto inp"

definition HMACOpts_DeepCopy :: "addr option \<Rightarrow> (cell, addr option) mprog" where
  "HMACOpts_DeepCopy inp = copy_ptr HMACOpts_T HMACOpts_DeepCopyInto inp"

definition IPMITOOLOptions_DeepCopy :: "addr option \<Rightarrow> (cell, addr option) mprog" where
  "IPMITOOLOptions_DeepCopy inp = copy_ptr IPMITOOLOptions_T IPMITOOLOptions_DeepCopyInto inp"

definition IntelAMTOptions_DeepCopy :: "addr option \<Rightarrow> (cell, addr option) mprog" where
  "IntelAMTOptions_DeepCopy inp = copy_ptr IntelAMTOptions_T IntelAMTOptions_DeepCopyInto inp"

definition Job_DeepCopy :: "metalib \<Rightarrow> addr option \<Rightarrow> (cell, addr option) mprog" where
  "Job_DeepCopy L inp = copy_ptr Job_T (Job_DeepCopyInto L) inp"

definition JobCondition_DeepCopy :: "addr option \<Rightarrow> (cell, addr option) mprog" where
  "JobCondition_DeepCopy inp = copy_ptr JobCondition_T JobCondition_DeepCopyInto inp"

definition JobList_DeepCopy :: "metalib \<Rightarrow> addr option \<Rightarrow> (cell, addr option) mprog" where
  "JobList_DeepCopy L inp = copy_ptr JobList_T (JobList_DeepCopyInto L) inp"

definition JobSpec_DeepCopy :: "addr option \<Rightarrow> (cell, addr option) mprog" where
  "JobSpec_DeepCopy inp = copy_ptr JobSpec_T JobSpec_DeepCopyInto inp"

definition JobStatus_DeepCopy :: "metalib \<Rightarrow> addr option \<Rightarrow> (cell, addr option) mprog" where
  "JobStatus_DeepCopy L inp = copy_ptr JobStatus_T (JobStatus_DeepCopyInto L) inp"

definition Machine_DeepCopy :: "metalib \<Rightarrow> addr option \<Rightarrow> (cell, addr option) mprog" where
  "Machine_DeepCopy L inp = copy_ptr Machine_T (Machine_DeepCopyInto L) inp"

definition MachineCondition_DeepCopy :: "metalib \<Rightarrow> addr option \<Rightarrow> (cell, addr option) mprog" where
  "MachineCondition_DeepCopy L inp = copy_ptr MachineCondition_T (MachineCondition_DeepCopyInto L) inp"

definition MachineList_DeepCopy :: "metalib \<Rightarrow> addr option \<Rightarrow> (cell, addr option) mprog" where
  "MachineList_DeepCopy L inp = copy_ptr MachineList_T (MachineList_DeepCopyInto L) inp"

definition MachineRef_DeepCopy :: "addr option \<Rightarrow> (cell, addr option) mprog" where
  "MachineRef_DeepCopy inp = copy_ptr MachineRef_T MachineRef_DeepCopyInto inp"

definition MachineSpec_DeepCopy :: "addr option \<Rightarrow> (cell, addr option) mprog" where
  "MachineSpec_DeepCopy inp = copy_ptr MachineSpec_T MachineSpec_DeepCopyInto inp"

definition MachineStatus_DeepCopy :: "metalib \<Rightarrow> addr option \<Rightarrow> (cell, addr option) mprog" where
  "MachineStatus_DeepCopy L inp = copy_ptr MachineStatus_T (MachineStatus_DeepCopyInto L) inp"

definition OneTimeBootDeviceAction_DeepCopy :: "addr option \<Rightarrow> (cell, addr option) mprog" where
  "OneTimeBootDeviceAction_DeepCopy inp = copy_ptr OneTimeBootDeviceAction_T OneTimeBootDeviceAction_DeepCopyInto inp"

definition ProviderOptions_DeepCopy :: "addr option \<Rightarrow> (cell, addr option) mprog" where
  "ProviderOptions_DeepCopy inp = copy_ptr ProviderOptions_T ProviderOptions_DeepCopyInto inp"

definition RPCOptions_DeepCopy :: "addr option \<Rightarrow> (cell, addr option) mprog" where
  "RPCOptions_DeepCopy inp = copy_ptr RPCOptions_T RPCOptions_DeepCopyInto inp"

definition RedfishOptions_DeepCopy :: "addr option \<Rightarrow> (cell, addr option) mprog" where
  "RedfishOptions_DeepCopy inp = copy_ptr RedfishOptions_T RedfishOptions_DeepCopyInto inp"

definition RequestOpts_DeepCopy :: "addr option \<Rightarrow> (cell, addr option) mprog" where
  "RequestOpts_DeepCopy inp = copy_ptr RequestOpts_T RequestOpts_DeepCopyInto inp"

definition SignatureOpts_DeepCopy :: "addr option \<Rightarrow> (cell, addr option) mprog" where
  "SignatureOpts_DeepCopy inp = copy_ptr SignatureOpts_T SignatureOpts_DeepCopyInto inp"

definition Task_DeepCopy :: "metalib \<Rightarrow> addr option \<Rightarrow> (cell, addr option) mprog" where
  "Task_DeepCopy L inp = copy_ptr Task_T (Task_DeepCopyInto L) inp"

definition TaskCondition_DeepCopy :: "addr option \<Rightarrow> (cell, addr option) mprog" where
  "TaskCondition_DeepCopy inp = copy_ptr TaskCondition_T TaskCondition_DeepCopyInto inp"

definition TaskList_DeepCopy :: "metalib \<Rightarrow> addr option \<Rightarrow> (cell, addr option) mprog" where
  "TaskList_DeepCopy L inp = copy_ptr TaskList_T (TaskList_DeepCopyInto L) inp"

definition TaskSpec_DeepCopy :: "addr option \<Rightarrow> (cell, addr option) mprog" where
  "TaskSpec_DeepCopy inp = copy_ptr TaskSpec_T TaskSpec_DeepCopyInto inp"

definition TaskStatus_DeepCopy :: "metalib \<Rightarrow> addr option \<Rightarrow> (cell, addr option) mprog" where
  "TaskStatus_DeepCopy L inp = copy_ptr TaskStatus_T (TaskStatus_DeepCopyInto L) inp"

definition VirtualMediaAction_DeepCopy :: "addr option \<Rightarrow> (cell, addr option) mprog" where
  "VirtualMediaAction_DeepCopy inp = copy_ptr VirtualMediaAction_T VirtualMediaAction_DeepCopyInto inp"

text \<open>\<open>HMACSecrets\<close> has a value receiver: the new variable holds the map, which is returned.\<close>

definition HMACSecrets_DeepCopy :: "addr option \<Rightarrow> (cell, addr option) mprog" where
  "HMACSecrets_DeepCopy inp = (case inp of
     None \<Rightarrow> State_Monad.return None
   | Some a \<Rightarrow> do {
       out \<leftarrow> new HMACSecrets_T;
       m \<leftarrow> HMACSecrets_DeepCopyInto (Some a);
       store_at HMACSecrets_T out 0 m;
       load_at HMACSecrets_T out 0
     })"

section \<open>DeepCopyObject\<close>

text \<open>A \<open>runtime.Object\<close> of this API group: a pointer with its dynamic type.\<close>

datatype runtime_Object =
    ObjMachine addr
  | ObjMachineList addr
  | ObjJob addr
  | ObjJobList addr
  | ObjTask addr
  | ObjTaskList addr

definition Job_DeepCopyObject :: "metalib \<Rightarrow> addr option \<Rightarrow> (cell, runtime_Object option) mprog" where
  "Job_DeepCopyObject L inp = do {
     c \<leftarrow> Job_DeepCopy L inp;
     State_Monad.return (case c of Some a \<Rightarrow> Some (ObjJob a) | None \<Rightarrow> None)
   }"

definition JobList_DeepCopyObject :: "metalib \<Rightarrow> addr option \<Rightarrow> (cell, runtime_Object option) mprog" where
  "JobList_DeepCopyObject L inp = do {
     c \<leftarrow> JobList_DeepCopy L inp;
     State_Monad.return (case c of Some a \<Rightarrow> Some (ObjJobList a) | None \<Rightarrow> None)
   }"

definition Machine_DeepCopyObject :: "metalib \<Rightarrow> addr option \<Rightarrow> (cell, runtime_Object option) mprog" where
  "Machine_DeepCopyObject L inp = do {
     c \<leftarrow> Machine_DeepCopy L inp;
     State_Monad.return (case c of Some a \<Rightarrow> Some (ObjMachine a) | None \<Rightarrow> None)
   }"

definition MachineList_DeepCopyObject :: "metalib \<Rightarrow> addr option \<Rightarrow> (cell, runtime_Object option) mprog" where
  "MachineList_DeepCopyObject L inp = do {
     c \<leftarrow> MachineList_DeepCopy L inp;
     State_Monad.return (case c of Some a \<Rightarrow> Some (ObjMachineList a) | None \<Rightarrow> None)
   }"

definition Task_DeepCopyObject :: "metalib \<Rightarrow> addr option \<Rightarrow> (cell, runtime_Object option) mprog" where
  "Task_DeepCopyObject L inp = do {
     c \<leftarrow> Task_DeepCopy L inp;
     State_Monad.return (case c of Some a \<Rightarrow> Some (ObjTask a) | None \<Rightarrow> None)
   }"

definition TaskList_DeepCopyObject :: "metalib \<Rightarrow> addr option \<Rightarrow> (cell, runtime_Object option) mprog" where
  "TaskList_DeepCopyObject L inp = do {
     c \<leftarrow> TaskList_DeepCopy L inp;
     State_Monad.return (case c of Some a \<Rightarrow> Some (ObjTaskList a) | None \<Rightarrow> None)
   }"

section \<open>Contracts\<close>

text \<open>
  Every type's reader and \<open>DeepCopyInto\<close> satisfy the contract of a copier, built from the
  contracts of its fields by the rules in \<open>copiers\<close>.
\<close>

named_theorems copiers "copier contracts"

declare copier_flat [copiers] copier_pair [copiers] copier_ptr [copiers] copier_slice [copiers] copier_map [copiers]

lemma copier_library [copiers]:
  assumes "metalib_ok L"
  shows "copier (read_ptr time_T read_flat) (Time_DeepCopy L)"
    and "copier read_flat (Time_DeepCopyInto L)"
    and "copier read_ObjectMeta (ObjectMeta_DeepCopyInto L)"
    and "copier read_ListMeta (ListMeta_DeepCopyInto L)"
  using assms by (simp_all add: metalib_ok_def)

lemma copier_time [copiers]:
  assumes "metalib_ok L"
  shows "copier (read_ptr time_T read_flat) (copy_time L)"
proof (rule copierI)
  note c = copier_library(1) [OF assms]
  show "reader (read_ptr time_T read_flat)" using c by (rule copier_reader)
  fix h p v A assume rd: "read_ptr time_T read_flat h p = Some (v, A)"
  show "wp (copy_time L p) (copied (read_ptr time_T read_flat) h v A) h"
  proof (cases p)
    case None
    then show ?thesis using rd by (auto simp: copy_time_def wp_simps copied_def)
  next
    case (Some a)
    then show ?thesis using copier.copies [OF c rd] by (simp add: copy_time_def)
  qed
qed

lemma copier_ExperimentalOpts [copiers]: "copier read_flat ExperimentalOpts_DeepCopyInto"
  using copier_flat by (rule copier_cong) (simp add: ExperimentalOpts_DeepCopyInto_def copy_flat_def)

lemma copier_IPMITOOLOptions [copiers]: "copier read_flat IPMITOOLOptions_DeepCopyInto"
  using copier_flat by (rule copier_cong) (simp add: IPMITOOLOptions_DeepCopyInto_def copy_flat_def)

lemma copier_IntelAMTOptions [copiers]: "copier read_flat IntelAMTOptions_DeepCopyInto"
  using copier_flat by (rule copier_cong) (simp add: IntelAMTOptions_DeepCopyInto_def copy_flat_def)

lemma copier_JobCondition [copiers]: "copier read_flat JobCondition_DeepCopyInto"
  using copier_flat by (rule copier_cong) (simp add: JobCondition_DeepCopyInto_def copy_flat_def)

lemma copier_MachineRef [copiers]: "copier read_flat MachineRef_DeepCopyInto"
  using copier_flat by (rule copier_cong) (simp add: MachineRef_DeepCopyInto_def copy_flat_def)

lemma copier_RedfishOptions [copiers]: "copier read_flat RedfishOptions_DeepCopyInto"
  using copier_flat by (rule copier_cong) (simp add: RedfishOptions_DeepCopyInto_def copy_flat_def)

lemma copier_TaskCondition [copiers]: "copier read_flat TaskCondition_DeepCopyInto"
  using copier_flat by (rule copier_cong) (simp add: TaskCondition_DeepCopyInto_def copy_flat_def)

lemma copier_VirtualMediaAction [copiers]: "copier read_flat VirtualMediaAction_DeepCopyInto"
  using copier_flat by (rule copier_cong) (simp add: VirtualMediaAction_DeepCopyInto_def copy_flat_def)

lemma copier_MachineCondition [copiers]:
  "metalib_ok L \<Longrightarrow> copier read_flat (MachineCondition_DeepCopyInto L)"
  by (rule copier_struct [OF copier_library(2), where get = mc_LastUpdateTime
        and put = "\<lambda>m t. m\<lparr>mc_LastUpdateTime := t\<rparr>" and mk = "\<lambda>m t. m\<lparr>mc_LastUpdateTime := t\<rparr>"])
    (simp_all add: read_flat_def MachineCondition_DeepCopyInto_def Let_def)

lemma copier_OneTimeBootDeviceAction [copiers]:
  "copier read_OneTimeBootDeviceAction OneTimeBootDeviceAction_DeepCopyInto"
proof -
  have "copier (read_slice string_T read_flat)
      (copy_slice string_T copy_flat)"
    by (intro copiers valid_types)
  then show ?thesis
    by (rule copier_struct [where mk = value_OneTimeBootDeviceAction
        and get = "\<lambda>m. bdam_Devices m"
        and put = "\<lambda>m x. m\<lparr>bdam_Devices := x\<rparr>"])
      (auto simp: struct_simps read_OneTimeBootDeviceAction_def value_OneTimeBootDeviceAction_def OneTimeBootDeviceAction_DeepCopyInto_def)
qed

lemma copier_Action [copiers]:
  "copier read_Action Action_DeepCopyInto"
proof -
  have "copier (read_pair (read_ptr string_T read_flat) (read_pair (read_ptr OneTimeBootDeviceAction_T
          read_OneTimeBootDeviceAction) (read_ptr VirtualMediaAction_T read_flat)))
      (copy_pair (copy_ptr string_T copy_flat) (copy_pair (copy_ptr OneTimeBootDeviceAction_T
          OneTimeBootDeviceAction_DeepCopyInto) (copy_ptr VirtualMediaAction_T
          copy_flat)))"
    by (intro copiers valid_types)
  then show ?thesis
    by (rule copier_struct [where mk = value_Action
        and get = "\<lambda>m. (actm_PowerAction m, actm_OneTimeBootDeviceAction m, actm_VirtualMediaAction
          m)"
        and put = "\<lambda>m (x, y, z). m\<lparr>actm_PowerAction := x, actm_OneTimeBootDeviceAction := y,
          actm_VirtualMediaAction := z\<rparr>"])
      (auto simp: struct_simps read_Action_def value_Action_def Action_DeepCopyInto_def)
qed

lemma copier_RequestOpts [copiers]:
  "copier read_RequestOpts RequestOpts_DeepCopyInto"
proof -
  have "copier (read_map table_T string_T read_flat)
      (copy_map table_T string_T copy_flat)"
    by (intro copiers valid_types)
  then show ?thesis
    by (rule copier_struct [where mk = value_RequestOpts
        and get = "\<lambda>m. rqm_StaticHeaders m"
        and put = "\<lambda>m x. m\<lparr>rqm_StaticHeaders := x\<rparr>"])
      (auto simp: struct_simps read_RequestOpts_def value_RequestOpts_def RequestOpts_DeepCopyInto_def)
qed

lemma copier_SignatureOpts [copiers]:
  "copier read_SignatureOpts SignatureOpts_DeepCopyInto"
proof -
  have "copier (read_slice string_T read_flat)
      (copy_slice string_T copy_flat)"
    by (intro copiers valid_types)
  then show ?thesis
    by (rule copier_struct [where mk = value_SignatureOpts
        and get = "\<lambda>m. sgm_IncludedPayloadHeaders m"
        and put = "\<lambda>m x. m\<lparr>sgm_IncludedPayloadHeaders := x\<rparr>"])
      (auto simp: struct_simps read_SignatureOpts_def value_SignatureOpts_def SignatureOpts_DeepCopyInto_def)
qed

lemma copier_HMACOpts [copiers]:
  "copier read_HMACOpts HMACOpts_DeepCopyInto"
proof -
  have "copier (read_map table_T SecretReference_T read_flat)
      (copy_map table_T SecretReference_T copy_flat)"
    by (intro copiers valid_types)
  then show ?thesis
    by (rule copier_struct [where mk = value_HMACOpts
        and get = "\<lambda>m. hmm_Secrets m"
        and put = "\<lambda>m x. m\<lparr>hmm_Secrets := x\<rparr>"])
      (auto simp: struct_simps read_HMACOpts_def value_HMACOpts_def HMACOpts_DeepCopyInto_def)
qed

lemma copier_RPCOptions [copiers]:
  "copier read_RPCOptions RPCOptions_DeepCopyInto"
proof -
  have "copier (read_pair (read_ptr RequestOpts_T read_RequestOpts) (read_pair (read_ptr SignatureOpts_T
          read_SignatureOpts) (read_pair (read_ptr HMACOpts_T read_HMACOpts) (read_ptr
          ExperimentalOpts_T read_flat))))
      (copy_pair (copy_ptr RequestOpts_T RequestOpts_DeepCopyInto) (copy_pair (copy_ptr
          SignatureOpts_T SignatureOpts_DeepCopyInto) (copy_pair (copy_ptr HMACOpts_T
          HMACOpts_DeepCopyInto) (copy_ptr ExperimentalOpts_T copy_flat))))"
    by (intro copiers valid_types)
  then show ?thesis
    by (rule copier_struct [where mk = value_RPCOptions
        and get = "\<lambda>m. (rpcm_Request m, rpcm_Signature m, rpcm_HMAC m, rpcm_Experimental m)"
        and put = "\<lambda>m (x, y, z, u). m\<lparr>rpcm_Request := x, rpcm_Signature := y, rpcm_HMAC := z,
          rpcm_Experimental := u\<rparr>"])
      (auto simp: struct_simps read_RPCOptions_def value_RPCOptions_def RPCOptions_DeepCopyInto_def)
qed

lemma copier_ProviderOptions [copiers]:
  "copier read_ProviderOptions ProviderOptions_DeepCopyInto"
proof -
  have "copier (read_pair (read_slice string_T read_flat) (read_pair (read_ptr IntelAMTOptions_T
          read_flat) (read_pair (read_ptr IPMITOOLOptions_T read_flat) (read_pair
          (read_ptr RedfishOptions_T read_flat) (read_ptr RPCOptions_T
          read_RPCOptions)))))
      (copy_pair (copy_slice string_T copy_flat) (copy_pair (copy_ptr IntelAMTOptions_T
          copy_flat) (copy_pair (copy_ptr IPMITOOLOptions_T copy_flat) (copy_pair
          (copy_ptr RedfishOptions_T copy_flat) (copy_ptr RPCOptions_T
          RPCOptions_DeepCopyInto)))))"
    by (intro copiers valid_types)
  then show ?thesis
    by (rule copier_struct [where mk = value_ProviderOptions
        and get = "\<lambda>m. (pom_PreferredOrder m, pom_IntelAMT m, pom_IPMITOOL m, pom_Redfish m, pom_RPC
          m)"
        and put = "\<lambda>m (x, y, z, u, v). m\<lparr>pom_PreferredOrder := x, pom_IntelAMT := y,
          pom_IPMITOOL := z, pom_Redfish := u, pom_RPC := v\<rparr>"])
      (auto simp: struct_simps read_ProviderOptions_def value_ProviderOptions_def ProviderOptions_DeepCopyInto_def)
qed

lemma copier_Connection [copiers]:
  "copier read_Connection Connection_DeepCopyInto"
proof -
  have "copier (read_ptr ProviderOptions_T read_ProviderOptions)
      (copy_ptr ProviderOptions_T ProviderOptions_DeepCopyInto)"
    by (intro copiers valid_types)
  then show ?thesis
    by (rule copier_struct [where mk = value_Connection
        and get = "\<lambda>m. cnm_ProviderOptions m"
        and put = "\<lambda>m x. m\<lparr>cnm_ProviderOptions := x\<rparr>"])
      (auto simp: struct_simps read_Connection_def value_Connection_def Connection_DeepCopyInto_def)
qed

lemma copier_MachineSpec [copiers]:
  "copier read_MachineSpec MachineSpec_DeepCopyInto"
proof -
  have "copier read_Connection
      Connection_DeepCopyInto"
    by (intro copiers valid_types)
  then show ?thesis
    by (rule copier_struct [where mk = value_MachineSpec
        and get = "\<lambda>m. mspm_Connection m"
        and put = "\<lambda>m x. m\<lparr>mspm_Connection := x\<rparr>"])
      (auto simp: struct_simps read_MachineSpec_def value_MachineSpec_def MachineSpec_DeepCopyInto_def)
qed

lemma copier_MachineStatus [copiers]:
  assumes "metalib_ok L"
  shows "copier read_MachineStatus (MachineStatus_DeepCopyInto L)"
proof -
  have "copier (read_slice MachineCondition_T read_flat)
      (copy_slice MachineCondition_T (MachineCondition_DeepCopyInto L))"
    using assms by (intro copiers valid_types)
  then show ?thesis
    by (rule copier_struct [where mk = value_MachineStatus
        and get = "\<lambda>m. msm_Conditions m"
        and put = "\<lambda>m x. m\<lparr>msm_Conditions := x\<rparr>"])
      (auto simp: struct_simps read_MachineStatus_def value_MachineStatus_def MachineStatus_DeepCopyInto_def)
qed

lemma copier_Machine [copiers]:
  assumes "metalib_ok L"
  shows "copier read_Machine (Machine_DeepCopyInto L)"
proof -
  have "copier (read_pair read_ObjectMeta (read_pair read_MachineSpec read_MachineStatus))
      (copy_pair (ObjectMeta_DeepCopyInto L) (copy_pair MachineSpec_DeepCopyInto
          (MachineStatus_DeepCopyInto L)))"
    using assms by (intro copiers valid_types)
  then show ?thesis
    by (rule copier_struct [where mk = value_Machine
        and get = "\<lambda>m. (machinem_ObjectMeta m, machinem_Spec m, machinem_Status m)"
        and put = "\<lambda>m (x, y, z). m\<lparr>machinem_ObjectMeta := x, machinem_Spec := y,
          machinem_Status := z\<rparr>"])
      (auto simp: struct_simps read_Machine_def value_Machine_def Machine_DeepCopyInto_def)
qed

lemma copier_MachineList [copiers]:
  assumes "metalib_ok L"
  shows "copier read_MachineList (MachineList_DeepCopyInto L)"
proof -
  have "copier (read_pair read_ListMeta (read_slice Machine_T read_Machine))
      (copy_pair (ListMeta_DeepCopyInto L) (copy_slice Machine_T (Machine_DeepCopyInto L)))"
    using assms by (intro copiers valid_types)
  then show ?thesis
    by (rule copier_struct [where mk = value_MachineList
        and get = "\<lambda>m. (mlm_ListMeta m, mlm_Items m)"
        and put = "\<lambda>m (x, y). m\<lparr>mlm_ListMeta := x, mlm_Items := y\<rparr>"])
      (auto simp: struct_simps read_MachineList_def value_MachineList_def MachineList_DeepCopyInto_def)
qed

lemma copier_JobSpec [copiers]:
  "copier read_JobSpec JobSpec_DeepCopyInto"
proof -
  have "copier (read_slice Action_T read_Action)
      (copy_slice Action_T Action_DeepCopyInto)"
    by (intro copiers valid_types)
  then show ?thesis
    by (rule copier_struct [where mk = value_JobSpec
        and get = "\<lambda>m. jspm_Tasks m"
        and put = "\<lambda>m x. m\<lparr>jspm_Tasks := x\<rparr>"])
      (auto simp: struct_simps read_JobSpec_def value_JobSpec_def JobSpec_DeepCopyInto_def)
qed

lemma copier_JobStatus [copiers]:
  assumes "metalib_ok L"
  shows "copier read_JobStatus (JobStatus_DeepCopyInto L)"
proof -
  have "copier (read_pair (read_slice JobCondition_T read_flat) (read_pair (read_ptr time_T read_flat)
          (read_ptr time_T read_flat)))
      (copy_pair (copy_slice JobCondition_T copy_flat) (copy_pair (copy_time L) (copy_time L)))"
    using assms by (intro copiers valid_types)
  then show ?thesis
    by (rule copier_struct [where mk = value_JobStatus
        and get = "\<lambda>m. (jsm_Conditions m, jsm_StartTime m, jsm_CompletionTime m)"
        and put = "\<lambda>m (x, y, z). m\<lparr>jsm_Conditions := x, jsm_StartTime := y,
          jsm_CompletionTime := z\<rparr>"])
      (auto simp: struct_simps read_JobStatus_def value_JobStatus_def JobStatus_DeepCopyInto_def)
qed

lemma copier_Job [copiers]:
  assumes "metalib_ok L"
  shows "copier read_Job (Job_DeepCopyInto L)"
proof -
  have "copier (read_pair read_ObjectMeta (read_pair read_JobSpec read_JobStatus))
      (copy_pair (ObjectMeta_DeepCopyInto L) (copy_pair JobSpec_DeepCopyInto
          (JobStatus_DeepCopyInto L)))"
    using assms by (intro copiers valid_types)
  then show ?thesis
    by (rule copier_struct [where mk = value_Job
        and get = "\<lambda>m. (jobm_ObjectMeta m, jobm_Spec m, jobm_Status m)"
        and put = "\<lambda>m (x, y, z). m\<lparr>jobm_ObjectMeta := x, jobm_Spec := y, jobm_Status :=
          z\<rparr>"])
      (auto simp: struct_simps read_Job_def value_Job_def Job_DeepCopyInto_def)
qed

lemma copier_JobList [copiers]:
  assumes "metalib_ok L"
  shows "copier read_JobList (JobList_DeepCopyInto L)"
proof -
  have "copier (read_pair read_ListMeta (read_slice Job_T read_Job))
      (copy_pair (ListMeta_DeepCopyInto L) (copy_slice Job_T (Job_DeepCopyInto L)))"
    using assms by (intro copiers valid_types)
  then show ?thesis
    by (rule copier_struct [where mk = value_JobList
        and get = "\<lambda>m. (jlm_ListMeta m, jlm_Items m)"
        and put = "\<lambda>m (x, y). m\<lparr>jlm_ListMeta := x, jlm_Items := y\<rparr>"])
      (auto simp: struct_simps read_JobList_def value_JobList_def JobList_DeepCopyInto_def)
qed

lemma copier_TaskSpec [copiers]:
  "copier read_TaskSpec TaskSpec_DeepCopyInto"
proof -
  have "copier (read_pair read_Action read_Connection)
      (copy_pair Action_DeepCopyInto Connection_DeepCopyInto)"
    by (intro copiers valid_types)
  then show ?thesis
    by (rule copier_struct [where mk = value_TaskSpec
        and get = "\<lambda>m. (tspm_Task m, tspm_Connection m)"
        and put = "\<lambda>m (x, y). m\<lparr>tspm_Task := x, tspm_Connection := y\<rparr>"])
      (auto simp: struct_simps read_TaskSpec_def value_TaskSpec_def TaskSpec_DeepCopyInto_def)
qed

lemma copier_TaskStatus [copiers]:
  assumes "metalib_ok L"
  shows "copier read_TaskStatus (TaskStatus_DeepCopyInto L)"
proof -
  have "copier (read_pair (read_slice TaskCondition_T read_flat) (read_pair (read_ptr time_T read_flat)
          (read_ptr time_T read_flat)))
      (copy_pair (copy_slice TaskCondition_T copy_flat) (copy_pair (copy_time L) (copy_time
          L)))"
    using assms by (intro copiers valid_types)
  then show ?thesis
    by (rule copier_struct [where mk = value_TaskStatus
        and get = "\<lambda>m. (tsm_Conditions m, tsm_StartTime m, tsm_CompletionTime m)"
        and put = "\<lambda>m (x, y, z). m\<lparr>tsm_Conditions := x, tsm_StartTime := y,
          tsm_CompletionTime := z\<rparr>"])
      (auto simp: struct_simps read_TaskStatus_def value_TaskStatus_def TaskStatus_DeepCopyInto_def)
qed

lemma copier_Task [copiers]:
  assumes "metalib_ok L"
  shows "copier read_Task (Task_DeepCopyInto L)"
proof -
  have "copier (read_pair read_ObjectMeta (read_pair read_TaskSpec read_TaskStatus))
      (copy_pair (ObjectMeta_DeepCopyInto L) (copy_pair TaskSpec_DeepCopyInto
          (TaskStatus_DeepCopyInto L)))"
    using assms by (intro copiers valid_types)
  then show ?thesis
    by (rule copier_struct [where mk = value_Task
        and get = "\<lambda>m. (taskm_ObjectMeta m, taskm_Spec m, taskm_Status m)"
        and put = "\<lambda>m (x, y, z). m\<lparr>taskm_ObjectMeta := x, taskm_Spec := y, taskm_Status :=
          z\<rparr>"])
      (auto simp: struct_simps read_Task_def value_Task_def Task_DeepCopyInto_def)
qed

lemma copier_TaskList [copiers]:
  assumes "metalib_ok L"
  shows "copier read_TaskList (TaskList_DeepCopyInto L)"
proof -
  have "copier (read_pair read_ListMeta (read_slice Task_T read_Task))
      (copy_pair (ListMeta_DeepCopyInto L) (copy_slice Task_T (Task_DeepCopyInto L)))"
    using assms by (intro copiers valid_types)
  then show ?thesis
    by (rule copier_struct [where mk = value_TaskList
        and get = "\<lambda>m. (tlm_ListMeta m, tlm_Items m)"
        and put = "\<lambda>m (x, y). m\<lparr>tlm_ListMeta := x, tlm_Items := y\<rparr>"])
      (auto simp: struct_simps read_TaskList_def value_TaskList_def TaskList_DeepCopyInto_def)
qed

end
