(* ===== verification/Copiers_Updates.thy ===== *)
theory Copiers_Updates
  imports Copiers Api_Conditions
begin

text \<open>
  Writes to an object in place: which cells they touch, what is left of a value when one of
  its parts is updated, \<open>append\<close> and a search in a slice; and, in the locale
  \<open>slice_field\<close>, the update of one element of a slice that a field of an object holds, as
  \<open>SetCondition\<close> does it.
\<close>

section \<open>What an update changes\<close>

definition changed_only :: "'c memory \<Rightarrow> 'c memory \<Rightarrow> addr set \<Rightarrow> bool" where
  "changed_only h h' X \<longleftrightarrow> msize h \<le> msize h' \<and> (\<forall>a < msize h. a \<notin> X \<longrightarrow> cell_at h' a = cell_at h a)"

text \<open>
  Only cells of the value's pointers \<open>A\<close> change; the new struct stands for the new value, through
  pointers \<open>B\<close> that are different from each other and either old ones or newly allocated.
\<close>

definition updated :: "('c, 'm, 'v) reads \<Rightarrow> 'c memory \<Rightarrow> addr option list \<Rightarrow> 'c memory \<Rightarrow> 'm \<Rightarrow> 'v \<Rightarrow>
    addr option list \<Rightarrow> bool" where
  "updated rd h A h' m' v' B \<longleftrightarrow> changed_only h h' (set (owned A)) \<and> rd h' m' = Some (v', B) \<and>
     distinct (owned B) \<and> (\<forall>b \<in> set (owned B). b \<in> set (owned A) \<or> msize h \<le> b)"

lemma updated_reads: "updated rd h A h' m' v' B \<Longrightarrow> rd h' m' = Some (v', B)"
  by (simp add: updated_def)

lemma updated_distinct: "updated rd h A h' m' v' B \<Longrightarrow> distinct (owned B)"
  by (simp add: updated_def)

lemma updated_refl: "rd h m = Some (v, A) \<Longrightarrow> distinct (owned A) \<Longrightarrow> updated rd h A h m v A"
  by (simp add: updated_def changed_only_def)

lemma updated_trans:
  assumes "updated rd h A h1 m1 v1 B" and "updated rd h1 B h2 m2 v2 C"
  shows "updated rd h A h2 m2 v2 C"
  unfolding updated_def changed_only_def
proof (intro conjI allI impI ballI)
  have B: "\<forall>b \<in> set (owned B). b \<in> set (owned A) \<or> msize h \<le> b" "msize h \<le> msize h1"
    and C: "\<forall>b \<in> set (owned C). b \<in> set (owned B) \<or> msize h1 \<le> b" "msize h1 \<le> msize h2"
    using assms by (simp_all add: updated_def changed_only_def)
  show "msize h \<le> msize h2" using B(2) C(2) by simp
  show "rd h2 m2 = Some (v2, C)" "distinct (owned C)" using assms(2) by (simp_all add: updated_def)
  show "cell_at h2 a = cell_at h a" if "a < msize h" "a \<notin> set (owned A)" for a
    using that B assms by (force simp: updated_def changed_only_def)
  show "b \<in> set (owned A) \<or> msize h \<le> b" if "b \<in> set (owned C)" for b
    using that B C by force
qed

text \<open>A value that does not share cells with what is updated is kept.\<close>

lemma updated_elsewhere:
  assumes "reader r" and "r h n = Some (u, C)" and "set (owned A) \<inter> set (owned C) = {}"
    and "updated rd h A h' m' v' B"
  shows "r h' n = Some (u, C)"
proof (rule reader.local [OF assms(1,2)])
  show "\<forall>a \<in> set (owned C). cell_at h' a = cell_at h a"
    using assms(3,4) reader.inside [OF assms(1,2)] by (auto simp: updated_def changed_only_def)
qed

lemma updated_elsewhere_cell:
  "updated rd h A h' m' v' B \<Longrightarrow> a < msize h \<Longrightarrow> a \<notin> set (owned A) \<Longrightarrow> cell_at h' a = cell_at h a"
  by (simp add: updated_def changed_only_def)

lemma updated_fst:
  assumes "reader r1" and "reader r2" and r2: "r2 h n = Some (u, C)" and d: "distinct (owned (A @ C))"
    and up: "updated r1 h A h' m' v' B"
  shows "updated (read_pair r1 r2) h (A @ C) h' (m', n) (v', u) (B @ C)"
proof -
  have "r2 h' n = Some (u, C)" using d by (intro updated_elsewhere [OF assms(2) r2 _ up]) auto
  moreover have "set (owned B) \<inter> set (owned C) = {}"
    using up d reader.inside [OF assms(2) r2] by (force simp: updated_def)
  ultimately show ?thesis using up d by (auto simp: updated_def changed_only_def read_pair_Some)
qed

lemma updated_snd:
  assumes "reader r1" and "reader r2" and r1: "r1 h m = Some (v, A)" and d: "distinct (owned (A @ C))"
    and up: "updated r2 h C h' n' u' B"
  shows "updated (read_pair r1 r2) h (A @ C) h' (m, n') (v, u') (A @ B)"
proof -
  have "r1 h' m = Some (v, A)" using d by (intro updated_elsewhere [OF assms(1) r1 _ up]) auto
  moreover have "set (owned A) \<inter> set (owned B) = {}"
    using up d reader.inside [OF assms(1) r1] by (force simp: updated_def)
  ultimately show ?thesis using up d by (auto simp: updated_def changed_only_def read_pair_Some)
qed

lemma updated_struct:
  assumes "\<And>h m. rd h m = map_option (\<lambda>(v, A). (mk m v, A)) (rp h (get m))"
    and "get (put m p') = p'" and "mk (put m p') v' = w"
    and "updated rp h A h' p' v' B"
  shows "updated rd h A h' (put m p') w B"
  using assms by (simp add: updated_def)

text \<open>An object whose struct is stored again, or whose parts are updated behind the same struct.\<close>

lemma updated_store:
  assumes T: "valid_type T" and r: "reader rd" and a: "array_at T h a = Some [x]" "a \<notin> set (owned A)"
    and up: "updated rd h A h1 x' v' B"
  shows "updated (read_ptr T rd) h (Some a # A) (put_cell a (as_cell T [x']) h1) (Some a) (Some v') (Some a # B)"
proof -
  have a_lt: "a < msize h" using a(1) by (rule array_at_inside)
  have a_B: "a \<notin> set (owned B)" using up a(2) a_lt by (auto simp: updated_def)
  have "a < msize h1" using up a_lt by (auto simp: updated_def changed_only_def)
  then have "read_ptr T rd (put_cell a (as_cell T [x']) h1) (Some a) = Some (Some v', Some a # B)"
    using reader.put_elsewhere [OF r updated_reads [OF up] a_B] array_at_put_cell [OF T]
    by (simp add: read_ptr_Some)
  then show ?thesis
    using up a_B by (auto simp: updated_def changed_only_def cell_at_put_cell)
qed

lemma updated_behind:
  assumes a: "array_at T h a = Some [x]" "a \<notin> set (owned A)" and up: "updated rd h A h1 x v' B"
  shows "array_at T h1 a = Some [x]"
    and "updated (read_ptr T rd) h (Some a # A) h1 (Some a) (Some v') (Some a # B)"
proof -
  have a_lt: "a < msize h" using a(1) by (rule array_at_inside)
  then have a_B: "a \<notin> set (owned B)" and same: "cell_at h1 a = cell_at h a"
    using up a(2) by (auto simp: updated_def changed_only_def)
  show "array_at T h1 a = Some [x]" using a(1) array_at_cong [OF same, of T] by simp
  then show "updated (read_ptr T rd) h (Some a # A) h1 (Some a) (Some v') (Some a # B)"
    using up a_B by (auto simp: updated_def changed_only_def read_ptr_Some)
qed

section \<open>Slices in place\<close>

text \<open>
  \<open>for i, c := range s { if p(c) { ...; break } }\<close>, and \<open>append(s, x)\<close>: in place when the
  array has room behind the slice, otherwise into a new array, of which Go does not say how
  much room it has.
\<close>

fun find_from :: "('c, 'm) gotype \<Rightarrow> ('m \<Rightarrow> bool) \<Rightarrow> slice \<Rightarrow> nat \<Rightarrow> nat \<Rightarrow> ('c, nat option) mprog" where
  "find_from T p s i 0 = State_Monad.return None"
| "find_from T p s i (Suc n) = do {
     x \<leftarrow> load_at T (sl_array s) (sl_off s + i);
     if p x then State_Monad.return (Some i) else find_from T p s (Suc i) n
   }"

definition find_slot :: "('c, 'm) gotype \<Rightarrow> ('m \<Rightarrow> bool) \<Rightarrow> slice option \<Rightarrow> ('c, nat option) mprog" where
  "find_slot T p s = (case s of None \<Rightarrow> State_Monad.return None | Some s \<Rightarrow> find_from T p s 0 (sl_len s))"

definition load_array :: "('c, 'm) gotype \<Rightarrow> addr \<Rightarrow> ('c, 'm list) mprog" where
  "load_array T a = State (\<lambda>h. (case array_at T h a of Some xs \<Rightarrow> xs | None \<Rightarrow> [], h))"

definition append_one :: "('c, 'm) gotype \<Rightarrow> slice option \<Rightarrow> 'm \<Rightarrow> ('c, slice) mprog" where
  "append_one T p x = (case p of
     None \<Rightarrow> do {
       room \<leftarrow> draw;
       a \<leftarrow> alloc T (x # replicate room (zero_value T));
       State_Monad.return \<lparr>sl_array = a, sl_off = 0, sl_len = 1\<rparr>
     }
   | Some s \<Rightarrow> do {
       xs \<leftarrow> load_array T (sl_array s);
       if sl_off s + sl_len s < length xs then do {
         store_at T (sl_array s) (sl_off s + sl_len s) x;
         State_Monad.return (s\<lparr>sl_len := Suc (sl_len s)\<rparr>)
       } else do {
         room \<leftarrow> draw;
         a \<leftarrow> alloc T (take (sl_len s) (drop (sl_off s) xs) @ [x] @ replicate room (zero_value T));
         State_Monad.return \<lparr>sl_array = a, sl_off = 0, sl_len = Suc (sl_len s)\<rparr>
       }
     })"

abbreviation read_flats :: "('c, 'm) gotype \<Rightarrow> ('c, slice option, 'm list) reads" where
  "read_flats T \<equiv> read_slice T read_flat"

lemma read_flats_Some:
  "read_flats T h (Some s) = Some (cs, A) \<longleftrightarrow> slice_elems T h s = Some cs \<and> A = [Some (sl_array s)]"
  by (auto simp: read_slice_def read_elems_flat split: option.splits)

lemma read_flats_None: "read_flats T h None = Some (cs, A) \<longleftrightarrow> cs = [] \<and> A = [None]"
  by (auto simp: read_slice_def)

lemma wp_load_elem:
  assumes "slice_elems T h s = Some cs" and "i < length cs"
  shows "wp (load_at T (sl_array s) (sl_off s + i)) Q h \<longleftrightarrow> Q (cs ! i) h"
  using assms by (rule slice_elems_load) (simp add: wp_load_at [where i = "sl_off s + i"])

lemma wp_find_from:
  assumes cs: "slice_elems T h s = Some cs"
  shows "i + n = length cs \<Longrightarrow> wp (find_from T p s i n) Q h \<longleftrightarrow>
    Q (map_option (\<lambda>j. i + j) (first_index p (drop i cs))) h"
proof (induction n arbitrary: i)
  case 0
  then show ?case by (simp add: wp_simps)
next
  case (Suc n)
  then have i: "i < length cs" by simp
  then have d: "drop i cs = cs ! i # drop (Suc i) cs" by (simp add: Cons_nth_drop_Suc)
  show ?case
    using Suc by (simp add: wp_simps wp_load_elem [OF cs i] d option.map_comp comp_def)
qed

lemma wp_find_slot:
  "read_flats T h s = Some (cs, A) \<Longrightarrow> wp (find_slot T p s) Q h \<longleftrightarrow> Q (first_index p cs) h"
  by (cases s) (auto simp: find_slot_def wp_simps read_flats_None read_flats_Some option.map_ident
      wp_find_from length_slice_elems)

text \<open>A write to one element.\<close>

lemma wp_store_elem:
  assumes T: "valid_type T" and rd: "read_flats T h (Some s) = Some (cs, A)" and i: "i < length cs"
  shows "wp (store_at T (sl_array s) (sl_off s + i) x)
    (\<lambda>_ h'. updated (read_flats T) h A h' (Some s) (cs[i := x]) A) h"
proof -
  have cs: "slice_elems T h s = Some cs" and A: "A = [Some (sl_array s)]"
    using rd by (simp_all add: read_flats_Some)
  then obtain xs where xs: "array_at T h (sl_array s) = Some xs" "sl_off s + sl_len s \<le> length xs"
      "cs = take (sl_len s) (drop (sl_off s) xs)"
    by (auto simp: slice_elems_def split: option.splits if_splits)
  let ?h' = "put_cell (sl_array s) (as_cell T (xs[sl_off s + i := x])) h"
  have "array_at T ?h' (sl_array s) = Some (xs[sl_off s + i := x])"
    using array_at_put_cell [OF T array_at_inside [OF xs(1)]] .
  moreover have "take (sl_len s) (drop (sl_off s) (xs[sl_off s + i := x])) = cs[i := x]"
    using xs(3) by (simp add: drop_update_swap take_update_swap)
  ultimately have "read_flats T ?h' (Some s) = Some (cs[i := x], A)"
    using xs(2) A by (simp add: read_flats_Some slice_elems_def)
  then have "updated (read_flats T) h A ?h' (Some s) (cs[i := x]) A"
    using A by (simp add: updated_def changed_only_def cell_at_put_cell)
  then show ?thesis by (simp add: wp_store_at [OF xs(1)])
qed

text \<open>\<open>append\<close> in its three cases.\<close>

lemma updated_new_array:
  assumes "valid_type T" and "take n xs = cs" and "n \<le> length xs"
  shows "updated (read_flats T) h A (add_cell (as_cell T xs) (next_draw h))
    (Some \<lparr>sl_array = msize h, sl_off = 0, sl_len = n\<rparr>) cs [Some (msize h)]"
  using assms array_at_add_cell [OF assms(1), of xs "next_draw h"]
  by (auto simp: updated_def changed_only_def read_flats_Some slice_elems_def cell_at_add_cell)

lemma wp_append_one:
  assumes T: "valid_type T" and rd: "read_flats T h p = Some (cs, A)"
  shows "wp (append_one T p x)
    (\<lambda>s h'. sl_len s = Suc (length cs) \<and> (\<exists>B. updated (read_flats T) h A h' (Some s) (cs @ [x]) B)) h"
proof (cases p)
  case None
  then show ?thesis
    using rd T by (auto simp: append_one_def wp_simps read_flats_None intro!: updated_new_array exI)
next
  case (Some s)
  then have cs: "slice_elems T h s = Some cs" and A: "A = [Some (sl_array s)]"
    using rd by (simp_all add: read_flats_Some)
  then obtain xs where xs: "array_at T h (sl_array s) = Some xs" "sl_off s + sl_len s \<le> length xs"
      "cs = take (sl_len s) (drop (sl_off s) xs)"
    by (auto simp: slice_elems_def split: option.splits if_splits)
  have len: "length cs = sl_len s" using xs(2,3) by simp
  have ld: "wp (load_array T (sl_array s)) Q h = Q xs h" for Q
    using xs(1) by (simp add: load_array_def wp_def)
  show ?thesis
  proof (cases "sl_off s + sl_len s < length xs")
    case True
    let ?s = "s\<lparr>sl_len := Suc (sl_len s)\<rparr>" and ?ys = "xs[sl_off s + sl_len s := x]"
    let ?h' = "put_cell (sl_array s) (as_cell T ?ys) h"
    have "array_at T ?h' (sl_array s) = Some ?ys"
      using array_at_put_cell [OF T array_at_inside [OF xs(1)]] .
    moreover have "take (Suc (sl_len s)) (drop (sl_off s) ?ys) = cs @ [x]"
      using True xs(3) by (simp add: drop_update_swap take_Suc_conv_app_nth)
    ultimately have "updated (read_flats T) h A ?h' (Some ?s) (cs @ [x]) A"
      using True A
      by (simp add: updated_def changed_only_def cell_at_put_cell read_flats_Some slice_elems_def)
    then show ?thesis
      using Some True len by (auto simp: append_one_def wp_simps ld wp_store_at [OF xs(1)])
  next
    case False
    then show ?thesis
      using Some len xs(3) T
      by (auto simp: append_one_def wp_simps ld intro!: updated_new_array exI)
  qed
qed

section \<open>A slice in a field of an object\<close>

text \<open>
  The search of \<open>SetCondition\<close> on an object at address \<open>a\<close>: the element the loop stops at
  or one that is appended; the result says where it lies.  \<open>modify\<close> is a write through
  the pointer to it.
\<close>

definition find_or_append :: "('c, 'o) gotype \<Rightarrow> ('c, 'e) gotype \<Rightarrow> ('o \<Rightarrow> slice option) \<Rightarrow>
    (slice option \<Rightarrow> 'o \<Rightarrow> 'o) \<Rightarrow> ('e \<Rightarrow> bool) \<Rightarrow> 'e \<Rightarrow> addr \<Rightarrow> ('c, addr \<times> nat) mprog" where
  "find_or_append OT ET get put p x a = do {
     obj \<leftarrow> load_at OT a 0;
     found \<leftarrow> find_slot ET p (get obj);
     case found of
       Some i \<Rightarrow> State_Monad.return (case get obj of Some s \<Rightarrow> (sl_array s, sl_off s + i) | None \<Rightarrow> (0, 0))
     | None \<Rightarrow> do {
         s \<leftarrow> append_one ET (get obj) x;
         store_at OT a 0 (put (Some s) obj);
         State_Monad.return (sl_array s, sl_off s + (sl_len s - 1))
       }
   }"

definition modify :: "('c, 'e) gotype \<Rightarrow> addr \<times> nat \<Rightarrow> ('e \<Rightarrow> 'e) \<Rightarrow> ('c, unit) mprog" where
  "modify ET q f = do { c \<leftarrow> load_at ET (fst q) (snd q); store_at ET (fst q) (snd q) (f c) }"

fun modify_all :: "('c, 'e) gotype \<Rightarrow> addr \<times> nat \<Rightarrow> ('e \<Rightarrow> 'e) list \<Rightarrow> ('c, unit) mprog" where
  "modify_all ET q [] = State_Monad.return ()"
| "modify_all ET q (f # fs) = do { modify ET q f; modify_all ET q fs }"

text \<open>Find or append the element, then write it.\<close>

definition set_elem :: "('c, 'o) gotype \<Rightarrow> ('c, 'e) gotype \<Rightarrow> ('o \<Rightarrow> slice option) \<Rightarrow>
    (slice option \<Rightarrow> 'o \<Rightarrow> 'o) \<Rightarrow> ('e \<Rightarrow> bool) \<Rightarrow> 'e \<Rightarrow> ('e \<Rightarrow> 'e) list \<Rightarrow> addr \<Rightarrow> ('c, unit) mprog" where
  "set_elem OT ET get put p e fs a = do {
     q \<leftarrow> find_or_append OT ET get put p e a;
     modify_all ET q fs
   }"

text \<open>
  An object with a reader, the field that holds the slice, and the list it stands for in the
  object's value.  The law: the field's slice is read as that list, and when its part of the
  memory is updated, the object is, with the new list.
\<close>

locale slice_field = reader rd
  for rd :: "('c, 'o, 'v) reads" +
  fixes OT :: "('c, 'o) gotype" and ET :: "('c, 'e) gotype"
    and get :: "'o \<Rightarrow> slice option" and put :: "slice option \<Rightarrow> 'o \<Rightarrow> 'o"
    and elems :: "'v \<Rightarrow> 'e list" and with_elems :: "'e list \<Rightarrow> 'v \<Rightarrow> 'v"
  assumes types: "valid_type OT" "valid_type ET"
    and field: "get (put s x) = s" "put (get x) x = x"
    and elems: "elems (with_elems es v) = es" "with_elems es (with_elems es' v) = with_elems es v"
      "with_elems (elems v) v = v"
    and focus: "rd h x = Some (v, A) \<Longrightarrow> distinct (owned A) \<Longrightarrow>
      \<exists>C. read_flats ET h (get x) = Some (elems v, C) \<and> (\<forall>h' s es B. updated (read_flats ET) h C h' s es B \<longrightarrow>
        (\<exists>D. updated rd h A h' (put s x) (with_elems es v) D))"
begin

abbreviation read_obj :: "('c, addr option, 'v option) reads" where
  "read_obj \<equiv> read_ptr OT rd"

text \<open>The pointer that the search gives.\<close>

definition points :: "'c memory \<Rightarrow> addr \<Rightarrow> nat \<Rightarrow> addr \<times> nat \<Rightarrow> bool" where
  "points h a i q \<longleftrightarrow> (\<exists>x s. array_at OT h a = Some [x] \<and> get x = Some s \<and> q = (sl_array s, sl_off s + i))"

lemma find_or_append_slot:
  assumes rd: "read_obj h (Some a) = Some (Some v, A)" and d: "distinct (owned A)"
  shows "wp (find_or_append OT ET get put p e a)
    (\<lambda>q h'. \<exists>B es i. cond_slot p e (elems v) = (es, i) \<and> i < length es \<and> points h' a i q \<and>
      updated read_obj h A h' (Some a) (Some (with_elems es v)) B) h"
proof -
  obtain x A' where x: "array_at OT h a = Some [x]" "rd h x = Some (v, A')" and A: "A = Some a # A'"
    using rd by (auto simp: read_ptr_Some)
  have d': "distinct (owned A')" "a \<notin> set (owned A')" using d A by auto
  obtain C where C: "read_flats ET h (get x) = Some (elems v, C)"
    and up: "\<And>h' s es B. updated (read_flats ET) h C h' s es B \<Longrightarrow> \<exists>D. updated rd h A' h' (put s x) (with_elems es v) D"
    using focus [OF x(2) d'(1)] by blast
  have ld: "wp (load_at OT a 0) Q h = Q x h" for Q using x(1) by (simp add: wp_load_at)
  show ?thesis
  proof (cases "first_index p (elems v)")
    case (Some i)
    have i: "i < length (elems v)" using first_index_Some [OF Some] by simp
    then obtain s where s: "get x = Some s" using C by (cases "get x") (auto simp: read_flats_None)
    show ?thesis
      using x(1) s i updated_refl [of read_obj h "Some a" "Some v" A, OF rd d]
      unfolding find_or_append_def wp_simps ld wp_find_slot [OF C] Some option.case
      by (auto simp: cond_slot_def Some elems points_def wp_simps)
  next
    case None
    have "wp (append_one ET (get x) e)
        (\<lambda>s h'. wp (store_at OT a 0 (put (Some s) x)) (\<lambda>_ h2. \<exists>B. points h2 a (length (elems v)) (sl_array s, sl_off s + (sl_len s - 1)) \<and>
          updated read_obj h A h2 (Some a) (Some (with_elems (elems v @ [e]) v)) B) h') h"
    proof (rule wp_mono [OF wp_append_one [OF types(2) C]])
      fix s h' assume s: "sl_len s = Suc (length (elems v)) \<and> (\<exists>B. updated (read_flats ET) h C h' (Some s) (elems v @ [e]) B)"
      then obtain D where D: "updated rd h A' h' (put (Some s) x) (with_elems (elems v @ [e]) v) D"
        using up by blast
      let ?h2 = "put_cell a (as_cell OT [put (Some s) x]) h'"
      have at: "array_at OT h' a = Some [x]"
        using updated_elsewhere_cell [OF D array_at_inside [OF x(1)] d'(2)] x(1) array_at_cong [of h' a h OT] by simp
      have "updated read_obj h A ?h2 (Some a) (Some (with_elems (elems v @ [e]) v)) (Some a # D)"
        unfolding A using types(1) reader_axioms x(1) d'(2) D by (rule updated_store)
      moreover have "points ?h2 a (length (elems v)) (sl_array s, sl_off s + (sl_len s - 1))"
        using array_at_put_cell [OF types(1) array_at_inside [OF at]] s by (auto simp: points_def field)
      ultimately show "wp (store_at OT a 0 (put (Some s) x)) (\<lambda>_ h2. \<exists>B. points h2 a (length (elems v)) (sl_array s, sl_off s + (sl_len s - 1)) \<and>
          updated read_obj h A h2 (Some a) (Some (with_elems (elems v @ [e]) v)) B) h'"
        by (auto simp: wp_store_at [OF at])
    qed
    then show ?thesis
      unfolding find_or_append_def wp_simps ld wp_find_slot [OF C] None option.case
      by (auto simp: cond_slot_def None elim!: wp_mono)
  qed
qed


lemma modify_slot:
  assumes rd: "read_obj h (Some a) = Some (Some v, A)" and d: "distinct (owned A)"
    and q: "points h a i q" and i: "i < length (elems v)"
  shows "wp (modify ET q f) (\<lambda>_ h'. points h' a i q \<and>
    (\<exists>B. updated read_obj h A h' (Some a) (Some (with_elems ((elems v)[i := f (elems v ! i)]) v)) B)) h"
proof -
  obtain x A' where x: "array_at OT h a = Some [x]" "rd h x = Some (v, A')" and A: "A = Some a # A'"
    using rd by (auto simp: read_ptr_Some)
  have d': "distinct (owned A')" "a \<notin> set (owned A')" using d A by auto
  obtain s where s: "get x = Some s" "q = (sl_array s, sl_off s + i)"
    using q x(1) by (auto simp: points_def)
  obtain C where C: "read_flats ET h (Some s) = Some (elems v, C)"
    and up: "\<And>h' s es B. updated (read_flats ET) h C h' s es B \<Longrightarrow> \<exists>D. updated rd h A' h' (put s x) (with_elems es v) D"
    using focus [OF x(2) d'(1)] unfolding s(1) by blast
  have es: "slice_elems ET h s = Some (elems v)" using C by (simp add: read_flats_Some)
  let ?v = "with_elems ((elems v)[i := f (elems v ! i)]) v"
  show ?thesis
    unfolding modify_def s(2) fst_conv snd_conv wp_simps wp_load_elem [OF es i]
  proof (rule wp_mono [OF wp_store_elem [OF types(2) C i]])
    fix u :: unit and h'
    assume "updated (read_flats ET) h C h' (Some s) ((elems v)[i := f (elems v ! i)]) C"
    from up [OF this] obtain D where "updated rd h A' h' x ?v D"
      using field(2) [of x] s(1) by auto
    from updated_behind [OF x(1) d'(2) this]
    show "points h' a i (sl_array s, sl_off s + i) \<and> (\<exists>B. updated read_obj h A h' (Some a) (Some ?v) B)"
      using s(1) A by (auto simp: points_def)
  qed
qed

text \<open>A sequence of writes through the same pointer.\<close>

lemma modify_all_slot:
  assumes "read_obj h (Some a) = Some (Some v, A)" and "distinct (owned A)"
    and "points h a i q" and "i < length (elems v)"
  shows "wp (modify_all ET q fs) (\<lambda>_ h'. \<exists>B. updated read_obj h A h' (Some a)
    (Some (with_elems ((elems v)[i := fold (\<lambda>f. f) fs (elems v ! i)]) v)) B) h"
  using assms
proof (induction fs arbitrary: h v A)
  case Nil
  then show ?case
    using updated_refl [of read_obj h "Some a" "Some v" A] by (auto simp: wp_simps elems(3))
next
  case (Cons f fs)
  let ?v = "with_elems ((elems v)[i := f (elems v ! i)]) v"
  show ?case
    unfolding modify_all.simps wp_simps
  proof (rule wp_mono [OF modify_slot [OF Cons.prems, of f]])
    fix u :: unit and h1
    assume "points h1 a i q \<and> (\<exists>B. updated read_obj h A h1 (Some a) (Some ?v) B)"
    then obtain B where q: "points h1 a i q" and B: "updated read_obj h A h1 (Some a) (Some ?v) B" by blast
    show "wp (modify_all ET q fs) (\<lambda>_ h'. \<exists>B. updated read_obj h A h' (Some a)
        (Some (with_elems ((elems v)[i := fold (\<lambda>f. f) (f # fs) (elems v ! i)]) v)) B) h1"
      using Cons.IH [OF updated_reads [OF B] updated_distinct [OF B] q] Cons.prems(4)
      by (auto simp: elems elim!: wp_mono intro: updated_trans [OF B])
  qed
qed

text \<open>The whole of it.\<close>

lemma set_elem_writes:
  assumes rd: "read_obj h (Some a) = Some (Some v, A)" and d: "distinct (owned A)"
  shows "wp (set_elem OT ET get put p e fs a) (\<lambda>_ h'. \<exists>B. updated read_obj h A h' (Some a)
    (Some (with_elems (write_slot p e (fold (\<lambda>f. f) fs) (elems v)) v)) B) h"
  unfolding set_elem_def wp_simps
proof (rule wp_mono [OF find_or_append_slot [OF rd d, of p e]])
  fix q h1
  assume "\<exists>B es i. cond_slot p e (elems v) = (es, i) \<and> i < length es \<and> points h1 a i q \<and>
      updated read_obj h A h1 (Some a) (Some (with_elems es v)) B"
  then obtain B es i where slot: "cond_slot p e (elems v) = (es, i)" "i < length es" and q: "points h1 a i q"
    and B: "updated read_obj h A h1 (Some a) (Some (with_elems es v)) B" by blast
  show "wp (modify_all ET q fs) (\<lambda>_ h'. \<exists>B. updated read_obj h A h' (Some a)
    (Some (with_elems (write_slot p e (fold (\<lambda>f. f) fs) (elems v)) v)) B) h1"
    using modify_all_slot [OF updated_reads [OF B] updated_distinct [OF B] q, of fs] slot
    by (auto simp: elems write_slot_def elim!: wp_mono intro: updated_trans [OF B])
qed

end

end
