(* ===== verification/Patch_Bases.thy ===== *)
theory Patch_Bases
  imports Deep_Copies Copiers_Updates
begin

text \<open>
  Why the base of a status patch is right.  A controller reads an object, makes the base of
  its patch with \<open>client.MergeFrom(obj.DeepCopy())\<close> and then writes conditions into the
  object in place.  Here \<open>SetCondition\<close> runs on the object in memory: it does what the
  functions of theory \<open>Api_Conditions\<close> do to the object's value, and the base keeps the
  value that was read.  This is what lets the controllers of this development pass two values to the
  patch, the object and its base.
\<close>

section \<open>A metadata library\<close>

text \<open>A library with the documented contract, for examples and for the readers' lemmas.\<close>

definition plain_OwnerReference_copy :: "OwnerReference_m \<Rightarrow> (cell, OwnerReference_m) mprog" where
  "plain_OwnerReference_copy inp = do {
     p \<leftarrow> copy_ptr bool_T copy_flat (orm_Controller inp);
     State_Monad.return (inp\<lparr>orm_Controller := p\<rparr>)
   }"

definition plain_ObjectMeta_copy :: "ObjectMeta_m \<Rightarrow> (cell, ObjectMeta_m) mprog" where
  "plain_ObjectMeta_copy inp = do {
     t \<leftarrow> copy_ptr time_T copy_flat (omm_DeletionTimestamp inp);
     os \<leftarrow> copy_slice OwnerReference_T plain_OwnerReference_copy (omm_OwnerReferences inp);
     State_Monad.return (inp\<lparr>omm_DeletionTimestamp := t, omm_OwnerReferences := os\<rparr>)
   }"

definition plain_ListMeta_copy :: "ListMeta_m \<Rightarrow> (cell, ListMeta_m) mprog" where
  "plain_ListMeta_copy inp = do {
     n \<leftarrow> copy_ptr int_T copy_flat (lmm_RemainingItemCount inp);
     State_Monad.return (inp\<lparr>lmm_RemainingItemCount := n\<rparr>)
   }"

definition plain_metalib :: metalib where
  "plain_metalib = \<lparr>Time_DeepCopy = copy_ptr time_T copy_flat, Time_DeepCopyInto = copy_flat,
     ObjectMeta_DeepCopyInto = plain_ObjectMeta_copy, ListMeta_DeepCopyInto = plain_ListMeta_copy\<rparr>"

lemma copier_plain_OwnerReference: "copier read_OwnerReference plain_OwnerReference_copy"
proof -
  have "copier (read_ptr bool_T read_flat) (copy_ptr bool_T copy_flat)" by (intro copiers valid_types)
  then show ?thesis
    by (rule copier_struct [where mk = value_OwnerReference and get = "\<lambda>m. orm_Controller m"
          and put = "\<lambda>m x. m\<lparr>orm_Controller := x\<rparr>"])
      (auto simp: struct_simps read_OwnerReference_def value_OwnerReference_def plain_OwnerReference_copy_def)
qed

lemma copier_plain_ObjectMeta: "copier read_ObjectMeta plain_ObjectMeta_copy"
proof -
  have "copier (read_pair (read_ptr time_T read_flat) (read_slice OwnerReference_T read_OwnerReference))
      (copy_pair (copy_ptr time_T copy_flat) (copy_slice OwnerReference_T plain_OwnerReference_copy))"
    by (intro copiers valid_types copier_plain_OwnerReference)
  then show ?thesis
    by (rule copier_struct [where mk = value_ObjectMeta
          and get = "\<lambda>m. (omm_DeletionTimestamp m, omm_OwnerReferences m)"
          and put = "\<lambda>m (x, y). m\<lparr>omm_DeletionTimestamp := x, omm_OwnerReferences := y\<rparr>"])
      (auto simp: struct_simps read_ObjectMeta_def value_ObjectMeta_def plain_ObjectMeta_copy_def)
qed

lemma copier_plain_ListMeta: "copier read_ListMeta plain_ListMeta_copy"
proof -
  have "copier (read_ptr int_T read_flat) (copy_ptr int_T copy_flat)" by (intro copiers valid_types)
  then show ?thesis
    by (rule copier_struct [where mk = value_ListMeta and get = "\<lambda>m. lmm_RemainingItemCount m"
          and put = "\<lambda>m x. m\<lparr>lmm_RemainingItemCount := x\<rparr>"])
      (auto simp: struct_simps read_ListMeta_def value_ListMeta_def plain_ListMeta_copy_def)
qed

lemma plain_metalib_ok: "metalib_ok plain_metalib"
  using copier_ptr [OF _ copier_flat, of time_T] copier_flat copier_plain_ObjectMeta copier_plain_ListMeta
  by (simp add: metalib_ok_def plain_metalib_def valid_types)

section \<open>The contracts of the generated copies, as interpretations\<close>

interpretation action: copier read_Action Action_DeepCopyInto
  by (rule copier_Action)

interpretation connection: copier read_Connection Connection_DeepCopyInto
  by (rule copier_Connection)

interpretation meta: copier read_ObjectMeta plain_ObjectMeta_copy
  by (rule copier_plain_ObjectMeta)

interpretation machine: copier read_Machine "Machine_DeepCopyInto plain_metalib"
  by (rule copier_Machine [OF plain_metalib_ok])

interpretation job: copier read_Job "Job_DeepCopyInto plain_metalib"
  by (rule copier_Job [OF plain_metalib_ok])

interpretation task: copier read_Task "Task_DeepCopyInto plain_metalib"
  by (rule copier_Task [OF plain_metalib_ok])

lemmas object_readers =
  copier_reader [OF copier_plain_ObjectMeta]
  copier_reader [OF copier_MachineSpec] copier_reader [OF copier_MachineStatus [OF plain_metalib_ok]]
  copier_reader [OF copier_JobSpec] copier_reader [OF copier_JobStatus [OF plain_metalib_ok]]
  copier_reader [OF copier_TaskSpec] copier_reader [OF copier_TaskStatus [OF plain_metalib_ok]]
  reader_pair reader_ptr reader_slice reader_flat

section \<open>SetCondition in memory\<close>

definition Job_SetCondition_m :: "addr \<Rightarrow> JobConditionType \<Rightarrow> ConditionStatus \<Rightarrow>
    (JobCondition \<Rightarrow> JobCondition) list \<Rightarrow> (cell, unit) mprog" where
  "Job_SetCondition_m j cType status opts =
     set_elem Job_T JobCondition_T (\<lambda>x. jsm_Conditions (jobm_Status x))
       (\<lambda>s x. x\<lparr>jobm_Status := (jobm_Status x)\<lparr>jsm_Conditions := s\<rparr>\<rparr>)
       (\<lambda>c. jc_Type c = cType) \<lparr>jc_Type = cType, jc_Status = [], jc_Message = []\<rparr>
       ((\<lambda>c. c\<lparr>jc_Status := status\<rparr>) # opts) j"

definition Task_SetCondition_m :: "addr \<Rightarrow> TaskConditionType \<Rightarrow> ConditionStatus \<Rightarrow>
    (TaskCondition \<Rightarrow> TaskCondition) list \<Rightarrow> (cell, unit) mprog" where
  "Task_SetCondition_m t cType status opts =
     set_elem Task_T TaskCondition_T (\<lambda>x. tsm_Conditions (taskm_Status x))
       (\<lambda>s x. x\<lparr>taskm_Status := (taskm_Status x)\<lparr>tsm_Conditions := s\<rparr>\<rparr>)
       (\<lambda>c. tc_Type c = cType) \<lparr>tc_Type = cType, tc_Status = [], tc_Message = []\<rparr>
       ((\<lambda>c. c\<lparr>tc_Status := status\<rparr>) # opts) t"

definition Machine_SetCondition_m :: "time \<Rightarrow> addr \<Rightarrow> MachineConditionType \<Rightarrow> ConditionStatus \<Rightarrow>
    (MachineCondition \<Rightarrow> MachineCondition) list \<Rightarrow> (cell, unit) mprog" where
  "Machine_SetCondition_m now bm cType status opts =
     set_elem Machine_T MachineCondition_T (\<lambda>x. msm_Conditions (machinem_Status x))
       (\<lambda>s x. x\<lparr>machinem_Status := (machinem_Status x)\<lparr>msm_Conditions := s\<rparr>\<rparr>)
       (\<lambda>c. mc_Type c = cType) \<lparr>mc_Type = cType, mc_Status = [], mc_LastUpdateTime = 0, mc_Message = []\<rparr>
       ((\<lambda>c. if mc_Status c \<noteq> status then c\<lparr>mc_Status := status, mc_LastUpdateTime := now\<rparr> else c) # opts) bm"

text \<open>The conditions of each kind are a slice in a field of the object.\<close>

lemma JobStatus_focus:
  assumes "read_JobStatus h x = Some (v, A)" and "distinct (owned A)"
  shows "\<exists>C. read_flats JobCondition_T h (jsm_Conditions x) = Some (js_Conditions v, C) \<and>
    (\<forall>h' s es B. updated (read_flats JobCondition_T) h C h' s es B \<longrightarrow>
      (\<exists>D. updated read_JobStatus h A h' (x\<lparr>jsm_Conditions := s\<rparr>) (v\<lparr>js_Conditions := es\<rparr>) D))"
proof -
  let ?times = "read_pair (read_ptr time_T read_flat) (read_ptr time_T read_flat)"
  obtain cs C t B where rd: "read_flats JobCondition_T h (jsm_Conditions x) = Some (cs, C)"
      "?times h (jsm_StartTime x, jsm_CompletionTime x) = Some (t, B)"
    and v: "v = value_JobStatus x (cs, t)" and A: "A = C @ B"
    using assms(1) unfolding read_JobStatus_def by (auto simp: read_pair_Some)
  have r: "reader (read_flats JobCondition_T)" "reader ?times" by (intro object_readers)+
  have "\<exists>D. updated read_JobStatus h A h' (x\<lparr>jsm_Conditions := s\<rparr>) (v\<lparr>js_Conditions := es\<rparr>) D"
    if up: "updated (read_flats JobCondition_T) h C h' s es D" for h' s es D
  proof -
    have "updated (read_pair (read_flats JobCondition_T) ?times) h A h'
        (s, jsm_StartTime x, jsm_CompletionTime x) (es, t) (D @ B)"
      using assms(2) up unfolding A by (rule updated_fst [OF r rd(2)])
    then show ?thesis
      unfolding v updated_def by (auto simp: read_JobStatus_def value_JobStatus_def split: prod.splits)
  qed
  then show ?thesis using rd(1) v by (auto simp: value_JobStatus_def split: prod.splits)
qed

lemma TaskStatus_focus:
  assumes "read_TaskStatus h x = Some (v, A)" and "distinct (owned A)"
  shows "\<exists>C. read_flats TaskCondition_T h (tsm_Conditions x) = Some (ts_Conditions v, C) \<and>
    (\<forall>h' s es B. updated (read_flats TaskCondition_T) h C h' s es B \<longrightarrow>
      (\<exists>D. updated read_TaskStatus h A h' (x\<lparr>tsm_Conditions := s\<rparr>) (v\<lparr>ts_Conditions := es\<rparr>) D))"
proof -
  let ?times = "read_pair (read_ptr time_T read_flat) (read_ptr time_T read_flat)"
  obtain cs C t B where rd: "read_flats TaskCondition_T h (tsm_Conditions x) = Some (cs, C)"
      "?times h (tsm_StartTime x, tsm_CompletionTime x) = Some (t, B)"
    and v: "v = value_TaskStatus x (cs, t)" and A: "A = C @ B"
    using assms(1) unfolding read_TaskStatus_def by (auto simp: read_pair_Some)
  have r: "reader (read_flats TaskCondition_T)" "reader ?times" by (intro object_readers)+
  have "\<exists>D. updated read_TaskStatus h A h' (x\<lparr>tsm_Conditions := s\<rparr>) (v\<lparr>ts_Conditions := es\<rparr>) D"
    if up: "updated (read_flats TaskCondition_T) h C h' s es D" for h' s es D
  proof -
    have "updated (read_pair (read_flats TaskCondition_T) ?times) h A h'
        (s, tsm_StartTime x, tsm_CompletionTime x) (es, t) (D @ B)"
      using assms(2) up unfolding A by (rule updated_fst [OF r rd(2)])
    then show ?thesis
      unfolding v updated_def by (auto simp: read_TaskStatus_def value_TaskStatus_def split: prod.splits)
  qed
  then show ?thesis using rd(1) v by (auto simp: value_TaskStatus_def split: prod.splits)
qed

lemma MachineStatus_focus:
  assumes "read_MachineStatus h x = Some (v, A)"
  shows "\<exists>C. read_flats MachineCondition_T h (msm_Conditions x) = Some (ms_Conditions v, C) \<and>
    (\<forall>h' s es B. updated (read_flats MachineCondition_T) h C h' s es B \<longrightarrow>
      (\<exists>D. updated read_MachineStatus h A h' (x\<lparr>msm_Conditions := s\<rparr>) (v\<lparr>ms_Conditions := es\<rparr>) D))"
  using assms by (auto simp: read_MachineStatus_def value_MachineStatus_def updated_def)

text \<open>An object is its metadata, its specification and its status, which alone is updated.\<close>

lemma object_status:
  assumes "reader rm" and "reader rs" and "reader rt"
    and rds: "rm h m = Some (u, A1)" "rs h n = Some (w, A2)" and d: "distinct (owned (A1 @ A2 @ A3))"
    and up: "updated rt h A3 h' t' v' D"
  shows "updated (read_pair rm (read_pair rs rt)) h (A1 @ A2 @ A3) h' (m, n, t') (u, w, v') (A1 @ A2 @ D)"
proof -
  have "distinct (owned (A2 @ A3))" using d by simp
  then have "updated (read_pair rs rt) h (A2 @ A3) h' (n, t') (w, v') (A2 @ D)"
    using up by (rule updated_snd [OF assms(2,3) rds(2)])
  with d show ?thesis by (rule updated_snd [OF assms(1) reader_pair [OF assms(2,3)] rds(1)])
qed

lemma object_focus:
  assumes "reader rm" and "reader rs" and "reader rt"
    and rd: "read_pair rm (read_pair rs rt) h (m, n, t) = Some ((u, w, v), A)" and d: "distinct (owned A)"
    and status: "\<And>A. rt h t = Some (v, A) \<Longrightarrow> distinct (owned A) \<Longrightarrow> \<exists>C. rc h c = Some (es, C) \<and>
      (\<forall>h' s es B. updated rc h C h' s es B \<longrightarrow> (\<exists>D. updated rt h A h' (put s t) (with_es es v) D))"
  shows "\<exists>C. rc h c = Some (es, C) \<and> (\<forall>h' s es B. updated rc h C h' s es B \<longrightarrow>
    (\<exists>D. updated (read_pair rm (read_pair rs rt)) h A h' (m, n, put s t) (u, w, with_es es v) D))"
proof -
  obtain A1 A2 A3 where rds: "rm h m = Some (u, A1)" "rs h n = Some (w, A2)" "rt h t = Some (v, A3)"
    and A: "A = A1 @ A2 @ A3" using rd by (auto simp: read_pair_Some)
  have "distinct (owned A3)" using d A by simp
  from status [OF rds(3) this] obtain C where C: "rc h c = Some (es, C)"
    and up: "\<And>h' s es B. updated rc h C h' s es B \<Longrightarrow> \<exists>D. updated rt h A3 h' (put s t) (with_es es v) D"
    by blast
  have "\<exists>D. updated (read_pair rm (read_pair rs rt)) h A h' (m, n, put s t) (u, w, with_es es v) D"
    if c: "updated rc h C h' s es B" for h' s es B
  proof -
    obtain D where "updated rt h A3 h' (put s t) (with_es es v) D" using up [OF c] by blast
    with d have "updated (read_pair rm (read_pair rs rt)) h A h' (m, n, put s t) (u, w, with_es es v) (A1 @ A2 @ D)"
      unfolding A by (rule object_status [OF assms(1-3) rds(1,2)])
    then show ?thesis by blast
  qed
  then show ?thesis using C by blast
qed

interpretation job_conditions: slice_field read_Job Job_T JobCondition_T
    "\<lambda>x. jsm_Conditions (jobm_Status x)" "\<lambda>s x. x\<lparr>jobm_Status := (jobm_Status x)\<lparr>jsm_Conditions := s\<rparr>\<rparr>"
    "\<lambda>v. js_Conditions (job_Status v)" "\<lambda>es v. v\<lparr>job_Status := (job_Status v)\<lparr>js_Conditions := es\<rparr>\<rparr>"
proof unfold_locales
  fix h x v A assume rd: "read_Job h x = Some (v, A)" and d: "distinct (owned A)"
  obtain u w t where p: "read_pair read_ObjectMeta (read_pair read_JobSpec read_JobStatus) h
      (jobm_ObjectMeta x, jobm_Spec x, jobm_Status x) = Some ((u, w, t), A)" and v: "v = value_Job x (u, w, t)"
    using rd unfolding read_Job_def by auto
  have "\<exists>C. read_flats JobCondition_T h (jsm_Conditions (jobm_Status x)) = Some (js_Conditions t, C) \<and>
    (\<forall>h' s es B. updated (read_flats JobCondition_T) h C h' s es B \<longrightarrow>
      (\<exists>D. updated (read_pair read_ObjectMeta (read_pair read_JobSpec read_JobStatus)) h A h'
        (jobm_ObjectMeta x, jobm_Spec x, (jobm_Status x)\<lparr>jsm_Conditions := s\<rparr>) (u, w, t\<lparr>js_Conditions := es\<rparr>) D))"
    by (rule object_focus [OF object_readers(1,4,5) p d]) (rule JobStatus_focus)
  then show "\<exists>C. read_flats JobCondition_T h (jsm_Conditions (jobm_Status x)) = Some (js_Conditions (job_Status v), C) \<and>
    (\<forall>h' s es B. updated (read_flats JobCondition_T) h C h' s es B \<longrightarrow>
      (\<exists>D. updated read_Job h A h' (x\<lparr>jobm_Status := (jobm_Status x)\<lparr>jsm_Conditions := s\<rparr>\<rparr>)
        (v\<lparr>job_Status := (job_Status v)\<lparr>js_Conditions := es\<rparr>\<rparr>) D))"
    unfolding v updated_def by (auto simp: read_Job_def value_Job_def)
qed (simp_all add: valid_types)

interpretation task_conditions: slice_field read_Task Task_T TaskCondition_T
    "\<lambda>x. tsm_Conditions (taskm_Status x)" "\<lambda>s x. x\<lparr>taskm_Status := (taskm_Status x)\<lparr>tsm_Conditions := s\<rparr>\<rparr>"
    "\<lambda>v. ts_Conditions (task_Status v)" "\<lambda>es v. v\<lparr>task_Status := (task_Status v)\<lparr>ts_Conditions := es\<rparr>\<rparr>"
proof unfold_locales
  fix h x v A assume rd: "read_Task h x = Some (v, A)" and d: "distinct (owned A)"
  obtain u w t where p: "read_pair read_ObjectMeta (read_pair read_TaskSpec read_TaskStatus) h
      (taskm_ObjectMeta x, taskm_Spec x, taskm_Status x) = Some ((u, w, t), A)" and v: "v = value_Task x (u, w, t)"
    using rd unfolding read_Task_def by auto
  have "\<exists>C. read_flats TaskCondition_T h (tsm_Conditions (taskm_Status x)) = Some (ts_Conditions t, C) \<and>
    (\<forall>h' s es B. updated (read_flats TaskCondition_T) h C h' s es B \<longrightarrow>
      (\<exists>D. updated (read_pair read_ObjectMeta (read_pair read_TaskSpec read_TaskStatus)) h A h'
        (taskm_ObjectMeta x, taskm_Spec x, (taskm_Status x)\<lparr>tsm_Conditions := s\<rparr>) (u, w, t\<lparr>ts_Conditions := es\<rparr>) D))"
    by (rule object_focus [OF object_readers(1,6,7) p d]) (rule TaskStatus_focus)
  then show "\<exists>C. read_flats TaskCondition_T h (tsm_Conditions (taskm_Status x)) = Some (ts_Conditions (task_Status v), C) \<and>
    (\<forall>h' s es B. updated (read_flats TaskCondition_T) h C h' s es B \<longrightarrow>
      (\<exists>D. updated read_Task h A h' (x\<lparr>taskm_Status := (taskm_Status x)\<lparr>tsm_Conditions := s\<rparr>\<rparr>)
        (v\<lparr>task_Status := (task_Status v)\<lparr>ts_Conditions := es\<rparr>\<rparr>) D))"
    unfolding v updated_def by (auto simp: read_Task_def value_Task_def)
qed (simp_all add: valid_types)

interpretation machine_conditions: slice_field read_Machine Machine_T MachineCondition_T
    "\<lambda>x. msm_Conditions (machinem_Status x)" "\<lambda>s x. x\<lparr>machinem_Status := (machinem_Status x)\<lparr>msm_Conditions := s\<rparr>\<rparr>"
    "\<lambda>v. ms_Conditions (machine_Status v)" "\<lambda>es v. v\<lparr>machine_Status := (machine_Status v)\<lparr>ms_Conditions := es\<rparr>\<rparr>"
proof unfold_locales
  fix h x v A assume rd: "read_Machine h x = Some (v, A)" and d: "distinct (owned A)"
  obtain u w t where p: "read_pair read_ObjectMeta (read_pair read_MachineSpec read_MachineStatus) h
      (machinem_ObjectMeta x, machinem_Spec x, machinem_Status x) = Some ((u, w, t), A)" and v: "v = value_Machine x (u, w, t)"
    using rd unfolding read_Machine_def by auto
  have "\<exists>C. read_flats MachineCondition_T h (msm_Conditions (machinem_Status x)) = Some (ms_Conditions t, C) \<and>
    (\<forall>h' s es B. updated (read_flats MachineCondition_T) h C h' s es B \<longrightarrow>
      (\<exists>D. updated (read_pair read_ObjectMeta (read_pair read_MachineSpec read_MachineStatus)) h A h'
        (machinem_ObjectMeta x, machinem_Spec x, (machinem_Status x)\<lparr>msm_Conditions := s\<rparr>) (u, w, t\<lparr>ms_Conditions := es\<rparr>) D))"
    by (rule object_focus [OF object_readers(1,2,3) p d]) (rule MachineStatus_focus)
  then show "\<exists>C. read_flats MachineCondition_T h (msm_Conditions (machinem_Status x)) = Some (ms_Conditions (machine_Status v), C) \<and>
    (\<forall>h' s es B. updated (read_flats MachineCondition_T) h C h' s es B \<longrightarrow>
      (\<exists>D. updated read_Machine h A h' (x\<lparr>machinem_Status := (machinem_Status x)\<lparr>msm_Conditions := s\<rparr>\<rparr>)
        (v\<lparr>machine_Status := (machine_Status v)\<lparr>ms_Conditions := es\<rparr>\<rparr>) D))"
    unfolding v updated_def by (auto simp: read_Machine_def value_Machine_def)
qed (simp_all add: valid_types)

text \<open>\<open>SetCondition\<close> in memory is the function of theory \<open>Api_Conditions\<close> on the object's value.\<close>

abbreviation read_Job_at :: "cell memory \<Rightarrow> addr option \<Rightarrow> (Job option \<times> addr option list) option" where
  "read_Job_at \<equiv> read_ptr Job_T read_Job"

abbreviation read_Task_at :: "cell memory \<Rightarrow> addr option \<Rightarrow> (Task option \<times> addr option list) option" where
  "read_Task_at \<equiv> read_ptr Task_T read_Task"

abbreviation read_Machine_at :: "cell memory \<Rightarrow> addr option \<Rightarrow> (Machine option \<times> addr option list) option" where
  "read_Machine_at \<equiv> read_ptr Machine_T read_Machine"

lemma Job_SetCondition_m_writes:
  assumes "read_Job_at h (Some a) = Some (Some j, A)" and "distinct (owned A)"
  shows "wp (Job_SetCondition_m a ty st opts) (\<lambda>_ h'. \<exists>B.
    updated read_Job_at h A h' (Some a) (Some (Job_SetCondition j ty st opts)) B) h"
  unfolding Job_SetCondition_m_def Job_SetCondition_slot
  by (rule wp_mono [OF job_conditions.set_elem_writes [OF assms]]) (simp add: comp_def)

lemma Task_SetCondition_m_writes:
  assumes "read_Task_at h (Some a) = Some (Some t, A)" and "distinct (owned A)"
  shows "wp (Task_SetCondition_m a ty st opts) (\<lambda>_ h'. \<exists>B.
    updated read_Task_at h A h' (Some a) (Some (Task_SetCondition t ty st opts)) B) h"
  unfolding Task_SetCondition_m_def Task_SetCondition_slot
  by (rule wp_mono [OF task_conditions.set_elem_writes [OF assms]]) (simp add: comp_def)

lemma Machine_SetCondition_m_writes:
  assumes "read_Machine_at h (Some a) = Some (Some m, A)" and "distinct (owned A)"
  shows "wp (Machine_SetCondition_m now a ty st opts) (\<lambda>_ h'. \<exists>B.
    updated read_Machine_at h A h' (Some a) (Some (Machine_SetCondition now m ty st opts)) B) h"
  unfolding Machine_SetCondition_m_def Machine_SetCondition_slot
  by (rule wp_mono [OF machine_conditions.set_elem_writes [OF assms]]) (simp add: comp_def)

section \<open>The other writes to a status\<close>

text \<open>
  \<open>status.StartTime = &now\<close> points the field to a new variable.  The writes the controllers make to a
  Job or a Task between reading and patching it, in memory and on its value; those to a
  Machine are its power state and its conditions.
\<close>

datatype status_write =
    SetConditionWith string string "string list"
  | SetStartTime time
  | SetCompletionTime time

fun Job_write_m :: "addr \<Rightarrow> status_write \<Rightarrow> (cell, unit) mprog" where
  "Job_write_m a (SetConditionWith ty st ms) = Job_SetCondition_m a ty st (map WithJobConditionMessage ms)"
| "Job_write_m a (SetStartTime now) = do {
     p \<leftarrow> alloc time_T [now];
     x \<leftarrow> load_at Job_T a 0;
     store_at Job_T a 0 (x\<lparr>jobm_Status := (jobm_Status x)\<lparr>jsm_StartTime := Some p\<rparr>\<rparr>)
   }"
| "Job_write_m a (SetCompletionTime now) = do {
     p \<leftarrow> alloc time_T [now];
     x \<leftarrow> load_at Job_T a 0;
     store_at Job_T a 0 (x\<lparr>jobm_Status := (jobm_Status x)\<lparr>jsm_CompletionTime := Some p\<rparr>\<rparr>)
   }"

fun Job_write :: "status_write \<Rightarrow> Job \<Rightarrow> Job" where
  "Job_write (SetConditionWith ty st ms) j = Job_SetCondition j ty st (map WithJobConditionMessage ms)"
| "Job_write (SetStartTime now) j = j\<lparr>job_Status := (job_Status j)\<lparr>js_StartTime := Some now\<rparr>\<rparr>"
| "Job_write (SetCompletionTime now) j = j\<lparr>job_Status := (job_Status j)\<lparr>js_CompletionTime := Some now\<rparr>\<rparr>"

fun Task_write_m :: "addr \<Rightarrow> status_write \<Rightarrow> (cell, unit) mprog" where
  "Task_write_m a (SetConditionWith ty st ms) = Task_SetCondition_m a ty st (map WithTaskConditionMessage ms)"
| "Task_write_m a (SetStartTime now) = do {
     p \<leftarrow> alloc time_T [now];
     x \<leftarrow> load_at Task_T a 0;
     store_at Task_T a 0 (x\<lparr>taskm_Status := (taskm_Status x)\<lparr>tsm_StartTime := Some p\<rparr>\<rparr>)
   }"
| "Task_write_m a (SetCompletionTime now) = do {
     p \<leftarrow> alloc time_T [now];
     x \<leftarrow> load_at Task_T a 0;
     store_at Task_T a 0 (x\<lparr>taskm_Status := (taskm_Status x)\<lparr>tsm_CompletionTime := Some p\<rparr>\<rparr>)
   }"

fun Task_write :: "status_write \<Rightarrow> Task \<Rightarrow> Task" where
  "Task_write (SetConditionWith ty st ms) t = Task_SetCondition t ty st (map WithTaskConditionMessage ms)"
| "Task_write (SetStartTime now) t = t\<lparr>task_Status := (task_Status t)\<lparr>ts_StartTime := Some now\<rparr>\<rparr>"
| "Task_write (SetCompletionTime now) t = t\<lparr>task_Status := (task_Status t)\<lparr>ts_CompletionTime := Some now\<rparr>\<rparr>"

datatype machine_write =
    SetMachineCondition time string string "string list"
  | SetPower PowerState

fun Machine_write_m :: "addr \<Rightarrow> machine_write \<Rightarrow> (cell, unit) mprog" where
  "Machine_write_m a (SetMachineCondition now ty st ms) =
     Machine_SetCondition_m now a ty st (map WithMachineConditionMessage ms)"
| "Machine_write_m a (SetPower p) = do {
     x \<leftarrow> load_at Machine_T a 0;
     store_at Machine_T a 0 (x\<lparr>machinem_Status := (machinem_Status x)\<lparr>msm_Power := p\<rparr>\<rparr>)
   }"

fun Machine_write :: "machine_write \<Rightarrow> Machine \<Rightarrow> Machine" where
  "Machine_write (SetMachineCondition now ty st ms) m =
     Machine_SetCondition now m ty st (map WithMachineConditionMessage ms)"
| "Machine_write (SetPower p) m = m\<lparr>machine_Status := (machine_Status m)\<lparr>ms_Power := p\<rparr>\<rparr>"

lemma updated_new_time:
  "updated (read_ptr time_T read_flat) h A (add_cell (as_cell time_T [now]) h) (Some (msize h)) (Some now) [Some (msize h)]"
  using array_at_add_cell [of time_T "[now]" h]
  by (auto simp: updated_def changed_only_def cell_at_add_cell read_ptr_Some read_flat_def valid_types)

lemma JobStatus_times:
  assumes "read_JobStatus h x = Some (v, A)" and d: "distinct (owned A)"
  shows "\<exists>B. updated read_JobStatus h A (add_cell (as_cell time_T [now]) h)
      (x\<lparr>jsm_StartTime := Some (msize h)\<rparr>) (v\<lparr>js_StartTime := Some now\<rparr>) B"
    and "\<exists>B. updated read_JobStatus h A (add_cell (as_cell time_T [now]) h)
      (x\<lparr>jsm_CompletionTime := Some (msize h)\<rparr>) (v\<lparr>js_CompletionTime := Some now\<rparr>) B"
proof -
  let ?t = "read_ptr time_T read_flat" and ?cs = "read_flats JobCondition_T"
  let ?h = "add_cell (as_cell time_T [now]) h" and ?p = "Some (msize h)"
  obtain cs C s S e E where rd: "?cs h (jsm_Conditions x) = Some (cs, C)"
      "?t h (jsm_StartTime x) = Some (s, S)" "?t h (jsm_CompletionTime x) = Some (e, E)"
    and v: "v = value_JobStatus x (cs, s, e)" and A: "A = C @ S @ E"
    using assms(1) unfolding read_JobStatus_def by (auto simp: read_pair_Some)
  have r: "reader ?cs" "reader ?t" "reader (read_pair ?t ?t)" by (intro object_readers)+
  have d': "distinct (owned (S @ E))" using d A by simp
  have "updated (read_pair ?t ?t) h (S @ E) ?h (?p, jsm_CompletionTime x) (Some now, e) ([?p] @ E)"
    using d' updated_new_time by (rule updated_fst [OF r(2,2) rd(3)])
  then have "updated (read_pair ?cs (read_pair ?t ?t)) h A ?h (jsm_Conditions x, ?p, jsm_CompletionTime x)
      (cs, Some now, e) (C @ [?p] @ E)"
    using d unfolding A by (intro updated_snd [OF r(1,3) rd(1)])
  then show "\<exists>B. updated read_JobStatus h A ?h (x\<lparr>jsm_StartTime := ?p\<rparr>) (v\<lparr>js_StartTime := Some now\<rparr>) B"
    unfolding v updated_def by (auto simp: read_JobStatus_def value_JobStatus_def)
  have "updated (read_pair ?t ?t) h (S @ E) ?h (jsm_StartTime x, ?p) (s, Some now) (S @ [?p])"
    using d' updated_new_time by (rule updated_snd [OF r(2,2) rd(2)])
  then have "updated (read_pair ?cs (read_pair ?t ?t)) h A ?h (jsm_Conditions x, jsm_StartTime x, ?p)
      (cs, s, Some now) (C @ S @ [?p])"
    using d unfolding A by (intro updated_snd [OF r(1,3) rd(1)])
  then show "\<exists>B. updated read_JobStatus h A ?h (x\<lparr>jsm_CompletionTime := ?p\<rparr>) (v\<lparr>js_CompletionTime := Some now\<rparr>) B"
    unfolding v updated_def by (auto simp: read_JobStatus_def value_JobStatus_def)
qed

lemma TaskStatus_times:
  assumes "read_TaskStatus h x = Some (v, A)" and d: "distinct (owned A)"
  shows "\<exists>B. updated read_TaskStatus h A (add_cell (as_cell time_T [now]) h)
      (x\<lparr>tsm_StartTime := Some (msize h)\<rparr>) (v\<lparr>ts_StartTime := Some now\<rparr>) B"
    and "\<exists>B. updated read_TaskStatus h A (add_cell (as_cell time_T [now]) h)
      (x\<lparr>tsm_CompletionTime := Some (msize h)\<rparr>) (v\<lparr>ts_CompletionTime := Some now\<rparr>) B"
proof -
  let ?t = "read_ptr time_T read_flat" and ?cs = "read_flats TaskCondition_T"
  let ?h = "add_cell (as_cell time_T [now]) h" and ?p = "Some (msize h)"
  obtain cs C s S e E where rd: "?cs h (tsm_Conditions x) = Some (cs, C)"
      "?t h (tsm_StartTime x) = Some (s, S)" "?t h (tsm_CompletionTime x) = Some (e, E)"
    and v: "v = value_TaskStatus x (cs, s, e)" and A: "A = C @ S @ E"
    using assms(1) unfolding read_TaskStatus_def by (auto simp: read_pair_Some)
  have r: "reader ?cs" "reader ?t" "reader (read_pair ?t ?t)" by (intro object_readers)+
  have d': "distinct (owned (S @ E))" using d A by simp
  have "updated (read_pair ?t ?t) h (S @ E) ?h (?p, tsm_CompletionTime x) (Some now, e) ([?p] @ E)"
    using d' updated_new_time by (rule updated_fst [OF r(2,2) rd(3)])
  then have "updated (read_pair ?cs (read_pair ?t ?t)) h A ?h (tsm_Conditions x, ?p, tsm_CompletionTime x)
      (cs, Some now, e) (C @ [?p] @ E)"
    using d unfolding A by (intro updated_snd [OF r(1,3) rd(1)])
  then show "\<exists>B. updated read_TaskStatus h A ?h (x\<lparr>tsm_StartTime := ?p\<rparr>) (v\<lparr>ts_StartTime := Some now\<rparr>) B"
    unfolding v updated_def by (auto simp: read_TaskStatus_def value_TaskStatus_def)
  have "updated (read_pair ?t ?t) h (S @ E) ?h (tsm_StartTime x, ?p) (s, Some now) (S @ [?p])"
    using d' updated_new_time by (rule updated_snd [OF r(2,2) rd(2)])
  then have "updated (read_pair ?cs (read_pair ?t ?t)) h A ?h (tsm_Conditions x, tsm_StartTime x, ?p)
      (cs, s, Some now) (C @ S @ [?p])"
    using d unfolding A by (intro updated_snd [OF r(1,3) rd(1)])
  then show "\<exists>B. updated read_TaskStatus h A ?h (x\<lparr>tsm_CompletionTime := ?p\<rparr>) (v\<lparr>ts_CompletionTime := Some now\<rparr>) B"
    unfolding v updated_def by (auto simp: read_TaskStatus_def value_TaskStatus_def)
qed

lemma Job_status_store:
  assumes rd: "read_Job_at h (Some a) = Some (Some j, A)" and d: "distinct (owned A)"
    and x: "array_at Job_T h a = Some [x]"
    and up: "\<And>C. read_JobStatus h (jobm_Status x) = Some (job_Status j, C) \<Longrightarrow> distinct (owned C) \<Longrightarrow>
      \<exists>D. updated read_JobStatus h C h' t' v' D"
  shows "\<exists>B. updated read_Job_at h A (put_cell a (as_cell Job_T [x\<lparr>jobm_Status := t'\<rparr>]) h')
    (Some a) (Some (j\<lparr>job_Status := v'\<rparr>)) B"
proof -
  let ?r = "read_pair read_ObjectMeta (read_pair read_JobSpec read_JobStatus)"
  obtain C where j: "read_Job h x = Some (j, C)" and A: "A = Some a # C"
    using rd x by (auto simp: read_ptr_Some)
  obtain u w t A1 A2 A3 where rds: "read_ObjectMeta h (jobm_ObjectMeta x) = Some (u, A1)"
      "read_JobSpec h (jobm_Spec x) = Some (w, A2)" "read_JobStatus h (jobm_Status x) = Some (t, A3)"
    and v: "j = value_Job x (u, w, t)" and C: "C = A1 @ A2 @ A3"
    using j unfolding read_Job_def by (auto simp: read_pair_Some)
  have d': "distinct (owned C)" "a \<notin> set (owned C)" using d A by auto
  have "job_Status j = t" using v by (simp add: value_Job_def)
  then obtain D where D: "updated read_JobStatus h A3 h' t' v' D" using up rds(3) d'(1) C by auto
  have "updated ?r h C h' (jobm_ObjectMeta x, jobm_Spec x, t') (u, w, v') (A1 @ A2 @ D)"
    unfolding C using d'(1) [unfolded C] D by (rule object_status [OF object_readers(1,4,5) rds(1,2)])
  then have "updated read_Job h C h' (x\<lparr>jobm_Status := t'\<rparr>) (j\<lparr>job_Status := v'\<rparr>) (A1 @ A2 @ D)"
    unfolding v by (simp add: updated_def read_Job_def value_Job_def)
  then have "updated read_Job_at h A (put_cell a (as_cell Job_T [x\<lparr>jobm_Status := t'\<rparr>]) h')
      (Some a) (Some (j\<lparr>job_Status := v'\<rparr>)) (Some a # A1 @ A2 @ D)"
    unfolding A by (rule updated_store [OF valid_types(30) job.reader_axioms x d'(2)])
  then show ?thesis by blast
qed

lemma Job_write_m_writes:
  assumes rd: "read_Job_at h (Some a) = Some (Some j, A)" and d: "distinct (owned A)"
  shows "wp (Job_write_m a w) (\<lambda>_ h'. \<exists>B. updated read_Job_at h A h' (Some a) (Some (Job_write w j)) B) h"
proof (cases w)
  case (SetConditionWith ty st ms)
  then show ?thesis using Job_SetCondition_m_writes [OF assms] by simp
next
  case (SetStartTime now)
  obtain x where x: "array_at Job_T h a = Some [x]" using rd by (auto simp: read_ptr_Some)
  then have x': "array_at Job_T (add_cell (as_cell time_T [now]) h) a = Some [x]"
    by (rule extends_array [OF extends_add_cell [OF extends_refl]])
  show ?thesis
    using Job_status_store [OF rd d x JobStatus_times(1)]
    by (simp add: SetStartTime wp_simps wp_load_at [OF x'] wp_store_at [OF x'])
next
  case (SetCompletionTime now)
  obtain x where x: "array_at Job_T h a = Some [x]" using rd by (auto simp: read_ptr_Some)
  then have x': "array_at Job_T (add_cell (as_cell time_T [now]) h) a = Some [x]"
    by (rule extends_array [OF extends_add_cell [OF extends_refl]])
  show ?thesis
    using Job_status_store [OF rd d x JobStatus_times(2)]
    by (simp add: SetCompletionTime wp_simps wp_load_at [OF x'] wp_store_at [OF x'])
qed

lemma Task_status_store:
  assumes rd: "read_Task_at h (Some a) = Some (Some t0, A)" and d: "distinct (owned A)"
    and x: "array_at Task_T h a = Some [x]"
    and up: "\<And>C. read_TaskStatus h (taskm_Status x) = Some (task_Status t0, C) \<Longrightarrow> distinct (owned C) \<Longrightarrow>
      \<exists>D. updated read_TaskStatus h C h' t' v' D"
  shows "\<exists>B. updated read_Task_at h A (put_cell a (as_cell Task_T [x\<lparr>taskm_Status := t'\<rparr>]) h')
    (Some a) (Some (t0\<lparr>task_Status := v'\<rparr>)) B"
proof -
  let ?r = "read_pair read_ObjectMeta (read_pair read_TaskSpec read_TaskStatus)"
  obtain C where t0: "read_Task h x = Some (t0, C)" and A: "A = Some a # C"
    using rd x by (auto simp: read_ptr_Some)
  obtain u w t A1 A2 A3 where rds: "read_ObjectMeta h (taskm_ObjectMeta x) = Some (u, A1)"
      "read_TaskSpec h (taskm_Spec x) = Some (w, A2)" "read_TaskStatus h (taskm_Status x) = Some (t, A3)"
    and v: "t0 = value_Task x (u, w, t)" and C: "C = A1 @ A2 @ A3"
    using t0 unfolding read_Task_def by (auto simp: read_pair_Some)
  have d': "distinct (owned C)" "a \<notin> set (owned C)" using d A by auto
  have "task_Status t0 = t" using v by (simp add: value_Task_def)
  then obtain D where D: "updated read_TaskStatus h A3 h' t' v' D" using up rds(3) d'(1) C by auto
  have "updated ?r h C h' (taskm_ObjectMeta x, taskm_Spec x, t') (u, w, v') (A1 @ A2 @ D)"
    unfolding C using d'(1) [unfolded C] D by (rule object_status [OF object_readers(1,6,7) rds(1,2)])
  then have "updated read_Task h C h' (x\<lparr>taskm_Status := t'\<rparr>) (t0\<lparr>task_Status := v'\<rparr>) (A1 @ A2 @ D)"
    unfolding v by (simp add: updated_def read_Task_def value_Task_def)
  then have "updated read_Task_at h A (put_cell a (as_cell Task_T [x\<lparr>taskm_Status := t'\<rparr>]) h')
      (Some a) (Some (t0\<lparr>task_Status := v'\<rparr>)) (Some a # A1 @ A2 @ D)"
    unfolding A by (rule updated_store [OF valid_types(34) task.reader_axioms x d'(2)])
  then show ?thesis by blast
qed

lemma Task_write_m_writes:
  assumes rd: "read_Task_at h (Some a) = Some (Some t0, A)" and d: "distinct (owned A)"
  shows "wp (Task_write_m a w) (\<lambda>_ h'. \<exists>B. updated read_Task_at h A h' (Some a) (Some (Task_write w t0)) B) h"
proof (cases w)
  case (SetConditionWith ty st ms)
  then show ?thesis using Task_SetCondition_m_writes [OF assms] by simp
next
  case (SetStartTime now)
  obtain x where x: "array_at Task_T h a = Some [x]" using rd by (auto simp: read_ptr_Some)
  then have x': "array_at Task_T (add_cell (as_cell time_T [now]) h) a = Some [x]"
    by (rule extends_array [OF extends_add_cell [OF extends_refl]])
  show ?thesis
    using Task_status_store [OF rd d x TaskStatus_times(1)]
    by (simp add: SetStartTime wp_simps wp_load_at [OF x'] wp_store_at [OF x'])
next
  case (SetCompletionTime now)
  obtain x where x: "array_at Task_T h a = Some [x]" using rd by (auto simp: read_ptr_Some)
  then have x': "array_at Task_T (add_cell (as_cell time_T [now]) h) a = Some [x]"
    by (rule extends_array [OF extends_add_cell [OF extends_refl]])
  show ?thesis
    using Task_status_store [OF rd d x TaskStatus_times(2)]
    by (simp add: SetCompletionTime wp_simps wp_load_at [OF x'] wp_store_at [OF x'])
qed

lemma Machine_status_store:
  assumes rd: "read_Machine_at h (Some a) = Some (Some j, A)" and d: "distinct (owned A)"
    and x: "array_at Machine_T h a = Some [x]"
    and up: "\<And>C. read_MachineStatus h (machinem_Status x) = Some (machine_Status j, C) \<Longrightarrow> distinct (owned C) \<Longrightarrow>
      \<exists>D. updated read_MachineStatus h C h' t' v' D"
  shows "\<exists>B. updated read_Machine_at h A (put_cell a (as_cell Machine_T [x\<lparr>machinem_Status := t'\<rparr>]) h')
    (Some a) (Some (j\<lparr>machine_Status := v'\<rparr>)) B"
proof -
  let ?r = "read_pair read_ObjectMeta (read_pair read_MachineSpec read_MachineStatus)"
  obtain C where j: "read_Machine h x = Some (j, C)" and A: "A = Some a # C"
    using rd x by (auto simp: read_ptr_Some)
  obtain u w t A1 A2 A3 where rds: "read_ObjectMeta h (machinem_ObjectMeta x) = Some (u, A1)"
      "read_MachineSpec h (machinem_Spec x) = Some (w, A2)" "read_MachineStatus h (machinem_Status x) = Some (t, A3)"
    and v: "j = value_Machine x (u, w, t)" and C: "C = A1 @ A2 @ A3"
    using j unfolding read_Machine_def by (auto simp: read_pair_Some)
  have d': "distinct (owned C)" "a \<notin> set (owned C)" using d A by auto
  have "machine_Status j = t" using v by (simp add: value_Machine_def)
  then obtain D where D: "updated read_MachineStatus h A3 h' t' v' D" using up rds(3) d'(1) C by auto
  have "updated ?r h C h' (machinem_ObjectMeta x, machinem_Spec x, t') (u, w, v') (A1 @ A2 @ D)"
    unfolding C using d'(1) [unfolded C] D by (rule object_status [OF object_readers(1,2,3) rds(1,2)])
  then have "updated read_Machine h C h' (x\<lparr>machinem_Status := t'\<rparr>) (j\<lparr>machine_Status := v'\<rparr>) (A1 @ A2 @ D)"
    unfolding v by (simp add: updated_def read_Machine_def value_Machine_def)
  then have "updated read_Machine_at h A (put_cell a (as_cell Machine_T [x\<lparr>machinem_Status := t'\<rparr>]) h')
      (Some a) (Some (j\<lparr>machine_Status := v'\<rparr>)) (Some a # A1 @ A2 @ D)"
    unfolding A by (rule updated_store [OF valid_types(25) machine.reader_axioms x d'(2)])
  then show ?thesis by blast
qed

lemma Machine_write_m_writes:
  assumes rd: "read_Machine_at h (Some a) = Some (Some m, A)" and d: "distinct (owned A)"
  shows "wp (Machine_write_m a w) (\<lambda>_ h'. \<exists>B. updated read_Machine_at h A h' (Some a) (Some (Machine_write w m)) B) h"
proof (cases w)
  case (SetMachineCondition now ty st ms)
  then show ?thesis using Machine_SetCondition_m_writes [OF assms] by simp
next
  case (SetPower p)
  obtain x where x: "array_at Machine_T h a = Some [x]" using rd by (auto simp: read_ptr_Some)
  have "\<exists>D. updated read_MachineStatus h C h ((machinem_Status x)\<lparr>msm_Power := p\<rparr>) ((machine_Status m)\<lparr>ms_Power := p\<rparr>) D"
    if "read_MachineStatus h (machinem_Status x) = Some (machine_Status m, C)" "distinct (owned C)" for C
    using that by (cases "machine_Status m") (auto simp: updated_def changed_only_def read_MachineStatus_def value_MachineStatus_def)
  from Machine_status_store [OF rd d x this]
  show ?thesis by (simp add: SetPower wp_simps wp_load_at [OF x] wp_store_at [OF x])
qed

section \<open>The base of a patch\<close>

text \<open>A sequence of writes, one after the other.\<close>

fun run_writes :: "('w \<Rightarrow> (cell, unit) mprog) \<Rightarrow> 'w list \<Rightarrow> (cell, unit) mprog" where
  "run_writes step [] = State_Monad.return ()"
| "run_writes step (w # ws) = do { step w; run_writes step ws }"

lemma run_writes_updated:
  assumes one: "\<And>h v A w. rd h m = Some (Some v, A) \<Longrightarrow> distinct (owned A) \<Longrightarrow>
      wp (step w) (\<lambda>_ h'. \<exists>B. updated rd h A h' m (Some (f w v)) B) h"
    and "rd h m = Some (Some v, A)" and "distinct (owned A)"
  shows "wp (run_writes step ws) (\<lambda>_ h'. \<exists>B. updated rd h A h' m (Some (fold f ws v)) B) h"
  using assms(2,3)
proof (induction ws arbitrary: h v A)
  case Nil
  then show ?case using updated_refl [of rd h m "Some v" A] by (auto simp: wp_simps)
next
  case (Cons w ws)
  show ?case
    unfolding run_writes.simps wp_simps
  proof (rule wp_mono [OF one [OF Cons.prems]])
    fix u :: unit and h1 assume "\<exists>B. updated rd h A h1 m (Some (f w v)) B"
    then obtain B where B: "updated rd h A h1 m (Some (f w v)) B" by blast
    show "wp (run_writes step ws) (\<lambda>_ h'. \<exists>B. updated rd h A h' m (Some (fold f (w # ws) v)) B) h1"
      by (rule wp_mono [OF Cons.IH [OF updated_reads [OF B] updated_distinct [OF B]]])
        (auto intro: updated_trans [OF B])
  qed
qed

text \<open>
  \<open>patch := client.MergeFrom(obj.DeepCopy())\<close>, then the writes to the object: the result
  is the pointer that the patch keeps.
\<close>

definition with_base :: "(addr option \<Rightarrow> (cell, addr option) mprog) \<Rightarrow> ('w \<Rightarrow> (cell, unit) mprog) \<Rightarrow>
    addr \<Rightarrow> 'w list \<Rightarrow> (cell, addr option) mprog" where
  "with_base deep_copy step a ws = do {
     base \<leftarrow> deep_copy (Some a);
     run_writes step ws;
     State_Monad.return base
   }"

definition base_and_object :: "(cell, addr option, 'v option) reads \<Rightarrow> addr \<Rightarrow> 'v \<Rightarrow> 'v \<Rightarrow>
    addr option \<Rightarrow> cell memory \<Rightarrow> bool" where
  "base_and_object rd a v0 v base h \<longleftrightarrow>
     map_option fst (rd h base) = Some (Some v0) \<and> map_option fst (rd h (Some a)) = Some (Some v)"

lemma with_base_keeps:
  assumes c: "copier rd deep_copy"
    and one: "\<And>h v A w. rd h (Some a) = Some (Some v, A) \<Longrightarrow> distinct (owned A) \<Longrightarrow>
      wp (step w) (\<lambda>_ h'. \<exists>B. updated rd h A h' (Some a) (Some (f w v)) B) h"
    and rd: "rd h (Some a) = Some (Some v, A)" and d: "distinct (owned A)"
  shows "wp (with_base deep_copy step a ws) (base_and_object rd a v (fold f ws v)) h"
  unfolding with_base_def wp_simps
proof (rule wp_copied [OF c rd])
  note r = copier_reader [OF c]
  fix base h1 assume "copied rd h (Some v) A base h1"
  then obtain B where B: "rd h1 base = Some (Some v, B)" "fresh (msize h) B" and e: "extends h h1"
    by (auto simp: copied_def)
  have apart: "set (owned A) \<inter> set (owned B) = {}"
    using B(2) reader.inside [OF r rd] by (force simp: fresh_def)
  have A: "rd h1 (Some a) = Some (Some v, A)" using rd e by (rule reader.extended [OF r])
  show "wp (run_writes step ws) (\<lambda>_. base_and_object rd a v (fold f ws v) base) h1"
  proof (rule wp_mono [OF run_writes_updated [of rd "Some a" step f, OF one A d]])
    fix u :: unit and h2 assume "\<exists>C. updated rd h1 A h2 (Some a) (Some (fold f ws v)) C"
    then obtain C where up: "updated rd h1 A h2 (Some a) (Some (fold f ws v)) C" by blast
    have "rd h2 base = Some (Some v, B)" by (rule updated_elsewhere [OF r B(1) apart up])
    then show "base_and_object rd a v (fold f ws v) base h2"
      using updated_reads [OF up] by (simp add: base_and_object_def)
  qed
qed

lemma copier_DeepCopies [copiers]:
  assumes "metalib_ok L"
  shows "copier read_Job_at (Job_DeepCopy L)" and "copier read_Task_at (Task_DeepCopy L)"
    and "copier read_Machine_at (Machine_DeepCopy L)"
    and "copier (read_ptr JobList_T read_JobList) (JobList_DeepCopy L)"
    and "copier (read_ptr TaskList_T read_TaskList) (TaskList_DeepCopy L)"
    and "copier (read_ptr MachineList_T read_MachineList) (MachineList_DeepCopy L)"
  unfolding Job_DeepCopy_def Task_DeepCopy_def Machine_DeepCopy_def
    JobList_DeepCopy_def TaskList_DeepCopy_def MachineList_DeepCopy_def
  using assms by (intro copiers valid_types; assumption)+

section \<open>The properties\<close>

text \<open>A copy that shares nothing with its original, on memory in which the original can be read.\<close>

definition isolated :: "('c, 'm, 'v) reads \<Rightarrow> ('m \<Rightarrow> ('c, 'm) mprog) \<Rightarrow> bool" where
  "isolated rd f \<longleftrightarrow> (\<forall>h p v A. rd h p = Some (v, A) \<longrightarrow>
     wp (f p) (\<lambda>q h'. rd h' p = Some (v, A) \<and> (\<exists>B. rd h' q = Some (v, B) \<and> same_nils A B \<and>
       (\<forall>a c. a \<in> set (owned B) \<longrightarrow> rd (put_cell a c h') p = Some (v, A)) \<and>
       (\<forall>a c. a < msize h \<longrightarrow> rd (put_cell a c h') q = Some (v, B)))) h)"

lemma copier_isolated: "copier rd f \<Longrightarrow> isolated rd f"
  using copier.independent [of rd f] by (simp add: isolated_def)

definition object_copies :: "(cell, addr option, 'v option) reads \<Rightarrow> (addr \<Rightarrow> runtime_Object) \<Rightarrow>
    (addr option \<Rightarrow> (cell, runtime_Object option) mprog) \<Rightarrow> bool" where
  "object_copies rd con f \<longleftrightarrow> (\<forall>h. run_state (f None) h = (None, h)) \<and>
     (\<forall>h a v A. rd h (Some a) = Some (Some v, A) \<longrightarrow>
       wp (f (Some a)) (\<lambda>obj h'. \<exists>q. obj = Some (con q) \<and> q \<noteq> a \<and> map_option fst (rd h' (Some q)) = Some (Some v)) h)"

lemma copier_object_copies:
  assumes c: "copier (read_ptr T rd) f" and nil: "\<And>h. run_state (f None) h = (None, h)"
    and g: "\<And>p. g p = do { q \<leftarrow> f p; State_Monad.return (case q of Some a \<Rightarrow> Some (con a) | None \<Rightarrow> None) }"
  shows "object_copies (read_ptr T rd) con g"
  unfolding object_copies_def
proof (intro conjI allI impI)
  fix h show "run_state (g None) h = (None, h)" by (simp add: g nil)
next
  fix h a v A assume rd: "read_ptr T rd h (Some a) = Some (Some v, A)"
  show "wp (g (Some a)) (\<lambda>obj h'. \<exists>q. obj = Some (con q) \<and> q \<noteq> a \<and>
      map_option fst (read_ptr T rd h' (Some q)) = Some (Some v)) h"
    unfolding g wp_simps
  proof (rule wp_copied [OF c rd])
    fix q h' assume "copied (read_ptr T rd) h (Some v) A q h'"
    then obtain B where B: "read_ptr T rd h' q = Some (Some v, B)" "fresh (msize h) B"
      by (auto simp: copied_def)
    then obtain b where b: "q = Some b" by (cases q) auto
    have "b \<in> set (owned B)" using B(1) b by (auto simp: read_ptr_Some)
    then have "msize h \<le> b" using B(2) by (simp add: fresh_def)
    moreover have "a < msize h" using rd by (auto simp: read_ptr_Some array_at_inside)
    ultimately show "\<exists>b. (case q of Some a \<Rightarrow> Some (con a) | None \<Rightarrow> None) = Some (con b) \<and> b \<noteq> a \<and>
        map_option fst (read_ptr T rd h' (Some b)) = Some (Some v)"
      using b B(1) by auto
  qed
qed

text \<open>C9. The generated deep copies of the six root objects (Machine, Job, Task and their lists)
  give an object of the same value, nil at the same places, that shares no memory with the
  original: whatever is written to a cell of the copy leaves the original's value, and
  whatever is written to a cell that existed before leaves the copy's.\<close>

theorem deep_copies_isolated:
  assumes "metalib_ok L"
  shows "isolated read_Machine_at (Machine_DeepCopy L) \<and>
    isolated (read_ptr MachineList_T read_MachineList) (MachineList_DeepCopy L) \<and>
    isolated read_Job_at (Job_DeepCopy L) \<and>
    isolated (read_ptr JobList_T read_JobList) (JobList_DeepCopy L) \<and>
    isolated read_Task_at (Task_DeepCopy L) \<and>
    isolated (read_ptr TaskList_T read_TaskList) (TaskList_DeepCopy L)"
  using copier_DeepCopies [OF assms] by (simp add: copier_isolated)

text \<open>C5. The base of a status patch is the object as it was read: after
  \<open>MergeFrom(obj.DeepCopy())\<close> and any sequence of in-place writes to the status of a Job, a Task or
  a Machine (conditions, start and completion time, power), the base still has the value from
  before, and the object has the value that the functional updates give.\<close>

theorem patch_base_kept:
  assumes "metalib_ok L"
  shows "(\<forall>h a j A ws. read_Job_at h (Some a) = Some (Some j, A) \<longrightarrow> distinct (owned A) \<longrightarrow>
      wp (with_base (Job_DeepCopy L) (Job_write_m a) a ws)
        (base_and_object read_Job_at a j (fold Job_write ws j)) h) \<and>
    (\<forall>h a t A ws. read_Task_at h (Some a) = Some (Some t, A) \<longrightarrow> distinct (owned A) \<longrightarrow>
      wp (with_base (Task_DeepCopy L) (Task_write_m a) a ws)
        (base_and_object read_Task_at a t (fold Task_write ws t)) h) \<and>
    (\<forall>h a m A ws. read_Machine_at h (Some a) = Some (Some m, A) \<longrightarrow> distinct (owned A) \<longrightarrow>
      wp (with_base (Machine_DeepCopy L) (Machine_write_m a) a ws)
        (base_and_object read_Machine_at a m (fold Machine_write ws m)) h)"
proof (intro conjI allI impI)
  note c = copier_DeepCopies [OF assms]
  fix h a j A ws assume "read_Job_at h (Some a) = Some (Some j, A)" "distinct (owned A)"
  then show "wp (with_base (Job_DeepCopy L) (Job_write_m a) a ws)
      (base_and_object read_Job_at a j (fold Job_write ws j)) h"
    by (intro with_base_keeps [OF c(1) Job_write_m_writes])
next
  note c = copier_DeepCopies [OF assms]
  fix h a t A ws assume "read_Task_at h (Some a) = Some (Some t, A)" "distinct (owned A)"
  then show "wp (with_base (Task_DeepCopy L) (Task_write_m a) a ws)
      (base_and_object read_Task_at a t (fold Task_write ws t)) h"
    by (intro with_base_keeps [OF c(2) Task_write_m_writes])
next
  note c = copier_DeepCopies [OF assms]
  fix h a m A ws assume "read_Machine_at h (Some a) = Some (Some m, A)" "distinct (owned A)"
  then show "wp (with_base (Machine_DeepCopy L) (Machine_write_m a) a ws)
      (base_and_object read_Machine_at a m (fold Machine_write ws m)) h"
    by (intro with_base_keeps [OF c(3) Machine_write_m_writes])
qed

text \<open>C28. \<open>DeepCopyObject\<close> of each root type gives a \<open>runtime.Object\<close> of that same type,
  behind a new pointer to the same value; of a nil pointer it gives the nil interface, not
  an interface that holds a nil pointer.\<close>

theorem deep_copy_objects:
  assumes "metalib_ok L"
  shows "object_copies read_Machine_at ObjMachine (Machine_DeepCopyObject L) \<and>
    object_copies (read_ptr MachineList_T read_MachineList) ObjMachineList (MachineList_DeepCopyObject L) \<and>
    object_copies read_Job_at ObjJob (Job_DeepCopyObject L) \<and>
    object_copies (read_ptr JobList_T read_JobList) ObjJobList (JobList_DeepCopyObject L) \<and>
    object_copies read_Task_at ObjTask (Task_DeepCopyObject L) \<and>
    object_copies (read_ptr TaskList_T read_TaskList) ObjTaskList (TaskList_DeepCopyObject L)"
proof (intro conjI)
  note c = copier_DeepCopies [OF assms]
  show "object_copies read_Machine_at ObjMachine (Machine_DeepCopyObject L)"
    by (rule copier_object_copies [OF c(3)]) (simp_all add: Machine_DeepCopy_def Machine_DeepCopyObject_def copy_ptr_def)
  show "object_copies (read_ptr MachineList_T read_MachineList) ObjMachineList (MachineList_DeepCopyObject L)"
    by (rule copier_object_copies [OF c(6)]) (simp_all add: MachineList_DeepCopy_def MachineList_DeepCopyObject_def copy_ptr_def)
  show "object_copies read_Job_at ObjJob (Job_DeepCopyObject L)"
    by (rule copier_object_copies [OF c(1)]) (simp_all add: Job_DeepCopy_def Job_DeepCopyObject_def copy_ptr_def)
  show "object_copies (read_ptr JobList_T read_JobList) ObjJobList (JobList_DeepCopyObject L)"
    by (rule copier_object_copies [OF c(4)]) (simp_all add: JobList_DeepCopy_def JobList_DeepCopyObject_def copy_ptr_def)
  show "object_copies read_Task_at ObjTask (Task_DeepCopyObject L)"
    by (rule copier_object_copies [OF c(2)]) (simp_all add: Task_DeepCopy_def Task_DeepCopyObject_def copy_ptr_def)
  show "object_copies (read_ptr TaskList_T read_TaskList) ObjTaskList (TaskList_DeepCopyObject L)"
    by (rule copier_object_copies [OF c(5)]) (simp_all add: TaskList_DeepCopy_def TaskList_DeepCopyObject_def copy_ptr_def)
qed

section \<open>An example\<close>

text \<open>
  A Job with one action and one condition, whose array has room for another.
\<close>

definition sample_memory :: "cell memory" where
  "sample_memory = \<lparr>mem_cells =
     [Obj (C_Job [zero_Job
        \<lparr>jobm_Spec := zero_JobSpec\<lparr>jspm_Tasks := Some \<lparr>sl_array = 1, sl_off = 0, sl_len = 1\<rparr>\<rparr>,
         jobm_Status := zero_JobStatus\<lparr>jsm_Conditions := Some \<lparr>sl_array = 3, sl_off = 0, sl_len = 1\<rparr>\<rparr>\<rparr>]),
      Obj (C_Action [zero_Action\<lparr>actm_PowerAction := Some 2\<rparr>]),
      Basic (C_string [PowerOn]),
      Obj (C_JobCondition
        [\<lparr>jc_Type = JobRunning, jc_Status = ConditionFalse, jc_Message = []\<rparr>,
         \<lparr>jc_Type = [], jc_Status = [], jc_Message = []\<rparr>])],
     mem_draws = (\<lambda>_. 0)\<rparr>"

definition sample_job :: Job where
  "sample_job = blank_job
     \<lparr>job_Spec := \<lparr>jsp_MachineRef = \<lparr>mr_Name = [], mr_Namespace = []\<rparr>,
        jsp_Tasks = [empty_Action\<lparr>act_PowerAction := Some PowerOn\<rparr>]\<rparr>,
      job_Status := \<lparr>js_Conditions = [\<lparr>jc_Type = JobRunning, jc_Status = ConditionFalse, jc_Message = []\<rparr>],
        js_StartTime = None, js_CompletionTime = None\<rparr>\<rparr>"

lemma sample_read: "read_Job_at sample_memory (Some 0) =
   Some (Some sample_job, [Some 0, None, None, Some 1, Some 2, None, None, Some 3, None, None])"
  by code_simp

theorem deep_copies_isolated_witness:
  "isolated read_Job_at (Job_DeepCopy plain_metalib) \<and>
    read_Job_at sample_memory (Some 0) =
      Some (Some sample_job, [Some 0, None, None, Some 1, Some 2, None, None, Some 3, None, None])"
  using deep_copies_isolated [OF plain_metalib_ok] sample_read by blast

theorem patch_base_kept_witness:
  "wp (with_base (Job_DeepCopy plain_metalib) (Job_write_m 0) 0
      [SetStartTime 7, SetConditionWith JobRunning ConditionTrue []])
    (base_and_object read_Job_at 0 sample_job
      (Job_SetCondition (sample_job\<lparr>job_Status := (job_Status sample_job)\<lparr>js_StartTime := Some 7\<rparr>\<rparr>)
        JobRunning ConditionTrue [])) sample_memory"
proof -
  let ?ws = "[SetStartTime 7, SetConditionWith JobRunning ConditionTrue []]"
  have "\<forall>h a j A ws. read_Job_at h (Some a) = Some (Some j, A) \<longrightarrow> distinct (owned A) \<longrightarrow>
      wp (with_base (Job_DeepCopy plain_metalib) (Job_write_m a) a ws)
        (base_and_object read_Job_at a j (fold Job_write ws j)) h"
    using patch_base_kept [OF plain_metalib_ok] by blast
  from this [rule_format, OF sample_read, of ?ws] show ?thesis by simp
qed

theorem deep_copy_objects_witness:
  "object_copies read_Task_at ObjTask (Task_DeepCopyObject plain_metalib) \<and>
    object_copies read_Job_at ObjJob (Job_DeepCopyObject plain_metalib)"
  using deep_copy_objects [OF plain_metalib_ok] by blast

end
