(* ===== verification/Startup.thy ===== *)
theory Startup
  imports Machine_Controller Task_Controller Job_Controller Task_Naming
begin

text \<open>
  The process entry point (\<open>main.go\<close>) and the registration of the controllers
  (\<open>SetupWithManager\<close> of each, in \<open>controller/\<close>): the flags and their defaults, the options of
  the manager, the three controllers with what they watch and what they run, and the order of the
  calls, the first failure of which ends the process.  The flag parser, the client
  configuration and the manager of controller-runtime are library code, so operations of
  the record \<open>platform\<close>; logging is left out but for the level that is set.
\<close>

section \<open>Flags\<close>

datatype flag_value = FString string | FBool bool | FDuration duration | FInt int

text \<open>The variables of \<open>main\<close> that the flags are bound to.\<close>

record flags =
  metricsAddr :: string
  probeAddr :: string
  enableLeaderElection :: bool
  kubeAPIServer :: string
  kubeconfig :: string
  kubeNamespace :: string
  bmcConnectTimeout :: duration
  maxConcurrentReconciles :: int

definition appName :: string where "appName = ''rufio''"

text \<open>The flag set: names and defaults, in the order they are defined.\<close>

definition flag_set :: "(string \<times> flag_value) list" where
  "flag_set =
     [(''metrics-bind-address'', FString '':8080''),
      (''health-probe-bind-address'', FString '':8081''),
      (''leader-elect'', FBool False),
      (''kubernetes'', FString []),
      (''kubeconfig'', FString []),
      (''kube-namespace'', FString []),
      (''bmc-connect-timeout'', FDuration (60 * Second)),
      (''max-concurrent-reconciles'', FInt 1)]"

text \<open>
  The parser writes a value of the flag's type to each variable; these are the variables
  after it, given the values in the order of the flag set.
\<close>

definition string_of_flag :: "flag_value \<Rightarrow> string" where
  "string_of_flag v = (case v of FString s \<Rightarrow> s | _ \<Rightarrow> [])"

definition bool_of_flag :: "flag_value \<Rightarrow> bool" where
  "bool_of_flag v = (case v of FBool b \<Rightarrow> b | _ \<Rightarrow> False)"

definition duration_of_flag :: "flag_value \<Rightarrow> duration" where
  "duration_of_flag v = (case v of FDuration d \<Rightarrow> d | _ \<Rightarrow> 0)"

definition int_of_flag :: "flag_value \<Rightarrow> int" where
  "int_of_flag v = (case v of FInt i \<Rightarrow> i | _ \<Rightarrow> 0)"

definition bind_flags :: "(string \<Rightarrow> flag_value) \<Rightarrow> flags" where
  "bind_flags v = \<lparr>
     metricsAddr = string_of_flag (v ''metrics-bind-address''),
     probeAddr = string_of_flag (v ''health-probe-bind-address''),
     enableLeaderElection = bool_of_flag (v ''leader-elect''),
     kubeAPIServer = string_of_flag (v ''kubernetes''),
     kubeconfig = string_of_flag (v ''kubeconfig''),
     kubeNamespace = string_of_flag (v ''kube-namespace''),
     bmcConnectTimeout = duration_of_flag (v ''bmc-connect-timeout''),
     maxConcurrentReconciles = int_of_flag (v ''max-concurrent-reconciles'')\<rparr>"

section \<open>The scheme, the logger, the client configuration and the manager's options\<close>

text \<open>
  The scheme builder of the API group, to which each file of \<open>api/v1alpha1\<close> registers its
  kinds when the package is initialised.
\<close>

record scheme_builder =
  sb_GroupVersion :: GroupVersion_t
  sb_Kinds :: "string list"

definition Register :: "string list \<Rightarrow> scheme_builder \<Rightarrow> scheme_builder" where
  "Register kinds b = b\<lparr>sb_Kinds := sb_Kinds b @ kinds\<rparr>"

definition SchemeBuilder :: scheme_builder where
  "SchemeBuilder = \<lparr>sb_GroupVersion = GroupVersion, sb_Kinds = []\<rparr>"

definition init_job :: "scheme_builder \<Rightarrow> scheme_builder" where
  "init_job = Register [''Job'', ''JobList'']"

definition init_machine :: "scheme_builder \<Rightarrow> scheme_builder" where
  "init_machine = Register [''Machine'', ''MachineList'']"

definition init_task :: "scheme_builder \<Rightarrow> scheme_builder" where
  "init_task = Register [''Task'', ''TaskList'']"

definition api_scheme :: scheme_builder where
  "api_scheme = init_task (init_machine (init_job SchemeBuilder))"

text \<open>
  A scheme as the kinds it knows, each with its group and version.  Adding the kinds of client-go,
  or those of a builder, is library code, which may fail.
\<close>

type_synonym scheme = "(GroupVersion_t \<times> string) list"

datatype log_level = TraceLevel | InfoLevel

definition defaultLogger :: "string \<Rightarrow> log_level" where
  "defaultLogger level = (if level = ''debug'' then TraceLevel else InfoLevel)"

record client_config =
  cc_ExplicitPath :: string
  cc_Server :: string

definition newClientConfig :: "string \<Rightarrow> string \<Rightarrow> client_config" where
  "newClientConfig apiServer config = \<lparr>cc_ExplicitPath = config, cc_Server = apiServer\<rparr>"

text \<open>The namespaces of the cache: \<open>None\<close> when the option is left at its zero value, for all.\<close>

record manager_options =
  mo_Scheme :: scheme
  mo_MetricsBindAddress :: string
  mo_HealthProbeBindAddress :: string
  mo_LeaderElection :: bool
  mo_LeaderElectionID :: string
  mo_DefaultNamespaces :: "string list option"

definition manager_options :: "scheme \<Rightarrow> flags \<Rightarrow> manager_options" where
  "manager_options sch fl =
     (let opts = \<lparr>mo_Scheme = sch, mo_MetricsBindAddress = metricsAddr fl,
            mo_HealthProbeBindAddress = probeAddr fl, mo_LeaderElection = enableLeaderElection fl,
            mo_LeaderElectionID = ''e74dec1a.tinkerbell.org'', mo_DefaultNamespaces = None\<rparr>
      in if kubeNamespace fl \<noteq> [] then opts\<lparr>mo_DefaultNamespaces := Some [kubeNamespace fl]\<rparr> else opts)"

section \<open>Controllers\<close>

text \<open>
  What a controller is completed with: the kind it is for, the other kinds it watches (with
  the kind of the owner to enqueue, and whether only controlling owners count), the
  number of concurrent reconciles, and its reconciler, which runs on a world \<open>'v\<close>.
\<close>

record 'v controller =
  ct_For :: string
  ct_Watches :: "(string \<times> string \<times> bool) list"
  ct_MaxConcurrentReconciles :: int
  ct_Reconciler :: "NamespacedName \<Rightarrow> ('v, outcome) prog"

type_synonym index_func = "client_object \<Rightarrow> string list"
type_synonym 'v recorder = "Machine \<Rightarrow> string \<Rightarrow> string \<Rightarrow> ('v, unit) prog"

record ('w, 'cfg, 'v) platform =
  plClientGoAddToScheme :: "scheme \<Rightarrow> ('w, goerr + scheme) prog"
  plAddToScheme :: "scheme_builder \<Rightarrow> scheme \<Rightarrow> ('w, goerr + scheme) prog"
  plParse :: "string \<Rightarrow> (string \<times> flag_value) list \<Rightarrow> ('w, nat + (string \<Rightarrow> flag_value)) prog"
  plSetLogger :: "log_level \<Rightarrow> ('w, unit) prog"
  plClientConfig :: "client_config \<Rightarrow> ('w, goerr + 'cfg) prog"
  plNewManager :: "'cfg \<Rightarrow> manager_options \<Rightarrow> ('w, goerr option) prog"
  plGetClient :: "'v kube"
  plGetEventRecorderFor :: "string \<Rightarrow> 'v recorder"
  plIndexField :: "string \<Rightarrow> string \<Rightarrow> index_func \<Rightarrow> ('w, goerr option) prog"
  plComplete :: "'v controller \<Rightarrow> ('w, goerr option) prog"
  plAddHealthzCheck :: "string \<Rightarrow> ('w, goerr option) prog"
  plAddReadyzCheck :: "string \<Rightarrow> ('w, goerr option) prog"
  plStart :: "('w, goerr option) prog"
  plGetControllerOf :: "OwnerReference list \<Rightarrow> OwnerReference option"
  plGroupVersionString :: "GroupVersion_t \<Rightarrow> string"

definition jobOwnerKey :: string where "jobOwnerKey = ''.metadata.controller''"

text \<open>
  A reconciler is what its \<open>Reconcile\<close> does with the client, recorder and client factory it
  was built with; \<open>B\<close> are the operations of the clients that the factory gives.
\<close>

definition NewMachineReconciler ::
  "'v kube \<Rightarrow> 'v recorder \<Rightarrow> ('v, 'c) bmclib \<Rightarrow> ('v, 'c) ClientFunc \<Rightarrow> NamespacedName \<Rightarrow> ('v, outcome) prog" where
  "NewMachineReconciler c rec B bmcClientFactory = machine_Reconcile (c\<lparr>kEventf := rec\<rparr>) B bmcClientFactory"

definition NewJobReconciler :: "'v kube \<Rightarrow> NamespacedName \<Rightarrow> ('v, outcome) prog" where
  "NewJobReconciler c = job_Reconcile c"

definition NewTaskReconciler ::
  "'v kube \<Rightarrow> ('v, 'c) bmclib \<Rightarrow> ('v, 'c) ClientFunc \<Rightarrow> NamespacedName \<Rightarrow> ('v, outcome) prog" where
  "NewTaskReconciler c B bmcClientFactory = task_Reconcile c B bmcClientFactory"

definition machine_SetupWithManager ::
  "('w, 'cfg, 'v) platform \<Rightarrow> (NamespacedName \<Rightarrow> ('v, outcome) prog) \<Rightarrow> int \<Rightarrow> ('w, goerr option) prog" where
  "machine_SetupWithManager P r n = plComplete P
     \<lparr>ct_For = ''Machine'', ct_Watches = [], ct_MaxConcurrentReconciles = n, ct_Reconciler = r\<rparr>"

definition job_SetupWithManager ::
  "('w, 'cfg, 'v) platform \<Rightarrow> (NamespacedName \<Rightarrow> ('v, outcome) prog) \<Rightarrow> int \<Rightarrow> ('w, goerr option) prog" where
  "job_SetupWithManager P r n = do {
     err \<leftarrow> plIndexField P ''Task'' jobOwnerKey
       (TaskOwnerIndexFunc (plGetControllerOf P) (plGroupVersionString P));
     case err of
       Some e \<Rightarrow> State_Monad.return (Some e)
     | None \<Rightarrow> plComplete P
         \<lparr>ct_For = ''Job'', ct_Watches = [(''Task'', ''Job'', True)], ct_MaxConcurrentReconciles = n,
          ct_Reconciler = r\<rparr>
   }"

definition task_SetupWithManager ::
  "('w, 'cfg, 'v) platform \<Rightarrow> (NamespacedName \<Rightarrow> ('v, outcome) prog) \<Rightarrow> int \<Rightarrow> ('w, goerr option) prog" where
  "task_SetupWithManager P r n = plComplete P
     \<lparr>ct_For = ''Task'', ct_Watches = [], ct_MaxConcurrentReconciles = n, ct_Reconciler = r\<rparr>"

section \<open>init and main\<close>

text \<open>
  How the process ends: a panic, \<open>os.Exit\<close> with a code, or the return of \<open>main\<close>.  The parser exits by
  itself on a bad command line.  \<open>setupReconcilers\<close> gives the code it exits with, if it does.
\<close>

datatype process_end = Panicked goerr | Exit nat | Returned

text \<open>
  The package's \<open>init\<close>: the kinds of client-go, then the API group's, are added to the new scheme.
  \<open>utilruntime.Must\<close> panics with the error of either (\<open>Inl\<close>).
\<close>

definition process_scheme :: "('w, 'cfg, 'v) platform \<Rightarrow> ('w, goerr + scheme) prog" where
  "process_scheme P = do {
     r \<leftarrow> plClientGoAddToScheme P [];
     case r of Inl e \<Rightarrow> State_Monad.return (Inl e) | Inr sch \<Rightarrow> plAddToScheme P api_scheme sch
   }"

definition setupReconcilers :: "('w, 'cfg, 'v) platform \<Rightarrow> ('v, 'c) bmclib \<Rightarrow> ('v, 'c) ClientFunc \<Rightarrow> int \<Rightarrow>
    ('w, nat option) prog" where
  "setupReconcilers P B bmcClientFactory n = do {
     err \<leftarrow> machine_SetupWithManager P (NewMachineReconciler (plGetClient P)
       (plGetEventRecorderFor P ''machine-controller'') B bmcClientFactory) n;
     case err of Some _ \<Rightarrow> State_Monad.return (Some 1) | None \<Rightarrow> do {
     err \<leftarrow> job_SetupWithManager P (NewJobReconciler (plGetClient P)) n;
     case err of Some _ \<Rightarrow> State_Monad.return (Some 1) | None \<Rightarrow> do {
     err \<leftarrow> task_SetupWithManager P (NewTaskReconciler (plGetClient P) B bmcClientFactory) n;
     case err of Some _ \<Rightarrow> State_Monad.return (Some 1) | None \<Rightarrow> State_Monad.return None
   }}}"

definition main :: "('w, 'cfg, 'v) platform \<Rightarrow> scheme \<Rightarrow> convlib \<Rightarrow> ('v, 'c) bmcdial \<Rightarrow> ('v, 'c) bmclib \<Rightarrow>
    ('w, process_end) prog" where
  "main P sch L D B = do {
     r \<leftarrow> plParse P appName flag_set;
     case r of Inl code \<Rightarrow> State_Monad.return (Exit code) | Inr values \<Rightarrow> do {
     let fl = bind_flags values;
     plSetLogger P (defaultLogger ''debug'');
     r \<leftarrow> plClientConfig P (newClientConfig (kubeAPIServer fl) (kubeconfig fl));
     case r of Inl _ \<Rightarrow> State_Monad.return (Exit 1) | Inr cfg \<Rightarrow> do {
     err \<leftarrow> plNewManager P cfg (manager_options sch fl);
     case err of Some _ \<Rightarrow> State_Monad.return (Exit 1) | None \<Rightarrow> do {
     failed \<leftarrow> setupReconcilers P B (NewClientFunc L D (bmcConnectTimeout fl)) (maxConcurrentReconciles fl);
     case failed of Some code \<Rightarrow> State_Monad.return (Exit code) | None \<Rightarrow> do {
     err \<leftarrow> plAddHealthzCheck P ''healthz'';
     case err of Some _ \<Rightarrow> State_Monad.return (Exit 1) | None \<Rightarrow> do {
     err \<leftarrow> plAddReadyzCheck P ''readyz'';
     case err of Some _ \<Rightarrow> State_Monad.return (Exit 1) | None \<Rightarrow> do {
     err \<leftarrow> plStart P;
     case err of Some _ \<Rightarrow> State_Monad.return (Exit 1) | None \<Rightarrow> State_Monad.return Returned
   }}}}}}}"

text \<open>The process: \<open>init\<close>, then \<open>main\<close> with the scheme that it has filled.\<close>

definition rufio :: "('w, 'cfg, 'v) platform \<Rightarrow> convlib \<Rightarrow> ('v, 'c) bmcdial \<Rightarrow> ('v, 'c) bmclib \<Rightarrow>
    ('w, process_end) prog" where
  "rufio P L D B = do {
     r \<leftarrow> process_scheme P;
     case r of Inl e \<Rightarrow> State_Monad.return (Panicked e) | Inr sch \<Rightarrow> main P sch L D B
   }"

section \<open>The calls of a start\<close>

text \<open>
  The platform calls that \<open>init\<close> and \<open>main\<close> make, each recorded with whether it failed, against
  arbitrary answers of the platform to what was called before.
\<close>

datatype ('cfg, 'v) startup_call =
    AddClientGo scheme
  | AddApiGroup scheme_builder scheme
  | Parse string "(string \<times> flag_value) list"
  | SetLogger log_level
  | ClientConfig client_config
  | NewManager 'cfg manager_options
  | IndexField string string index_func
  | Complete "'v controller"
  | AddHealthzCheck string
  | AddReadyzCheck string
  | Start

type_synonym ('cfg, 'v) startup_trace = "(('cfg, 'v) startup_call \<times> bool) list"

record ('cfg, 'v) startup_answers =
  saClientGoAddToScheme :: "scheme \<Rightarrow> goerr + scheme"
  saAddToScheme :: "scheme_builder \<Rightarrow> scheme \<Rightarrow> goerr + scheme"
  saParse :: "nat + (string \<Rightarrow> flag_value)"
  saClientConfig :: "client_config \<Rightarrow> goerr + 'cfg"
  saError :: "('cfg, 'v) startup_trace \<Rightarrow> ('cfg, 'v) startup_call \<Rightarrow> goerr option"
  saClient :: "'v kube"
  saRecorder :: "string \<Rightarrow> 'v recorder"
  saGetControllerOf :: "OwnerReference list \<Rightarrow> OwnerReference option"
  saGroupVersionString :: "GroupVersion_t \<Rightarrow> string"

definition rec_sum :: "('cfg, 'v) startup_call \<Rightarrow> 'e + 'a \<Rightarrow> (('cfg, 'v) startup_trace, 'e + 'a) prog" where
  "rec_sum c r = State (\<lambda>h. (r, h @ [(c, case r of Inl _ \<Rightarrow> True | Inr _ \<Rightarrow> False)]))"

definition rec_err :: "('cfg, 'v) startup_answers \<Rightarrow> ('cfg, 'v) startup_call \<Rightarrow>
    (('cfg, 'v) startup_trace, goerr option) prog" where
  "rec_err A c = State (\<lambda>h. (saError A h c, h @ [(c, saError A h c \<noteq> None)]))"

definition rec_platform :: "('cfg, 'v) startup_answers \<Rightarrow> (('cfg, 'v) startup_trace, 'cfg, 'v) platform" where
  "rec_platform A = \<lparr>
     plClientGoAddToScheme = (\<lambda>sch. rec_sum (AddClientGo sch) (saClientGoAddToScheme A sch)),
     plAddToScheme = (\<lambda>b sch. rec_sum (AddApiGroup b sch) (saAddToScheme A b sch)),
     plParse = (\<lambda>name fs. rec_sum (Parse name fs) (saParse A)),
     plSetLogger = (\<lambda>l. State (\<lambda>h. ((), h @ [(SetLogger l, False)]))),
     plClientConfig = (\<lambda>c. rec_sum (ClientConfig c) (saClientConfig A c)),
     plNewManager = (\<lambda>cfg opts. rec_err A (NewManager cfg opts)),
     plGetClient = saClient A,
     plGetEventRecorderFor = saRecorder A,
     plIndexField = (\<lambda>kind field f. rec_err A (IndexField kind field f)),
     plComplete = (\<lambda>c. rec_err A (Complete c)),
     plAddHealthzCheck = (\<lambda>n. rec_err A (AddHealthzCheck n)),
     plAddReadyzCheck = (\<lambda>n. rec_err A (AddReadyzCheck n)),
     plStart = rec_err A Start,
     plGetControllerOf = saGetControllerOf A,
     plGroupVersionString = saGroupVersionString A\<rparr>"

definition startup_run :: "('cfg, 'v) startup_answers \<Rightarrow> convlib \<Rightarrow> ('v, 'c) bmcdial \<Rightarrow> ('v, 'c) bmclib \<Rightarrow>
    process_end \<times> ('cfg, 'v) startup_trace" where
  "startup_run A L D B = run_state (rufio (rec_platform A) L D B) []"

text \<open>
  The calls of a start in which nothing fails: the controllers are those of this
  development, with the client factory and the limits that the flags give.
\<close>

definition machine_controller :: "('cfg, 'v) startup_answers \<Rightarrow> ('v, 'c) bmclib \<Rightarrow> ('v, 'c) ClientFunc \<Rightarrow> int \<Rightarrow> 'v controller" where
  "machine_controller A B F n = \<lparr>ct_For = ''Machine'', ct_Watches = [], ct_MaxConcurrentReconciles = n,
     ct_Reconciler = machine_Reconcile ((saClient A)\<lparr>kEventf := saRecorder A ''machine-controller''\<rparr>) B F\<rparr>"

definition job_controller :: "('cfg, 'v) startup_answers \<Rightarrow> int \<Rightarrow> 'v controller" where
  "job_controller A n = \<lparr>ct_For = ''Job'', ct_Watches = [(''Task'', ''Job'', True)],
     ct_MaxConcurrentReconciles = n, ct_Reconciler = job_Reconcile (saClient A)\<rparr>"

definition task_controller :: "('cfg, 'v) startup_answers \<Rightarrow> ('v, 'c) bmclib \<Rightarrow> ('v, 'c) ClientFunc \<Rightarrow> int \<Rightarrow> 'v controller" where
  "task_controller A B F n = \<lparr>ct_For = ''Task'', ct_Watches = [], ct_MaxConcurrentReconciles = n,
     ct_Reconciler = task_Reconcile (saClient A) B F\<rparr>"

text \<open>The scheme with the kinds of client-go, and the one with those of the API group too.\<close>

definition clientgo_scheme :: "('cfg, 'v) startup_answers \<Rightarrow> scheme" where
  "clientgo_scheme A = (case saClientGoAddToScheme A [] of Inr sch \<Rightarrow> sch | Inl _ \<Rightarrow> [])"

definition full_scheme :: "('cfg, 'v) startup_answers \<Rightarrow> scheme" where
  "full_scheme A = (case saAddToScheme A api_scheme (clientgo_scheme A) of Inr sch \<Rightarrow> sch | Inl _ \<Rightarrow> [])"

definition startup_plan :: "('cfg, 'v) startup_answers \<Rightarrow> convlib \<Rightarrow> ('v, 'c) bmcdial \<Rightarrow> ('v, 'c) bmclib \<Rightarrow>
    flags \<Rightarrow> 'cfg \<Rightarrow> ('cfg, 'v) startup_call list" where
  "startup_plan A L D B fl cfg =
     (let F = NewClientFunc L D (bmcConnectTimeout fl); n = maxConcurrentReconciles fl in
     [AddClientGo [], AddApiGroup api_scheme (clientgo_scheme A),
      Parse appName flag_set, SetLogger TraceLevel,
      ClientConfig \<lparr>cc_ExplicitPath = kubeconfig fl, cc_Server = kubeAPIServer fl\<rparr>,
      NewManager cfg (manager_options (full_scheme A) fl),
      Complete (machine_controller A B F n),
      IndexField ''Task'' jobOwnerKey (TaskOwnerIndexFunc (saGetControllerOf A) (saGroupVersionString A)),
      Complete (job_controller A n),
      Complete (task_controller A B F n),
      AddHealthzCheck ''healthz'', AddReadyzCheck ''readyz'', Start])"

text \<open>
  A sequence of calls up to the first that fails, and how it ends.
\<close>

definition stops_at_failure :: "('cfg, 'v) startup_call list \<Rightarrow> process_end \<Rightarrow> ('cfg, 'v) startup_trace \<Rightarrow> bool" where
  "stops_at_failure plan out tr \<longleftrightarrow> tr \<noteq> [] \<and> map fst tr = take (length tr) plan \<and>
     (\<forall>e \<in> set (butlast tr). \<not> snd e) \<and>
     (if snd (last tr) then out \<noteq> Returned else length tr = length plan \<and> out = Returned)"

lemmas startup_defs = rufio_def process_scheme_def main_def setupReconcilers_def machine_SetupWithManager_def
  job_SetupWithManager_def task_SetupWithManager_def NewMachineReconciler_def NewJobReconciler_def
  NewTaskReconciler_def rec_platform_def newClientConfig_def defaultLogger_def

text \<open>C10. A start of the process makes the calls of the plan in order - fill the scheme, parse the flags,
  configure the client, create the manager, register the Machine controller, the index of Tasks by owner
  before the Job controller that lists by it, the Task controller, the two checks, and
  start the manager - and stops at the first that fails, with a non-return exit: the manager is
  started only when everything before succeeded, and \<open>main\<close> returns exactly when the manager
  ran without error.  The process panics exactly when the scheme cannot be filled, and every
  exit that is not the parser's own is with code 1.\<close>

theorem startup_in_order:
  assumes "startup_run A L D B = (out, tr)"
  shows "(\<exists>cfg. stops_at_failure
      (startup_plan A L D B (case saParse A of Inr v \<Rightarrow> bind_flags v | Inl _ \<Rightarrow> bind_flags (\<lambda>_. FString [])) cfg) out tr) \<and>
    ((\<exists>e. out = Panicked e) \<longleftrightarrow> length tr \<le> 2) \<and>
    (\<forall>code. out = Exit code \<longrightarrow> code = 1 \<or> saParse A = Inl code)"
proof -
  let ?plan = "startup_plan A L D B (case saParse A of Inr v \<Rightarrow> bind_flags v | Inl _ \<Rightarrow> bind_flags (\<lambda>_. FString []))"
  note run = startup_run_def startup_defs rec_sum_def rec_err_def stops_at_failure_def startup_plan_def
    clientgo_scheme_def full_scheme_def machine_controller_def job_controller_def task_controller_def Let_def
  have "\<exists>cfg. case startup_run A L D B of (out, tr) \<Rightarrow> stops_at_failure (?plan cfg) out tr \<and>
      ((\<exists>e. out = Panicked e) \<longleftrightarrow> length tr \<le> 2) \<and> (\<forall>code. out = Exit code \<longrightarrow> code = 1 \<or> saParse A = Inl code)"
  proof (cases "saClientGoAddToScheme A []")
    case (Inl e)
    then show ?thesis by (simp add: run)
  next
    case (Inr sch)
    note clientgo = this
    show ?thesis
    proof (cases "saAddToScheme A api_scheme sch")
      case (Inl e)
      then show ?thesis by (simp add: run clientgo)
    next
      case (Inr sch')
      note group = this
      show ?thesis
      proof (cases "saParse A")
        case (Inl code)
        then show ?thesis by (simp add: run clientgo group)
      next
        case (Inr v)
        note parsed = this
        show ?thesis
        proof (cases "saClientConfig A \<lparr>cc_ExplicitPath = kubeconfig (bind_flags v), cc_Server = kubeAPIServer (bind_flags v)\<rparr>")
          case (Inl e)
          then show ?thesis by (simp add: run clientgo group parsed)
        next
          case (Inr cfg)
          then show ?thesis
            by (intro exI [of _ cfg]) (simp add: run clientgo group parsed split: option.split)
        qed
      qed
    qed
  qed
  then show ?thesis using assms by auto
qed

text \<open>
  A start with the default flags on the in-memory cluster, in which the index cannot be
  registered: the process exits with code 1 after eight calls.
\<close>

definition sample_startup :: "(unit, cluster) startup_answers" where
  "sample_startup = \<lparr>
     saClientGoAddToScheme = Inr,
     saAddToScheme = (\<lambda>b sch. Inr (sch @ map (\<lambda>kind. (sb_GroupVersion b, kind)) (sb_Kinds b))),
     saParse = Inr (\<lambda>name. case map_of flag_set name of Some v \<Rightarrow> v | None \<Rightarrow> FString []),
     saClientConfig = (\<lambda>_. Inr ()),
     saError = (\<lambda>_ c. case c of IndexField _ _ _ \<Rightarrow> Some (Foreign ''conflict'') | _ \<Rightarrow> None),
     saClient = mem_kube (TaskOwnerIndexFunc first_controller gv_string),
     saRecorder = (\<lambda>_ _ _ _. State_Monad.return ()),
     saGetControllerOf = first_controller,
     saGroupVersionString = gv_string\<rparr>"

theorem startup_in_order_witness:
  "fst (startup_run sample_startup mem_convlib mem_dial mem_bmc) = Exit 1 \<and>
    length (snd (startup_run sample_startup mem_convlib mem_dial mem_bmc)) = 8 \<and>
    (\<exists>cfg. stops_at_failure (startup_plan sample_startup mem_convlib mem_dial mem_bmc
        (bind_flags (\<lambda>name. case map_of flag_set name of Some v \<Rightarrow> v | None \<Rightarrow> FString [])) cfg)
      (fst (startup_run sample_startup mem_convlib mem_dial mem_bmc))
      (snd (startup_run sample_startup mem_convlib mem_dial mem_bmc)))"
proof -
  have "fst (startup_run sample_startup mem_convlib mem_dial mem_bmc) = Exit 1 \<and>
      length (snd (startup_run sample_startup mem_convlib mem_dial mem_bmc)) = 8"
    by (simp add: startup_run_def startup_defs rec_sum_def rec_err_def sample_startup_def Let_def)
  moreover have "saParse sample_startup = Inr (\<lambda>name. case map_of flag_set name of Some v \<Rightarrow> v | None \<Rightarrow> FString [])"
    by (simp add: sample_startup_def)
  ultimately show ?thesis
    using startup_in_order [OF prod.collapse [symmetric], of sample_startup mem_convlib mem_dial mem_bmc] by simp
qed

end
