(* ===== verification/Work_Queue.thy ===== *)
theory Work_Queue
  imports System Startup
begin

text \<open>
  What drives the reconcilers once \<open>main\<close> has registered them: a queue of requests with due
  times.  A change of an object wakes the controllers that are for its kind or watch it, as they
  were completed with in \<open>SetupWithManager\<close>; a result with \<open>RequeueAfter\<close> and an error put the
  request back.  The queue belongs to controller-runtime; here it is a step relation on the
  in-memory cluster and the pending requests, which serves any request that is due, in any
  order.
\<close>

section \<open>Requests and what wakes them\<close>

text \<open>A request names the kind a controller is for and an object; an entry has a due time.\<close>

type_synonym request = "string \<times> NamespacedName"
type_synonym entry = "request \<times> time"

text \<open>The objects that a run created or changed: their kind and metadata.\<close>

definition changed :: "string \<Rightarrow> ('a \<Rightarrow> ObjectMeta) \<Rightarrow> (NamespacedName \<times> 'a) list \<Rightarrow>
    (NamespacedName \<times> 'a) list \<Rightarrow> (string \<times> ObjectMeta) list" where
  "changed kind meta xs ys = map (\<lambda>k. (kind, meta (the (map_of ys k))))
     (filter (\<lambda>k. map_of xs k \<noteq> map_of ys k) (map fst ys))"

definition changes :: "'z cluster_scheme \<Rightarrow> 'z cluster_scheme \<Rightarrow> (string \<times> ObjectMeta) list" where
  "changes c c' =
     changed ''Machine'' machine_ObjectMeta (cl_Machines c) (cl_Machines c') @
     changed ''Job'' job_ObjectMeta (cl_Jobs c) (cl_Jobs c') @
     changed ''Task'' task_ObjectMeta (cl_Tasks c) (cl_Tasks c')"

text \<open>
  The requests a changed object gives a controller: one for the object if the controller is
  for its kind, and one for each owner of the watched kind and this API group, of all owners or of the
  controlling one only.
\<close>

definition api_group :: "string \<Rightarrow> string" where
  "api_group = takeWhile (\<lambda>x. x \<noteq> CHR ''/'')"

definition watched_owners ::
  "(OwnerReference list \<Rightarrow> OwnerReference option) \<Rightarrow> string \<times> string \<times> bool \<Rightarrow> string \<times> ObjectMeta \<Rightarrow>
    OwnerReference list" where
  "watched_owners g w e = (case w of (kind, owner, only_controller) \<Rightarrow> case e of (k, m) \<Rightarrow>
     if k = kind
     then filter (\<lambda>ref. or_Kind ref = owner \<and> api_group (or_APIVersion ref) = gv_Group GroupVersion)
       (if only_controller
        then (case g (om_OwnerReferences m) of None \<Rightarrow> [] | Some ref \<Rightarrow> [ref])
        else om_OwnerReferences m)
     else [])"

definition wakes ::
  "(OwnerReference list \<Rightarrow> OwnerReference option) \<Rightarrow> string \<times> ObjectMeta \<Rightarrow> 'v controller \<Rightarrow> request list" where
  "wakes g e ct =
     (if fst e = ct_For ct then [(ct_For ct, object_key (snd e))] else []) @
     concat (map (\<lambda>w. map (\<lambda>ref. (ct_For ct, nn (om_Namespace (snd e)) (or_Name ref))) (watched_owners g w e))
       (ct_Watches ct))"

text \<open>What the result of a run puts back: an error makes the result itself irrelevant.\<close>

definition again :: "duration \<Rightarrow> request \<Rightarrow> time \<Rightarrow> outcome \<Rightarrow> entry list" where
  "again backoff r now out = (case out of
     Return res None \<Rightarrow>
       if res_RequeueAfter res > 0 then [(r, now + res_RequeueAfter res)]
       else if res_Requeue res then [(r, now + backoff)] else []
   | _ \<Rightarrow> [(r, now + backoff)])"

section \<open>Steps\<close>

text \<open>
  Between two steps others may write to the Machines' status and record events, as the Machine
  controller does, but not change what a Machine specifies.
\<close>

definition observed :: "'z cluster_scheme \<Rightarrow> 'z cluster_scheme \<Rightarrow> bool" where
  "observed c c1 \<longleftrightarrow> c1 = c\<lparr>cl_Machines := cl_Machines c1, cl_Events := cl_Events c1\<rparr> \<and>
     (\<forall>k. map_option machine_Spec (map_of (cl_Machines c1) k) =
       map_option machine_Spec (map_of (cl_Machines c) k))"

text \<open>
  A step takes an entry that is due at some instant \<open>t\<close>, lets its controller reconcile, and
  adds the requests that this gives.  No entry is served later than \<open>lag\<close> after it is due.
\<close>

inductive work ::
  "'z cluster_scheme controller list \<Rightarrow> (OwnerReference list \<Rightarrow> OwnerReference option) \<Rightarrow>
    duration \<Rightarrow> duration \<Rightarrow> 'z cluster_scheme \<times> entry list \<Rightarrow> 'z cluster_scheme \<times> entry list \<Rightarrow> bool"
  for ctrls g backoff lag where
  serve: "ct \<in> set ctrls \<Longrightarrow> observed c c1 \<Longrightarrow> due \<le> t \<Longrightarrow> cl_Now c \<le> t \<Longrightarrow>
    (\<forall>e \<in> set (Q @ ((ct_For ct, key), due) # Q'). t \<le> snd e + lag) \<Longrightarrow>
    run_state (ct_Reconciler ct key) (c1\<lparr>cl_Now := t\<rparr>) = (out, c') \<Longrightarrow>
    work ctrls g backoff lag (c, Q @ ((ct_For ct, key), due) # Q')
      (c', Q @ Q' @ again backoff (ct_For ct, key) t out @
        concat (map (\<lambda>e. map (\<lambda>r. (r, t)) (concat (map (wakes g e) ctrls))) (changes c1 c')))"

inductive_cases work_cases: "work ctrls g backoff lag (c, es) s'"

text \<open>
  \<open>inevitable step P s\<close>: every sequence of steps from \<open>s\<close> comes to a state that satisfies \<open>P\<close>,
  and is not stuck before.
\<close>

inductive inevitable :: "('s \<Rightarrow> 's \<Rightarrow> bool) \<Rightarrow> ('s \<Rightarrow> bool) \<Rightarrow> 's \<Rightarrow> bool" for step P where
  reached: "P s \<Longrightarrow> inevitable step P s"
| ahead: "step s s1 \<Longrightarrow> (\<And>s'. step s s' \<Longrightarrow> inevitable step P s') \<Longrightarrow> inevitable step P s"

lemma inevitable_run:
  assumes "inevitable step P s" and "f 0 = s" and "\<And>i. step (f i) (f (Suc i))"
  shows "\<exists>i. P (f i)"
  using assms
proof (induction arbitrary: f rule: inevitable.induct)
  case (reached s)
  then show ?case by blast
next
  case (ahead s s1)
  have "step s (f 1)" using ahead.prems by (metis One_nat_def)
  from ahead.IH [OF this, of "\<lambda>i. f (Suc i)"] ahead.prems(2) show ?case by (simp, blast)
qed

text \<open>
  The proof rule: states with a rank, in which a step is possible and every step reaches the
  goal or lowers the rank.
\<close>

lemma inevitable_rank:
  assumes "wf r"
    and live: "\<And>x s. I x s \<Longrightarrow> \<exists>s'. step s s'"
    and down: "\<And>x s s'. I x s \<Longrightarrow> step s s' \<Longrightarrow> P s' \<or> (\<exists>y. I y s' \<and> (y, x) \<in> r)"
  shows "I x s \<Longrightarrow> inevitable step P s"
  using assms(1)
proof (induction x arbitrary: s rule: wf_induct_rule)
  case (less x)
  obtain s1 where "step s s1" using live [OF less.prems] by blast
  then show ?case
  proof (rule inevitable.ahead)
    show "inevitable step P s'" if "step s s'" for s'
      using down [OF less.prems that] less.IH by (auto intro: inevitable.reached)
  qed
qed

section \<open>What a run changes\<close>

lemma in_keys: "k \<in> fst ` set xs \<longleftrightarrow> map_of xs k \<noteq> None"
  by (simp add: map_of_eq_None_iff)

lemma set_changed:
  "set (changed kind meta xs ys) =
    {(kind, meta y) | k y. map_of ys k = Some y \<and> map_of xs k \<noteq> Some y}"
proof (rule set_eqI)
  fix e
  have "(k \<in> fst ` set ys \<and> map_of xs k \<noteq> map_of ys k \<and> e = (kind, meta (the (map_of ys k)))) =
      (\<exists>y. map_of ys k = Some y \<and> map_of xs k \<noteq> Some y \<and> e = (kind, meta y))" for k
    unfolding in_keys by (cases "map_of ys k") auto
  then have "(\<exists>k. k \<in> fst ` set ys \<and> map_of xs k \<noteq> map_of ys k \<and> e = (kind, meta (the (map_of ys k)))) =
      (\<exists>k y. map_of ys k = Some y \<and> map_of xs k \<noteq> Some y \<and> e = (kind, meta y))"
    by (rule ex_cong1)
  moreover have "e \<in> set (changed kind meta xs ys) \<longleftrightarrow>
      (\<exists>k. k \<in> fst ` set ys \<and> map_of xs k \<noteq> map_of ys k \<and> e = (kind, meta (the (map_of ys k))))"
    by (auto simp: changed_def)
  ultimately show "e \<in> set (changed kind meta xs ys) \<longleftrightarrow>
      e \<in> {(kind, meta y) | k y. map_of ys k = Some y \<and> map_of xs k \<noteq> Some y}"
    by blast
qed

lemma changed_same [simp]: "changed kind meta xs xs = []"
  by (simp add: changed_def)

lemma changes_same [simp]:
  "cl_Machines c = cl_Machines c' \<Longrightarrow> cl_Jobs c = cl_Jobs c' \<Longrightarrow> cl_Tasks c = cl_Tasks c' \<Longrightarrow> changes c c' = []"
  by (simp add: changes_def)

lemma changed_put:
  assumes "map_of xs k = Some x"
  shows "set (changed kind meta xs (put k y xs)) = (if x = y then {} else {(kind, meta y)})"
proof -
  have "(map_of (put k y xs) k' = Some z \<and> map_of xs k' \<noteq> Some z) = (k' = k \<and> z = y \<and> x \<noteq> y)" for k' z
    using assms by (auto simp: map_of_put)
  then show ?thesis by (simp add: set_changed)
qed

lemma changed_append:
  assumes "map_of xs k = None"
  shows "set (changed kind meta xs (xs @ [(k, y)])) = {(kind, meta y)}"
proof -
  have "(map_of (xs @ [(k, y)]) k' = Some z \<and> map_of xs k' \<noteq> Some z) = (k' = k \<and> z = y)" for k' z
    using assms by (auto simp: map_add_def split: option.splits if_splits)
  then show ?thesis by (simp add: set_changed)
qed

text \<open>A waiting queue can always be served: its earliest entry, when it is due or now.\<close>

lemma earliest_entry:
  assumes "es \<noteq> []"
  obtains Q r due Q' where "es = Q @ (r, due) # Q'" and "\<And>e. e \<in> set es \<Longrightarrow> due \<le> (snd e :: time)"
proof -
  define e where "e = arg_min_list snd es"
  have "e \<in> set es" and "\<And>x. x \<in> set es \<Longrightarrow> snd e \<le> snd x"
    using arg_min_list_in [OF assms, of snd] f_arg_min_list_f [OF assms, of snd] by (auto simp: e_def)
  then show thesis using that split_list [of e es] by (metis prod.collapse)
qed

end
