(* ===== verification/Job_Stages.thy ===== *)
theory Job_Stages
  imports Work_Queue
begin

text \<open>
  The stages of a Job on the in-memory cluster with slow BMCs, when nothing fails: how many of its
  Tasks are Completed, and whether the next one is to be created, to be started or to be checked.  For
  each stage, what a reconciliation of the Job and of each Task does to the cluster, as equations on its
  run, what it changes, and the stage after it.
\<close>

section \<open>Programs that only read Secrets\<close>

definition secrets_only :: "('z cluster_scheme, 'a) prog \<Rightarrow> bool" where
  "secrets_only m \<longleftrightarrow> (\<exists>f. \<forall>c. run_state m c = (f (cl_Secrets c), c))"

named_theorems reads "programs that only read Secrets"

lemma secrets_only_return [reads]: "secrets_only (State_Monad.return a)"
  unfolding secrets_only_def by (rule exI [of _ "\<lambda>_. a"]) simp

lemma secrets_only_bind [reads]:
  assumes "secrets_only m" and "\<And>a. secrets_only (f a)"
  shows "secrets_only (State_Monad.bind m f)"
proof -
  obtain h where h: "run_state m c = (h (cl_Secrets c), c)" for c
    using assms(1) by (auto simp: secrets_only_def)
  have "\<forall>a. \<exists>q. \<forall>c. run_state (f a) c = (q (cl_Secrets c), c)"
    using assms(2) by (simp add: secrets_only_def)
  then obtain q where q: "run_state (f a) c = (q a (cl_Secrets c), c)" for a c by metis
  show ?thesis
    unfolding secrets_only_def by (rule exI [of _ "\<lambda>s. q (h s) s"]) (simp add: h q)
qed

lemma secrets_only_get [reads]: "secrets_only (kGetSecret (mem_kube index) k)"
  unfolding secrets_only_def
  by (rule exI [of _ "\<lambda>s. lookup_or_404 s k"]) (simp add: mem_kube_def)

lemma secrets_only_sum [reads]:
  "(\<And>e. secrets_only (f e)) \<Longrightarrow> (\<And>v. secrets_only (g v)) \<Longrightarrow>
    secrets_only (case x of Inl e \<Rightarrow> f e | Inr v \<Rightarrow> g v)"
  by (cases x) simp_all

lemma secrets_only_refs [reads]: "secrets_only (retrieve_refs (mem_kube index) k ss sec)"
  by (induction ss arbitrary: sec) (auto intro!: reads)

lemma secrets_only_algorithms [reads]: "secrets_only (retrieve_algorithms (mem_kube index) kvs sec)"
  by (induction kvs arbitrary: sec) (auto intro!: reads)

lemma secrets_only_credentials: "secrets_only (connection_credentials (mem_kube index) conn pre)"
  unfolding connection_credentials_def Let_def resolveAuthSecretRef_def retrieveHMACSecrets_def
  by (auto intro!: reads split: option.split)

section \<open>The process and its world\<close>

abbreviation job_index :: "client_object \<Rightarrow> string list" where
  "job_index \<equiv> TaskOwnerIndexFunc first_controller gv_string"

abbreviation world :: "slow_cluster kube" where
  "world \<equiv> mem_kube job_index"

abbreviation dialled :: "duration \<Rightarrow> (slow_cluster, string) ClientFunc" where
  "dialled timeout \<equiv> NewClientFunc mem_convlib mem_dial timeout"

text \<open>The credentials of a connection are in the cluster.\<close>

definition has_credentials :: "Connection \<Rightarrow> slow_cluster \<Rightarrow> bool" where
  "has_credentials conn c \<longleftrightarrow> (\<forall>pre. \<not> isl (fst (run_state (connection_credentials world conn pre) c)))"

lemma secrets_only_cong:
  "secrets_only m \<Longrightarrow> cl_Secrets c = cl_Secrets c' \<Longrightarrow> fst (run_state m c) = fst (run_state m c')"
  by (auto simp: secrets_only_def)

lemma has_credentials_cong: "cl_Secrets c = cl_Secrets c' \<Longrightarrow> has_credentials conn c = has_credentials conn c'"
  unfolding has_credentials_def by (simp add: secrets_only_cong [OF secrets_only_credentials, of c c'])

lemma run_credentials:
  assumes "has_credentials conn c"
  shows "\<exists>user pass opts. run_state (connection_credentials world conn pre) c = (Inr (user, pass, opts), c)"
proof -
  obtain f where f: "run_state (connection_credentials world conn pre) c' = (f (cl_Secrets c'), c')" for c' :: slow_cluster
    using secrets_only_credentials [of job_index conn pre] by (auto simp: secrets_only_def)
  then show ?thesis using assms by (cases "f (cl_Secrets c)") (auto simp: has_credentials_def dest: spec [of _ pre])
qed

lemma run_dialled: "run_state (dialled timeout host user pass opts) c = (Inr host, c)"
  by (simp add: NewClientFunc_def mem_dial_def)

section \<open>The Tasks of a Job\<close>

definition status_completed :: "TaskStatus \<Rightarrow> bool" where
  "status_completed s \<longleftrightarrow> is_completed (blank_task\<lparr>task_Status := s\<rparr>)"

lemma is_completed_status: "is_completed t = status_completed (task_Status t)"
  unfolding status_completed_def by (rule fun_cong [OF fun_cong [OF tq.has_cong]]) simp

definition job_task :: "Job \<Rightarrow> Connection \<Rightarrow> nat \<Rightarrow> TaskStatus \<Rightarrow> Task" where
  "job_task j conn i s = (task_for j i (jsp_Tasks (job_Spec j) ! i) conn)\<lparr>task_Status := s\<rparr>"

text \<open>The Tasks of a Job with the given statuses, in the order they were created.\<close>

definition job_tasks :: "Job \<Rightarrow> Connection \<Rightarrow> TaskStatus list \<Rightarrow> (NamespacedName \<times> Task) list" where
  "job_tasks j conn ss = map (\<lambda>i. (slot_key j i, job_task j conn i (ss ! i))) [0..<length ss]"

lemma job_tasks_Nil [simp]: "job_tasks j conn [] = []"
  by (simp add: job_tasks_def)

lemma job_tasks_snoc [simp]:
  "job_tasks j conn (ss @ [s]) = job_tasks j conn ss @ [(slot_key j (length ss), job_task j conn (length ss) s)]"
  by (simp add: job_tasks_def nth_append)

text \<open>The metadata of the Job's Tasks.\<close>

definition slot_meta :: "Job \<Rightarrow> nat \<Rightarrow> ObjectMeta" where
  "slot_meta j i = task_ObjectMeta (task_for j i empty_Action empty_Connection)"

lemma slot_meta_simps [simp]:
  "object_key (slot_meta j i) = slot_key j i" "om_Namespace (slot_meta j i) = job_Namespace j"
  "om_DeletionTimestamp (slot_meta j i) = None"
  by (simp_all add: slot_meta_def task_for_def slot_key_def object_key_def)

lemma job_task_simps [simp]:
  "task_ObjectMeta (job_task j conn i s) = slot_meta j i" "task_Status (job_task j conn i s) = s"
  "task_action (job_task j conn i s) = jsp_Tasks (job_Spec j) ! i" "task_conn (job_task j conn i s) = conn"
  "(job_task j conn i s)\<lparr>task_Status := s'\<rparr> = job_task j conn i s'"
  by (simp_all add: job_task_def slot_meta_def task_for_def)

lemma map_of_job_tasks:
  "map_of (job_tasks j conn ss) (slot_key j i) = (if i < length ss then Some (job_task j conn i (ss ! i)) else None)"
  by (induction ss rule: rev_induct)
    (auto simp: map_add_def nth_append slot_key_inject less_Suc_eq split: option.split)

lemma put_job_tasks: "put (slot_key j (length ss)) t (job_tasks j conn (ss @ [s])) =
    job_tasks j conn ss @ [(slot_key j (length ss), t)]"
  by (auto simp: put_def job_tasks_def slot_key_inject nth_append)

lemma scan_tasks_completed:
  "list_all is_completed ts \<Longrightarrow> scan_tasks k (ts @ us) = scan_tasks (k + length ts) us"
  by (induction ts arbitrary: k) auto

section \<open>The stages of a Job\<close>

text \<open>The state of the Task after the Completed ones.\<close>

datatype stage = Absent | Created | Started time

fun stage_statuses :: "stage \<Rightarrow> TaskStatus list" where
  "stage_statuses Absent = []"
| "stage_statuses Created = [empty_TaskStatus]"
| "stage_statuses (Started s) = [empty_TaskStatus\<lparr>ts_StartTime := Some s\<rparr>]"

text \<open>
  A Job that can finish: as submitted, not deleted, and without a boot device action that names
  no device.  The other Tasks of the cluster are no Tasks of the Job.
\<close>

definition feasible :: "Job \<Rightarrow> (NamespacedName \<times> Task) list \<Rightarrow> bool" where
  "feasible j others \<longleftrightarrow> submitted gv_string j \<and> \<not> job_deleted j \<and>
     (\<forall>a \<in> set (jsp_Tasks (job_Spec j)). \<forall>b. act_OneTimeBootDeviceAction a = Some b \<longrightarrow> bda_Devices b \<noteq> []) \<and>
     (\<forall>x \<in> set others. (\<forall>i. fst x \<noteq> slot_key j i) \<and>
        \<not> (job_Name j \<in> set (job_index (TaskObject (snd x))) \<and> task_Namespace (snd x) = job_Namespace j))"

text \<open>The power change that a started Task asked for: it is the one to wait for, and comes in time.\<close>

definition power_coming :: "duration \<Rightarrow> Action \<Rightarrow> string \<Rightarrow> time \<Rightarrow> slow_cluster \<Rightarrow> bool" where
  "power_coming latest a host s c \<longleftrightarrow> (\<forall>p. act_PowerAction a = Some p \<longrightarrow>
     (\<exists>q t. cl_Change c host = Some (q, t) \<and> t \<le> s + latest \<and> power_check p q = zero_Result))"

definition at_stage :: "Job \<Rightarrow> Connection \<Rightarrow> (NamespacedName \<times> Task) list \<Rightarrow> duration \<Rightarrow>
    nat \<Rightarrow> stage \<Rightarrow> slow_cluster \<Rightarrow> bool" where
  "at_stage j conn others latest k st c \<longleftrightarrow>
     (\<exists>cur. map_of (cl_Jobs c) (job_key j) = Some cur \<and> same_job cur j \<and> \<not> job_finished cur) \<and>
     (\<exists>ss. length ss = k \<and> list_all status_completed ss \<and>
        cl_Tasks c = others @ job_tasks j conn (ss @ stage_statuses st)) \<and>
     (\<exists>m. map_of (cl_Machines c) (machine_key j) = Some m \<and> msp_Connection (machine_Spec m) = conn) \<and>
     has_credentials conn c \<and> 0 < cl_Now c \<and> k \<le> wanted_tasks j \<and> (st \<noteq> Absent \<longrightarrow> k < wanted_tasks j) \<and>
     (\<forall>s. st = Started s \<longrightarrow> 0 < s \<and> s \<le> cl_Now c \<and>
        power_coming latest (jsp_Tasks (job_Spec j) ! k) (cn_Host conn) s c)"

text \<open>The end: the Job is Completed, and so is a Task for each of its actions.\<close>

definition job_done :: "Job \<Rightarrow> slow_cluster \<Rightarrow> bool" where
  "job_done j c \<longleftrightarrow>
     (\<exists>cur. map_of (cl_Jobs c) (job_key j) = Some cur \<and> same_job cur j \<and> job_phase cur = Succeeded) \<and>
     (\<forall>i < wanted_tasks j. \<exists>t. map_of (cl_Tasks c) (slot_key j i) = Some t \<and> is_completed t \<and>
        task_action t = jsp_Tasks (job_Spec j) ! i)"

lemma others_keys: "feasible j others \<Longrightarrow> map_of others (slot_key j i) = None"
  by (force simp: feasible_def map_of_eq_None_iff)

lemma slot_lookup:
  assumes "feasible j others" and "cl_Tasks c = others @ job_tasks j conn ss"
  shows "map_of (cl_Tasks c) (slot_key j i) = (if i < length ss then Some (job_task j conn i (ss ! i)) else None)"
  by (auto simp: assms(2) others_keys [OF assms(1)] map_of_job_tasks map_add_def split: option.split)

lemma put_others: "feasible j others \<Longrightarrow> put (slot_key j i) t (others @ xs) = others @ put (slot_key j i) t xs"
  by (force simp: put_def feasible_def intro!: map_idI)

lemma index_job_task: "feasible j others \<Longrightarrow> job_index (TaskObject (job_task j conn i s)) = [job_Name j]"
  using owner_index_task_for [OF first_controller_docs, of gv_string j i]
    index_meta [of "job_task j conn i s" "task_for j i (jsp_Tasks (job_Spec j) ! i) conn"]
  by (simp add: feasible_def submitted_def job_task_def)

lemma list_job_tasks:
  assumes "feasible j others"
  shows "filter (\<lambda>t. job_Name j \<in> set (job_index (TaskObject t)) \<and> task_Namespace t = job_Namespace j)
    (map snd (others @ job_tasks j conn ss)) = map snd (job_tasks j conn ss)"
proof -
  have "filter (\<lambda>t. job_Name j \<in> set (job_index (TaskObject t)) \<and> task_Namespace t = job_Namespace j) (map snd others) = []"
    using assms by (auto simp: feasible_def filter_empty_conv)
  moreover have "filter (\<lambda>t. job_Name j \<in> set (job_index (TaskObject t)) \<and> task_Namespace t = job_Namespace j)
      (map snd (job_tasks j conn ss)) = map snd (job_tasks j conn ss)"
    by (auto simp: filter_id_conv job_tasks_def index_job_task [OF assms])
  ultimately show ?thesis by simp
qed

section \<open>What a reconciliation of the Job does\<close>

lemma run_world:
  "run_state (kGetJob world k) c = (lookup_or_404 (cl_Jobs c) k, c)"
  "run_state (kGetTask world k) c = (lookup_or_404 (cl_Tasks c) k, c)"
  "run_state (kGetMachine world k) c = (lookup_or_404 (cl_Machines c) k, c)"
  "run_state (kNow world) c = (cl_Now c, c)"
  "kIsNotFound world e = (ae_Reason e = ''NotFound'')"
  by (simp_all add: mem_kube_def)

lemma run_world_create: "map_of (cl_Tasks c) (task_key t) = None \<Longrightarrow>
    run_state (kCreateTask world t) c = (None, c\<lparr>cl_Tasks := cl_Tasks c @ [(task_key t, t)]\<rparr>)"
  by (simp add: mem_kube_def)

lemma run_world_patch_job: "map_of (cl_Jobs c) (job_key t) = Some b \<Longrightarrow> same_job t b \<Longrightarrow>
    run_state (kPatchJob world t b) c = (None, c\<lparr>cl_Jobs := put (job_key t) t (cl_Jobs c)\<rparr>)"
  by (cases t, cases b) (simp add: mem_kube_def lookup_or_404_def Let_def same_job_def)

lemma run_world_patch_task:
  "map_of (cl_Tasks c) (task_key t) = Some b \<Longrightarrow> b\<lparr>task_Status := task_Status t\<rparr> = t \<Longrightarrow>
    run_state (kPatchTask world t b) c = (None, c\<lparr>cl_Tasks := put (task_key t) t (cl_Tasks c)\<rparr>)"
  by (simp add: mem_kube_def lookup_or_404_def Let_def)

lemma lookup_found: "map_of xs k = Some x \<Longrightarrow> lookup_or_404 xs k = Inr x"
  by (simp add: lookup_or_404_def)

lemma run_mark_running: "run_state (job_mark_running world cur) c = (running_job cur (cl_Now c), c)"
  by (simp add: job_mark_running_def running_job_def run_world)

lemma job_reconciles:
  assumes feas: "feasible j others" and st: "at_stage j conn others latest k st c"
  obtains cur m ss where "map_of (cl_Jobs c) (job_key j) = Some cur" and "same_job cur j" and "\<not> job_finished cur"
    and "cl_Tasks c = others @ job_tasks j conn (ss @ stage_statuses st)"
    and "length ss = k" and "list_all status_completed ss" and "msp_Connection (machine_Spec m) = conn"
    and "run_state (job_Reconcile world (job_key j)) c = run_state (job_advance world (running_job cur (cl_Now c)) cur m
      (map snd (job_tasks j conn (ss @ stage_statuses st)))) c"
proof -
  obtain cur ss m where cur: "map_of (cl_Jobs c) (job_key j) = Some cur" "same_job cur j" "\<not> job_finished cur"
    and ss: "length ss = k" "list_all status_completed ss" "cl_Tasks c = others @ job_tasks j conn (ss @ stage_statuses st)"
    and m: "map_of (cl_Machines c) (machine_key j) = Some m" "msp_Connection (machine_Spec m) = conn"
    using st by (auto simp: at_stage_def)
  have same: "job_Name cur = job_Name j" "job_Namespace cur = job_Namespace j" "job_Spec cur = job_Spec j"
    "\<not> job_deleted cur"
    using cur(2) feas by (auto simp: same_job_def feasible_def job_deleted_def)
  have list: "run_state (kListTasks world (job_Name j) (job_Namespace j)) c =
      (Inr (map snd (job_tasks j conn (ss @ stage_statuses st))), c)"
    using list_job_tasks [OF feas, of conn] by (simp add: mem_kube_def ss(3))
  have "run_state (job_Reconcile world (job_key j)) c = run_state (job_advance world (running_job cur (cl_Now c)) cur m
      (map snd (job_tasks j conn (ss @ stage_statuses st)))) c"
    using cur(3) same(4)
    by (simp add: job_Reconcile_def job_doReconcile_def run_world lookup_found [OF cur(1)] run_mark_running same
        getMachine_def lookup_found [OF m(1) [unfolded machine_key_def]] list job_deleted_def job_finished_def Let_def)
  from that [OF cur ss(3,1,2) m(2) this] show thesis .
qed

lemma no_conditions: "ts_Conditions s = [] \<Longrightarrow> \<not> Task_HasCondition (job_task j conn i s) ty v"
  by (simp add: Task_HasCondition_def)

lemma scan_stage:
  assumes "length ss = k" and "list_all status_completed ss"
  shows "scan_tasks 0 (map snd (job_tasks j conn (ss @ stage_statuses st))) =
    (if st = Absent then ScanDone k else ScanPending)"
proof -
  have all: "list_all is_completed (map snd (job_tasks j conn ss))"
    using assms(2) by (auto simp: job_tasks_def list_all_iff is_completed_status)
  have len: "length (map snd (job_tasks j conn ss)) = k"
    using assms(1) by (simp add: job_tasks_def)
  show ?thesis
    using scan_tasks_completed [OF all, of 0 "[]"]
    by (cases st) (simp_all add: scan_tasks_completed [OF all] len [simplified] no_conditions empty_TaskStatus_def)
qed

lemma job_waits:
  assumes "feasible j others" and "at_stage j conn others latest k st c" and "st \<noteq> Absent"
  shows "run_state (job_Reconcile world (job_key j)) c = (Return zero_Result None, c)"
  by (rule job_reconciles [OF assms(1,2)]) (simp add: job_advance_def scan_stage assms(3))

lemma run_job_complete:
  assumes "map_of (cl_Jobs c) (job_key b) = Some b" and "same_job jb b"
  shows "run_state (job_complete world jb b) c =
    (Return zero_Result None, c\<lparr>cl_Jobs := put (job_key b) (completed_job jb (cl_Now c)) (cl_Jobs c)\<rparr>)"
proof -
  have same: "same_job (completed_job jb (cl_Now c)) b"
    using assms(2) by (simp add: same_job_def)
  have "run_state (kPatchJob world (completed_job jb (cl_Now c)) b) c =
      (None, c\<lparr>cl_Jobs := put (job_key b) (completed_job jb (cl_Now c)) (cl_Jobs c)\<rparr>)"
    using run_world_patch_job [of c "completed_job jb (cl_Now c)" b] same assms(1) by (simp add: same_job_def)
  then show ?thesis
    by (simp add: job_complete_def job_patchStatus_def run_world completed_job_def)
qed

lemma run_job_next_task:
  assumes "map_of (cl_Jobs c) (job_key b) = Some b" and "same_job jb b" and "k < wanted_tasks b"
    and "map_of (cl_Tasks c) (slot_key b k) = None"
  shows "run_state (job_next_task world jb b k conn) c = (Return zero_Result None,
    c\<lparr>cl_Tasks := cl_Tasks c @ [(slot_key b k, job_task b conn k empty_TaskStatus)],
      cl_Jobs := put (job_key b) jb (cl_Jobs c)\<rparr>)"
proof -
  have t: "task_for jb k (jsp_Tasks (job_Spec jb) ! k) conn = job_task b conn k empty_TaskStatus"
    using assms(2) by (simp add: same_job_def job_task_def task_for_def FormatTaskName_def)
  have "job_key jb = job_key b" "wanted_tasks jb = wanted_tasks b"
    using assms(2) by (simp_all add: same_job_def)
  then show ?thesis
    using assms run_world_create [of c "job_task b conn k empty_TaskStatus"]
      run_world_patch_job [of "c\<lparr>cl_Tasks := cl_Tasks c @ [(slot_key b k, job_task b conn k empty_TaskStatus)]\<rparr>" jb b]
    by (simp add: job_next_task_def createTaskWithOwner_def t job_patchStatus_def Let_def)
qed

text \<open>The objects that the Job's progress changes.\<close>

definition own_change :: "Job \<Rightarrow> string \<times> ObjectMeta \<Rightarrow> bool" where
  "own_change j e \<longleftrightarrow> e = (''Job'', job_ObjectMeta j) \<or> (\<exists>i. e = (''Task'', slot_meta j i))"

lemma job_launches:
  assumes feas: "feasible j others" and st: "at_stage j conn others latest k Absent c" and "k < wanted_tasks j"
  shows "\<exists>c'. run_state (job_Reconcile world (job_key j)) c = (Return zero_Result None, c') \<and>
    at_stage j conn others latest k Created c' \<and> cl_Now c' = cl_Now c \<and>
    list_all (own_change j) (changes c c') \<and> (''Task'', slot_meta j k) \<in> set (changes c c')"
proof (rule job_reconciles [OF feas st])
  fix cur m ss
  assume cur: "map_of (cl_Jobs c) (job_key j) = Some cur" "same_job cur j" "\<not> job_finished cur"
    and ss: "cl_Tasks c = others @ job_tasks j conn (ss @ stage_statuses Absent)" "length ss = k"
      "list_all status_completed ss" and m: "msp_Connection (machine_Spec m) = conn"
    and run: "run_state (job_Reconcile world (job_key j)) c = run_state (job_advance world (running_job cur (cl_Now c)) cur m
      (map snd (job_tasks j conn (ss @ stage_statuses Absent)))) c"
  let ?job = "running_job cur (cl_Now c)" and ?t = "job_task j conn k empty_TaskStatus"
  let ?c = "c\<lparr>cl_Tasks := cl_Tasks c @ [(slot_key j k, ?t)], cl_Jobs := put (job_key j) ?job (cl_Jobs c)\<rparr>"
  have free: "map_of (cl_Tasks c) (slot_key j k) = None"
    using slot_lookup [OF feas ss(1)] ss(2) by simp
  have key: "job_key cur = job_key j" "slot_key cur k = slot_key j k" "wanted_tasks cur = wanted_tasks j"
    "job_task cur conn k = job_task j conn k"
    using cur(2) by (auto simp: same_job_def slot_key_def FormatTaskName_def job_task_def task_for_def)
  have "run_state (job_Reconcile world (job_key j)) c = (Return zero_Result None, ?c)"
    using run_job_next_task [of c cur ?job k conn] cur(1) assms(3) free
    by (simp add: run job_advance_def scan_stage [OF ss(2,3), of _ _ Absent, simplified] key m same_job_def cur(2) [unfolded same_job_def])
  moreover have "at_stage j conn others latest k Created ?c"
    using st cur assms(3) ss
    by (auto simp: at_stage_def map_of_put running_job_conditions job_finished_def same_job_def
        cong: has_credentials_cong)
  moreover have "set (changes c ?c) \<subseteq> {(''Job'', job_ObjectMeta j), (''Task'', slot_meta j k)}"
    "(''Task'', slot_meta j k) \<in> set (changes c ?c)"
    using changed_put [OF cur(1)] changed_append [OF free] cur(2) by (auto simp: changes_def same_job_def)
  ultimately show ?thesis
    by (intro exI [of _ ?c]) (auto simp: own_change_def list_all_iff)
qed

lemma job_finishes:
  assumes feas: "feasible j others" and st: "at_stage j conn others latest (wanted_tasks j) Absent c"
  shows "\<exists>c'. run_state (job_Reconcile world (job_key j)) c = (Return zero_Result None, c') \<and> job_done j c'"
proof (rule job_reconciles [OF feas st])
  fix cur m ss
  assume cur: "map_of (cl_Jobs c) (job_key j) = Some cur" "same_job cur j" "\<not> job_finished cur"
    and ss: "cl_Tasks c = others @ job_tasks j conn (ss @ stage_statuses Absent)" "length ss = wanted_tasks j"
      "list_all status_completed ss"
    and run: "run_state (job_Reconcile world (job_key j)) c = run_state (job_advance world (running_job cur (cl_Now c)) cur m
      (map snd (job_tasks j conn (ss @ stage_statuses Absent)))) c"
  let ?job = "completed_job (running_job cur (cl_Now c)) (cl_Now c)"
  let ?c = "c\<lparr>cl_Jobs := put (job_key j) ?job (cl_Jobs c)\<rparr>"
  have key: "job_key cur = job_key j" "wanted_tasks cur = wanted_tasks j"
    using cur(2) by (auto simp: same_job_def)
  have "run_state (job_Reconcile world (job_key j)) c = (Return zero_Result None, ?c)"
    using run_job_complete [of c cur "running_job cur (cl_Now c)"] cur(1)
    by (simp add: run job_advance_def scan_stage [OF ss(2,3), of _ _ Absent, simplified] key same_job_def)
  moreover have "job_done j ?c"
    using cur ss slot_lookup [OF feas ss(1)]
    by (auto simp: job_done_def map_of_put same_job_def is_completed_status list_all_length)
  ultimately show ?thesis by blast
qed

section \<open>What a reconciliation of a Task does\<close>

lemma task_absent:
  assumes "map_of (cl_Tasks c) k = None"
  shows "run_state (task_Reconcile world B F k) c = (Return zero_Result None, c)"
  by (simp add: task_Reconcile_def run_world lookup_or_404_def assms)

lemma task_finished_run:
  assumes "map_of (cl_Tasks c) k = Some t" and "is_completed t"
  shows "run_state (task_Reconcile world B F k) c = (Return zero_Result None, c)"
  by (simp add: task_Reconcile_def run_world lookup_found [OF assms(1)] assms(2))

lemma task_idles:
  assumes feas: "feasible j others" and st: "at_stage j conn others latest k st c" and "st = Absent \<or> i \<noteq> k"
  shows "run_state (task_Reconcile world B F (slot_key j i)) c = (Return zero_Result None, c)"
proof -
  obtain ss where ss: "length ss = k" "list_all status_completed ss"
    "cl_Tasks c = others @ job_tasks j conn (ss @ stage_statuses st)"
    using st by (auto simp: at_stage_def)
  have "map_of (cl_Tasks c) (slot_key j i) = (if i < k then Some (job_task j conn i (ss ! i)) else None)"
    using assms(3) ss(1) by (cases st) (auto simp: slot_lookup [OF feas ss(3)] nth_append)
  then show ?thesis
    using ss(1,2) by (cases "i < k") (auto simp: task_absent is_completed_status list_all_length intro: task_finished_run)
qed

lemma task_reconciles:
  assumes feas: "feasible j others" and st: "at_stage j conn others latest k st c" and "st \<noteq> Absent"
    and t: "t = job_task j conn k (hd (stage_statuses st))"
  obtains ss where "map_of (cl_Tasks c) (slot_key j k) = Some t"
    and "length ss = k" and "list_all status_completed ss" and "cl_Tasks c = others @ job_tasks j conn (ss @ [task_Status t])"
    and "\<And>B timeout. run_state (task_Reconcile world B (dialled timeout) (slot_key j k)) c =
      run_state (deferred_close B (cn_Host conn) (task_body world B t t (cn_Host conn))) c"
proof -
  obtain ss where ss: "length ss = k" "list_all status_completed ss"
    "cl_Tasks c = others @ job_tasks j conn (ss @ stage_statuses st)"
    using st by (auto simp: at_stage_def)
  have one: "stage_statuses st = [task_Status t]" and no: "ts_Conditions (task_Status t) = []"
    using assms(3) t by (cases st; simp add: empty_TaskStatus_def)+
  have t': "t = job_task j conn k (task_Status t)" using t one by simp
  have got: "map_of (cl_Tasks c) (slot_key j k) = Some t"
    using ss(1) t' one by (simp add: slot_lookup [OF feas ss(3)] nth_append)
  have cred: "has_credentials conn c" using st by (simp add: at_stage_def)
  have "run_state (task_Reconcile world B (dialled timeout) (slot_key j k)) c =
      run_state (deferred_close B (cn_Host conn) (task_body world B t t (cn_Host conn))) c" for B timeout
  proof -
    obtain user pass opts where "run_state (connection_credentials world conn
        (''resolving connection secret for task '' @ task_Namespace t @ ''/'' @ task_Name t @ '': '')) c =
      (Inr (user, pass, opts), c)"
      using run_credentials [OF cred] by blast
    then show ?thesis
      using t no_conditions [OF no, of j conn k] t'
      by (simp add: task_Reconcile_def run_world lookup_found [OF got] Time_IsZero_def task_doReconcile_def run_dialled)
  qed
  with that got ss one show thesis by metis
qed

lemma power_check_cases: "power_check p raw = zero_Result \<or> power_check p raw = requeue_after powerActionRequeueAfter"
  by (simp add: power_check_def Let_def)

lemma power_check_reached: "power_check p (mem_power p x) = zero_Result"
  by (auto simp: power_check_def mem_power_def go_consts toPowerState_def ToLower_def lower_char_def)

lemma run_close: "run_state (deferred_close (slow_bmc latency) h body) c = run_state body c"
  by (simp add: deferred_close_def slow_bmc_def case_prod_beta)

definition power_requested :: "(string \<Rightarrow> string \<Rightarrow> time \<Rightarrow> duration) \<Rightarrow> Action \<Rightarrow> string \<Rightarrow> slow_cluster \<Rightarrow> slow_cluster" where
  "power_requested latency a h c = (case act_PowerAction a of None \<Rightarrow> c | Some p \<Rightarrow>
     c\<lparr>cl_Power := (cl_Power c)(h := power_at c h),
       cl_Change := (cl_Change c)(h \<mapsto> (mem_power p (power_at c h), cl_Now c + latency h p (cl_Now c)))\<rparr>)"

lemma power_requested_simps [simp]:
  "cl_Jobs (power_requested latency a h c) = cl_Jobs c" "cl_Tasks (power_requested latency a h c) = cl_Tasks c"
  "cl_Machines (power_requested latency a h c) = cl_Machines c" "cl_Secrets (power_requested latency a h c) = cl_Secrets c"
  "cl_Now (power_requested latency a h c) = cl_Now c"
  by (simp_all add: power_requested_def split: option.split)

lemma run_runTask:
  assumes "\<And>b. act_OneTimeBootDeviceAction a = Some b \<Longrightarrow> bda_Devices b \<noteq> []"
  shows "run_state (runTask (slow_bmc latency) a h) c = (StepOk, power_requested latency a h c)"
  using assms
  by (auto simp: runTask_def and_then_def run_power_def run_boot_device_def run_virtual_media_def slow_bmc_def
      power_requested_def neq_Nil_conv split: option.split)

lemma power_requested_coming:
  assumes "\<And>p t. latency h p t \<le> latest"
  shows "power_coming latest a h (cl_Now c) (power_requested latency a h c)"
  using assms by (auto simp: power_coming_def power_requested_def power_check_reached)

text \<open>The Task at hand gets another status; the Job's other Tasks stay.\<close>

definition with_task :: "Job \<Rightarrow> nat \<Rightarrow> Task \<Rightarrow> slow_cluster \<Rightarrow> slow_cluster" where
  "with_task j k t c = c\<lparr>cl_Tasks := put (slot_key j k) t (cl_Tasks c)\<rparr>"

lemma with_task_simps [simp]:
  "cl_Jobs (with_task j k t c) = cl_Jobs c" "cl_Machines (with_task j k t c) = cl_Machines c"
  "cl_Secrets (with_task j k t c) = cl_Secrets c" "cl_Now (with_task j k t c) = cl_Now c"
  "power_coming latest a h s (with_task j k t c) = power_coming latest a h s c"
  by (simp_all add: with_task_def power_coming_def)

lemma with_task_tasks:
  assumes "feasible j others" and "cl_Tasks c = others @ job_tasks j conn (ss @ [s])" and "length ss = k"
  shows "cl_Tasks (with_task j k (job_task j conn k s') c) = others @ job_tasks j conn (ss @ [s'])"
  using assms(3) put_job_tasks [of j ss] by (auto simp: with_task_def assms(2) put_others [OF assms(1)])

lemma changes_with_task:
  assumes "map_of (cl_Tasks c) (slot_key j k) = Some (job_task j conn k s)" and "s \<noteq> s'"
    and "cl_Jobs d = cl_Jobs c" "cl_Machines d = cl_Machines c" "cl_Tasks d = cl_Tasks c"
  shows "set (changes c (with_task j k (job_task j conn k s') d)) = {(''Task'', slot_meta j k)}"
proof -
  have "job_task j conn k s \<noteq> job_task j conn k s'"
    using assms(2) by (metis job_task_simps(2))
  then show ?thesis
    using changed_put [OF assms(1), of "''Task''" task_ObjectMeta "job_task j conn k s'"] assms(3-5)
    by (simp add: changes_def with_task_def)
qed

lemma run_patch_task:
  assumes "map_of (cl_Tasks c) (slot_key j k) = Some (job_task j conn k s)"
  shows "run_state (task_patchStatus world (job_task j conn k s') (job_task j conn k s)) c =
    (None, with_task j k (job_task j conn k s') c)"
  using run_world_patch_task [of c "job_task j conn k s'" "job_task j conn k s"] assms
  by (simp add: task_patchStatus_def with_task_def)

lemma run_task_complete:
  assumes "map_of (cl_Tasks c) (slot_key j k) = Some (job_task j conn k s)" and "ts_Conditions s = []"
  shows "\<exists>s'. status_completed s' \<and> run_state (task_complete world (job_task j conn k s) (job_task j conn k s) r) c =
    (Return r None, with_task j k (job_task j conn k s') c)"
proof -
  let ?t = "mark_completed (job_task j conn k s) (cl_Now c)"
  have t: "?t = job_task j conn k (task_Status ?t)"
    by (simp add: mark_completed_def task_set_completion_def Task_SetCondition_slot job_task_def)
  have "is_completed ?t"
    by (simp add: mark_completed_def has_condition_updates)
  then have fin: "status_completed (task_Status ?t)"
    by (simp add: is_completed_status)
  have "run_state (task_complete world (job_task j conn k s) (job_task j conn k s) r) c =
      (Return r None, with_task j k (job_task j conn k (task_Status ?t)) c)"
    using run_patch_task [OF assms(1), of "task_Status ?t"] unfolding t [symmetric]
    by (simp add: task_complete_def run_world mark_completed_def)
  with fin show ?thesis by blast
qed

lemma empty_status [simp]: "ts_StartTime empty_TaskStatus = None" "ts_Conditions empty_TaskStatus = []"
  by (simp_all add: empty_TaskStatus_def)

lemma task_starts:
  assumes feas: "feasible j others" and st: "at_stage j conn others latest k Created c"
    and late: "\<And>h p t. latency h p t \<le> latest"
  shows "\<exists>c'. run_state (task_Reconcile world (slow_bmc latency) (dialled timeout) (slot_key j k)) c =
      (Return zero_Result None, c') \<and> at_stage j conn others latest k (Started (cl_Now c)) c' \<and> cl_Now c' = cl_Now c \<and>
    list_all (own_change j) (changes c c') \<and> (''Task'', slot_meta j k) \<in> set (changes c c')"
proof (rule task_reconciles [OF feas st _ refl])
  let ?s = "empty_TaskStatus\<lparr>ts_StartTime := Some (cl_Now c)\<rparr>" and ?a = "jsp_Tasks (job_Spec j) ! k"
  let ?d = "power_requested latency ?a (cn_Host conn) c"
  fix ss
  assume got: "map_of (cl_Tasks c) (slot_key j k) = Some (job_task j conn k (hd (stage_statuses Created)))"
    and ss: "length ss = k" "list_all status_completed ss"
      "cl_Tasks c = others @ job_tasks j conn (ss @ [task_Status (job_task j conn k (hd (stage_statuses Created)))])"
    and run: "\<And>B timeout. run_state (task_Reconcile world B (dialled timeout) (slot_key j k)) c =
      run_state (deferred_close B (cn_Host conn) (task_body world B (job_task j conn k (hd (stage_statuses Created)))
        (job_task j conn k (hd (stage_statuses Created))) (cn_Host conn))) c"
  have k: "k < wanted_tasks j" using st by (simp add: at_stage_def)
  have boots: "bda_Devices b \<noteq> []" if "act_OneTimeBootDeviceAction ?a = Some b" for b
    using feas that nth_mem [OF k] by (auto simp: feasible_def)
  have start: "task_set_start (job_task j conn k empty_TaskStatus) (cl_Now c) = job_task j conn k ?s"
    by (simp add: task_set_start_def)
  have "run_state (task_Reconcile world (slow_bmc latency) (dialled timeout) (slot_key j k)) c =
      (Return zero_Result None, with_task j k (job_task j conn k ?s) ?d)"
    using run_patch_task [of ?d j k conn empty_TaskStatus ?s] got
    by (simp add: run run_close task_body_def task_start_def run_world start run_runTask [OF boots] Let_def)
  moreover have "at_stage j conn others latest k (Started (cl_Now c)) (with_task j k (job_task j conn k ?s) ?d)"
    using st ss with_task_tasks [OF feas, of ?d conn ss empty_TaskStatus k ?s] power_requested_coming [OF late]
    by (auto simp: at_stage_def cong: has_credentials_cong)
  moreover have "set (changes c (with_task j k (job_task j conn k ?s) ?d)) = {(''Task'', slot_meta j k)}"
    using got by (intro changes_with_task [of c j k conn empty_TaskStatus]) (simp_all add: empty_TaskStatus_def)
  ultimately show ?thesis
    by (intro exI [of _ "with_task j k (job_task j conn k ?s) ?d"]) (auto simp: own_change_def list_all_iff)
qed simp

text \<open>The check of a started Task: its action took effect, or the change is still to come.\<close>

lemma run_checkTaskStatus:
  assumes "power_coming latest a h s c"
  shows "\<exists>r. run_state (checkTaskStatus (slow_bmc latency) a h) c = ((r, None), c) \<and>
    (r = zero_Result \<or> r = requeue_after powerActionRequeueAfter \<and> cl_Now c < s + latest)"
proof (cases "act_PowerAction a")
  case None
  then show ?thesis by (simp add: checkTaskStatus_def)
next
  case (Some p)
  with assms obtain q t where q: "cl_Change c h = Some (q, t)" "t \<le> s + latest" "power_check p q = zero_Result"
    by (auto simp: power_coming_def)
  have "run_state (checkTaskStatus (slow_bmc latency) a h) c = ((power_check p (power_at c h), None), c)"
    using Some by (simp add: checkTaskStatus_def slow_bmc_def)
  then show ?thesis
    using q power_check_cases [of p "cl_Power c h"] by (auto simp: power_at_def)
qed

text \<open>A run on a started Task in time: what the check gives decides between completion and another poll.\<close>

lemma run_started_task:
  assumes feas: "feasible j others" and st: "at_stage j conn others latest k (Started s) c"
    and "cl_Now c < s + task_timeout"
  obtains ss where "map_of (cl_Tasks c) (slot_key j k) = Some (job_task j conn k (empty_TaskStatus\<lparr>ts_StartTime := Some s\<rparr>))"
    and "length ss = k" and "list_all status_completed ss"
    and "cl_Tasks c = others @ job_tasks j conn (ss @ [empty_TaskStatus\<lparr>ts_StartTime := Some s\<rparr>])"
    and "\<And>r. run_state (checkTaskStatus (slow_bmc latency) (jsp_Tasks (job_Spec j) ! k) (cn_Host conn)) c = ((r, None), c) \<Longrightarrow>
      run_state (task_Reconcile world (slow_bmc latency) (dialled timeout) (slot_key j k)) c =
      run_state (if \<not> Result_IsZero r then State_Monad.return (Return r None)
        else task_complete world (job_task j conn k (empty_TaskStatus\<lparr>ts_StartTime := Some s\<rparr>))
          (job_task j conn k (empty_TaskStatus\<lparr>ts_StartTime := Some s\<rparr>)) r) c"
proof (rule task_reconciles [OF feas st _ refl])
  let ?t = "job_task j conn k (hd (stage_statuses (Started s)))" and ?a = "jsp_Tasks (job_Spec j) ! k"
  fix ss
  assume got: "map_of (cl_Tasks c) (slot_key j k) = Some ?t"
    and ss: "length ss = k" "list_all status_completed ss" "cl_Tasks c = others @ job_tasks j conn (ss @ [task_Status ?t])"
    and run: "\<And>B timeout. run_state (task_Reconcile world B (dialled timeout) (slot_key j k)) c =
      run_state (deferred_close B (cn_Host conn) (task_body world B ?t ?t (cn_Host conn))) c"
  have s: "0 < s" using st by (simp add: at_stage_def)
  have intime: "\<not> task_timeout \<le> Since (cl_Now c) s"
    using assms(3) by (simp add: Since_ge task_timeout_def go_consts max_duration_def)
  have "run_state (task_Reconcile world (slow_bmc latency) (dialled timeout) (slot_key j k)) c =
      run_state (if \<not> Result_IsZero r then State_Monad.return (Return r None) else task_complete world ?t ?t r) c"
    if "run_state (checkTaskStatus (slow_bmc latency) ?a (cn_Host conn)) c = ((r, None), c)" for r
    using s intime that by (simp add: run run_close task_body_def task_check_def run_world Let_def)
  from that [OF _ ss(1,2)] got ss(3) this show thesis by simp
qed simp

lemma task_checks:
  assumes feas: "feasible j others" and st: "at_stage j conn others latest k (Started s) c"
    and "cl_Now c < s + task_timeout"
  shows "(\<exists>c'. run_state (task_Reconcile world (slow_bmc latency) (dialled timeout) (slot_key j k)) c =
      (Return zero_Result None, c') \<and> at_stage j conn others latest (Suc k) Absent c' \<and> cl_Now c' = cl_Now c \<and>
      list_all (own_change j) (changes c c') \<and> (''Task'', slot_meta j k) \<in> set (changes c c')) \<or>
    (run_state (task_Reconcile world (slow_bmc latency) (dialled timeout) (slot_key j k)) c =
      (Return (requeue_after powerActionRequeueAfter) None, c) \<and> cl_Now c < s + latest)"
proof (rule run_started_task [OF assms, of latency timeout])
  let ?s = "empty_TaskStatus\<lparr>ts_StartTime := Some s\<rparr>" and ?a = "jsp_Tasks (job_Spec j) ! k"
  let ?run = "run_state (task_Reconcile world (slow_bmc latency) (dialled timeout) (slot_key j k)) c"
  fix ss
  assume got: "map_of (cl_Tasks c) (slot_key j k) = Some (job_task j conn k ?s)" and ss: "length ss = k"
    "list_all status_completed ss" "cl_Tasks c = others @ job_tasks j conn (ss @ [?s])"
    and run: "\<And>r. run_state (checkTaskStatus (slow_bmc latency) ?a (cn_Host conn)) c = ((r, None), c) \<Longrightarrow>
      ?run = run_state (if \<not> Result_IsZero r then State_Monad.return (Return r None)
        else task_complete world (job_task j conn k ?s) (job_task j conn k ?s) r) c"
  have "power_coming latest ?a (cn_Host conn) s c" using st by (simp add: at_stage_def)
  from run_checkTaskStatus [OF this] obtain r
    where r: "run_state (checkTaskStatus (slow_bmc latency) ?a (cn_Host conn)) c = ((r, None), c)"
    and cases: "r = zero_Result \<or> r = requeue_after powerActionRequeueAfter \<and> cl_Now c < s + latest" by blast
  show ?thesis
  proof (cases "r = zero_Result")
    case False
    then show ?thesis using run [OF r] cases by (simp add: Result_IsZero_def)
  next
    case True
    obtain s' where s': "status_completed s'" and fin: "run_state (task_complete world (job_task j conn k ?s)
        (job_task j conn k ?s) r) c = (Return r None, with_task j k (job_task j conn k s') c)"
      using run_task_complete [OF got] by auto
    let ?c = "with_task j k (job_task j conn k s') c"
    have "\<exists>ss'. length ss' = Suc k \<and> list_all status_completed ss' \<and> cl_Tasks ?c = others @ job_tasks j conn ss'"
      using ss s' with_task_tasks [OF feas ss(3,1), of s'] by (intro exI [of _ "ss @ [s']"]) simp
    then have "at_stage j conn others latest (Suc k) Absent ?c"
      using st by (auto simp: at_stage_def cong: has_credentials_cong)
    moreover have "set (changes c ?c) = {(''Task'', slot_meta j k)}"
      using s' by (intro changes_with_task [OF got]) (auto simp: status_completed_def Task_HasCondition_def)
    moreover have "?run = (Return zero_Result None, ?c)" using run [OF r] True fin by (simp add: Result_IsZero_def)
    ultimately show ?thesis by (auto simp: own_change_def list_all_iff)
  qed
qed

end
