(* ===== verification/Job_Progress.thy ===== *)
theory Job_Progress
  imports Job_Stages
begin

text \<open>
  Every Job finishes, when nothing fails: the Job and the Task controller as \<open>main\<close> registers
  them, driven by the queue of \<open>Work_Queue\<close> on the in-memory cluster with slow BMCs, bring a
  submitted Job to completion in every order of service.  The proof follows the stages of
  \<open>Job_Stages\<close>: the request that takes the Job on is always queued, and each step goes to
  the next stage or shortens the queue.
\<close>

section \<open>The two controllers on the queue\<close>

text \<open>
  A start of the process with the given flag values, on the in-memory cluster with slow
  BMCs, and the controllers that it registers for Jobs and Tasks.
\<close>

definition world_answers :: "(string \<Rightarrow> flag_value) \<Rightarrow> (unit, slow_cluster) startup_answers" where
  "world_answers vals = \<lparr>
     saClientGoAddToScheme = Inr,
     saAddToScheme = (\<lambda>b sch. Inr (sch @ map (\<lambda>kind. (sb_GroupVersion b, kind)) (sb_Kinds b))),
     saParse = Inr vals,
     saClientConfig = (\<lambda>_. Inr ()),
     saError = (\<lambda>_ _. None),
     saClient = world,
     saRecorder = (\<lambda>_. kEventf world),
     saGetControllerOf = first_controller,
     saGroupVersionString = gv_string\<rparr>"

definition registered :: "('cfg, 'v) startup_trace \<Rightarrow> 'v controller list" where
  "registered tr = concat (map (\<lambda>e. case fst e of Complete ct \<Rightarrow> [ct] | _ \<Rightarrow> []) tr)"

definition workers :: "(string \<Rightarrow> string \<Rightarrow> time \<Rightarrow> duration) \<Rightarrow> (string \<Rightarrow> flag_value) \<Rightarrow> slow_cluster controller list" where
  "workers latency vals = filter (\<lambda>ct. ct_For ct = ''Job'' \<or> ct_For ct = ''Task'')
     (registered (snd (startup_run (world_answers vals) mem_convlib mem_dial (slow_bmc latency))))"

lemma workers_registered: "workers latency vals =
    [\<lparr>ct_For = ''Job'', ct_Watches = [(''Task'', ''Job'', True)],
       ct_MaxConcurrentReconciles = maxConcurrentReconciles (bind_flags vals), ct_Reconciler = job_Reconcile world\<rparr>,
     \<lparr>ct_For = ''Task'', ct_Watches = [], ct_MaxConcurrentReconciles = maxConcurrentReconciles (bind_flags vals),
       ct_Reconciler = task_Reconcile world (slow_bmc latency) (dialled (bmcConnectTimeout (bind_flags vals)))\<rparr>]"
  by (simp add: workers_def registered_def startup_run_def startup_defs rec_sum_def rec_err_def world_answers_def Let_def)

definition own_request :: "Job \<Rightarrow> request \<Rightarrow> bool" where
  "own_request j r \<longleftrightarrow> r = (''Job'', job_key j) \<or> (\<exists>i. r = (''Task'', slot_key j i))"

abbreviation woken :: "slow_cluster controller list \<Rightarrow> string \<times> ObjectMeta \<Rightarrow> request list" where
  "woken ctrls e \<equiv> concat (map (wakes first_controller e) ctrls)"

lemma woken_job: "woken (workers latency vals) (''Job'', job_ObjectMeta j) = [(''Job'', job_key j)]"
  by (simp add: workers_registered wakes_def watched_owners_def)

lemma woken_task:
  assumes "submitted gv_string j"
  shows "woken (workers latency vals) (''Task'', slot_meta j i) = [(''Job'', job_key j), (''Task'', slot_key j i)]"
proof -
  have group: "api_group (gv_string GroupVersion) = gv_Group GroupVersion" by code_simp
  have "om_OwnerReferences (slot_meta j i) = [\<lparr>or_APIVersion = gv_string GroupVersion, or_Kind = ''Job'',
      or_Name = job_Name j, or_UID = om_UID (job_ObjectMeta j), or_Controller = Some True\<rparr>]"
    using assms by (simp add: slot_meta_def task_for_def submitted_def)
  then show ?thesis
    by (simp add: workers_registered wakes_def watched_owners_def first_controller_def
        group object_key_def [of "job_ObjectMeta j"])
qed

lemma woken_own:
  assumes "submitted gv_string j" and "own_change j e"
  shows "list_all (own_request j) (woken (workers latency vals) e)"
  using assms by (auto simp: own_change_def woken_job woken_task own_request_def)

text \<open>The request that takes a Job on from its stage, and what one run does to the stage.\<close>

fun wanted_request :: "Job \<Rightarrow> nat \<Rightarrow> stage \<Rightarrow> request" where
  "wanted_request j k Absent = (''Job'', job_key j)"
| "wanted_request j k Created = (''Task'', slot_key j k)"
| "wanted_request j k (Started s) = (''Task'', slot_key j k)"

fun next_stage :: "nat \<Rightarrow> stage \<Rightarrow> time \<Rightarrow> nat \<times> stage" where
  "next_stage k Absent t = (k, Created)"
| "next_stage k Created t = (k, Started t)"
| "next_stage k (Started s) t = (Suc k, Absent)"

inductive effect :: "Job \<Rightarrow> Connection \<Rightarrow> (NamespacedName \<times> Task) list \<Rightarrow> duration \<Rightarrow> nat \<Rightarrow> stage \<Rightarrow> request \<Rightarrow>
    slow_cluster \<Rightarrow> outcome \<Rightarrow> slow_cluster \<Rightarrow> bool"
  for j conn others latest k st r c where
  finish: "job_done j c' \<Longrightarrow> effect j conn others latest k st r c out c'"
| idle: "r \<noteq> wanted_request j k st \<Longrightarrow> effect j conn others latest k st r c (Return zero_Result None) c"
| poll: "st = Started s \<Longrightarrow> r = (''Task'', slot_key j k) \<Longrightarrow> cl_Now c < s + latest \<Longrightarrow>
    effect j conn others latest k st r c (Return (requeue_after powerActionRequeueAfter) None) c"
| advance: "next_stage k st (cl_Now c) = (k', st') \<Longrightarrow> at_stage j conn others latest k' st' c' \<Longrightarrow> cl_Now c' = cl_Now c \<Longrightarrow>
    list_all (own_change j) (changes c c') \<Longrightarrow> (''Task'', slot_meta j k) \<in> set (changes c c') \<Longrightarrow>
    effect j conn others latest k st r c (Return zero_Result None) c'"

lemma job_effect:
  assumes feas: "feasible j others" and st: "at_stage j conn others latest k st c"
    and run: "run_state (job_Reconcile world (job_key j)) c = (out, c')"
  shows "effect j conn others latest k st (''Job'', job_key j) c out c'"
proof (cases "st = Absent")
  case False
  have "out = Return zero_Result None" "c' = c"
    using job_waits [OF feas st False] run by simp_all
  moreover have "(''Job'', job_key j) \<noteq> wanted_request j k st" using False by (cases st) auto
  ultimately show ?thesis by (auto intro: effect.idle)
next
  case Absent: True
  show ?thesis
  proof (cases "k < wanted_tasks j")
    case True
    from job_launches [OF feas st [unfolded Absent] this] run show ?thesis
      by (auto simp: Absent intro: effect.advance)
  next
    case False
    then have "k = wanted_tasks j" using st by (simp add: at_stage_def)
    from job_finishes [OF feas st [unfolded Absent this]] run show ?thesis by (auto intro: effect.finish)
  qed
qed

lemma task_effect:
  assumes feas: "feasible j others" and st: "at_stage j conn others latest k st c"
    and late: "\<And>h p t. latency h p t \<le> latest" and time: "\<And>s. st = Started s \<Longrightarrow> cl_Now c < s + task_timeout"
    and run: "run_state (task_Reconcile world (slow_bmc latency) (dialled timeout) (slot_key j i)) c = (out, c')"
  shows "effect j conn others latest k st (''Task'', slot_key j i) c out c'"
proof (cases "st = Absent \<or> i \<noteq> k")
  case True
  have "out = Return zero_Result None" "c' = c"
    using run by (simp_all add: task_idles [OF feas st True])
  moreover have "(''Task'', slot_key j i) \<noteq> wanted_request j k st"
    using True by (cases st) (auto simp: slot_key_inject)
  ultimately show ?thesis by (auto intro: effect.idle)
next
  case False
  then have i: "i = k" by simp
  show ?thesis
  proof (cases st)
    case Absent
    with False show ?thesis by simp
  next
    case Created
    from task_starts [where latency = latency and timeout = timeout, OF feas st [unfolded Created] late] run
    show ?thesis by (auto simp: i Created intro: effect.advance)
  next
    case (Started s)
    from task_checks [where latency = latency and timeout = timeout, OF feas st [unfolded Started] time [OF Started]] run
    show ?thesis by (auto simp: i Started intro: effect.advance effect.poll)
  qed
qed

lemma work_effect:
  assumes "feasible j others" and "at_stage j conn others latest k st c"
    and "\<And>h p t. latency h p t \<le> latest" and "\<And>s. st = Started s \<Longrightarrow> cl_Now c < s + task_timeout"
    and own: "own_request j (ct_For ct, key)" and ct: "ct \<in> set (workers latency vals)"
    and run: "run_state (ct_Reconciler ct key) c = (out, c')"
  shows "effect j conn others latest k st (ct_For ct, key) c out c'"
proof (cases "ct_For ct = ''Job''")
  case True
  then have "key = job_key j" "ct_Reconciler ct = job_Reconcile world"
    using own ct by (auto simp: own_request_def workers_registered)
  then show ?thesis using job_effect [OF assms(1,2)] run True by simp
next
  case False
  then obtain i where "ct_For ct = ''Task''" "key = slot_key j i"
    "ct_Reconciler ct = task_Reconcile world (slow_bmc latency) (dialled (bmcConnectTimeout (bind_flags vals)))"
    using own ct by (auto simp: own_request_def workers_registered)
  then show ?thesis using task_effect [OF assms(1-4)] run by simp
qed

section \<open>No wake-up is lost, and the queue runs down\<close>

text \<open>
  Between steps: the entries are requests of this Job, none is overdue, and the one that takes
  the Job on is among them, for a started Task no later than one poll after the latest power change.
\<close>

definition on_track :: "Job \<Rightarrow> Connection \<Rightarrow> (NamespacedName \<times> Task) list \<Rightarrow> duration \<Rightarrow> duration \<Rightarrow>
    nat \<Rightarrow> stage \<Rightarrow> slow_cluster \<Rightarrow> entry list \<Rightarrow> bool" where
  "on_track j conn others latest lag k st c es \<longleftrightarrow> at_stage j conn others latest k st c \<and>
     list_all (\<lambda>e. own_request j (fst e) \<and> cl_Now c \<le> snd e + lag) es \<and>
     (\<exists>due. (wanted_request j k st, due) \<in> set es \<and>
        (\<forall>s. st = Started s \<longrightarrow> due \<le> s + latest + powerActionRequeueAfter))"

text \<open>
  The rank of a configuration: the stages to go, then a weight of the entries that counts for each
  the polls that can follow it.
\<close>

definition stages_left :: "Job \<Rightarrow> nat \<Rightarrow> stage \<Rightarrow> nat" where
  "stages_left j k st = 3 * (wanted_tasks j - k) + (case st of Absent \<Rightarrow> 2 | Created \<Rightarrow> 1 | Started s \<Rightarrow> 0)"

definition poll_horizon :: "duration \<Rightarrow> stage \<Rightarrow> time" where
  "poll_horizon latest st = (case st of Started s \<Rightarrow> s + latest + powerActionRequeueAfter | _ \<Rightarrow> 0)"

definition polls :: "time \<Rightarrow> entry list \<Rightarrow> nat" where
  "polls horizon es = sum_list (map (\<lambda>e. Suc (nat ((horizon - snd e) div powerActionRequeueAfter))) es)"

lemma polls_simps [simp]:
  "polls h [] = 0" "polls h (e # es) = Suc (nat ((h - snd e) div powerActionRequeueAfter)) + polls h es"
  "polls h (es @ es') = polls h es + polls h es'"
  by (simp_all add: polls_def)

lemma poll_lowers:
  assumes "due \<le> t" and "t < h - powerActionRequeueAfter"
  shows "nat ((h - (t + powerActionRequeueAfter)) div powerActionRequeueAfter) < nat ((h - due) div powerActionRequeueAfter)"
proof -
  let ?p = powerActionRequeueAfter
  have pos: "0 < ?p" by (simp add: go_consts)
  have "(h - (t + ?p)) div ?p + 1 = (h - t) div ?p"
    using pos by (metis diff_diff_eq div_add_self2 diff_add_cancel add.commute less_irrefl)
  also have "\<dots> \<le> (h - due) div ?p"
    using assms(1) pos by (intro zdiv_mono1) auto
  finally have "(h - (t + ?p)) div ?p < (h - due) div ?p" by simp
  moreover have "0 \<le> (h - (t + ?p)) div ?p"
    using assms(2) pos by (intro div_int_pos_iff [THEN iffD2]) auto
  ultimately show ?thesis by simp
qed

lemma at_stage_observed:
  assumes "at_stage j conn others latest k st c" and "observed c c1" and "cl_Now c \<le> t"
  shows "at_stage j conn others latest k st (c1\<lparr>cl_Now := t\<rparr>)"
proof -
  have c1: "c1 = c\<lparr>cl_Machines := cl_Machines c1, cl_Events := cl_Events c1\<rparr>"
    and m: "map_option machine_Spec (map_of (cl_Machines c1) k) = map_option machine_Spec (map_of (cl_Machines c) k)" for k
    using assms(2) by (auto simp: observed_def)
  have keep: "cl_Jobs c1 = cl_Jobs c" "cl_Tasks c1 = cl_Tasks c" "cl_Secrets c1 = cl_Secrets c" "cl_Change c1 = cl_Change c"
    by (subst c1; simp)+
  have "has_credentials conn (c1\<lparr>cl_Now := t\<rparr>) = has_credentials conn c"
    by (rule has_credentials_cong) (simp add: keep)
  then show ?thesis
    using assms(1,3) m [of "machine_key j"] by (fastforce simp: at_stage_def keep power_coming_def)
qed

text \<open>The bounds: power changes come and requests are served early enough to check a Task in time.\<close>

definition timely :: "(string \<Rightarrow> string \<Rightarrow> time \<Rightarrow> duration) \<Rightarrow> duration \<Rightarrow> duration \<Rightarrow> bool" where
  "timely latency latest lag \<longleftrightarrow> (\<forall>h p t. latency h p t \<le> latest) \<and> 0 \<le> latest \<and> 0 \<le> lag \<and>
     latest + powerActionRequeueAfter + lag < task_timeout"

lemma on_track_live:
  assumes "on_track j conn others latest lag k st c es" and "0 \<le> lag"
  shows "\<exists>s'. work (workers latency vals) first_controller backoff lag (c, es) s'"
proof -
  have entries: "own_request j (fst e) \<and> cl_Now c \<le> snd e + lag" if "e \<in> set es" for e
    using assms(1) that by (auto simp: on_track_def list_all_iff)
  have "es \<noteq> []" using assms(1) by (auto simp: on_track_def)
  then obtain Q r due Q' where es: "es = Q @ (r, due) # Q'" and first: "\<And>e. e \<in> set es \<Longrightarrow> due \<le> snd e"
    by (rule earliest_entry) blast
  let ?t = "max (cl_Now c) due"
  have "own_request j r" using entries [of "(r, due)"] by (simp add: es)
  then have "fst r \<in> ct_For ` set (workers latency vals)"
    by (auto simp: own_request_def workers_registered)
  then obtain ct where ct: "ct \<in> set (workers latency vals)" "ct_For ct = fst r" by auto
  obtain out c' where run: "run_state (ct_Reconciler ct (snd r)) (c\<lparr>cl_Now := ?t\<rparr>) = (out, c')"
    by (cases "run_state (ct_Reconciler ct (snd r)) (c\<lparr>cl_Now := ?t\<rparr>)")
  have intime: "\<forall>e \<in> set (Q @ ((ct_For ct, snd r), due) # Q'). ?t \<le> snd e + lag"
    using entries first assms(2) ct(2) by (fastforce simp: es)
  have "observed c c" by (simp add: observed_def)
  from work.serve [OF ct(1) this _ _ intime run, of first_controller backoff] show ?thesis
    using ct(2) by (auto simp: es)
qed

definition rank :: "Job \<Rightarrow> ((nat \<times> stage \<times> nat) \<times> nat \<times> stage \<times> nat) set" where
  "rank j = inv_image (less_than <*lex*> less_than) (\<lambda>(k, st, w). (stages_left j k st, w))"

definition ranked :: "Job \<Rightarrow> Connection \<Rightarrow> (NamespacedName \<times> Task) list \<Rightarrow> duration \<Rightarrow> duration \<Rightarrow>
    nat \<times> stage \<times> nat \<Rightarrow> slow_cluster \<times> entry list \<Rightarrow> bool" where
  "ranked j conn others latest lag x s \<longleftrightarrow> (case x of (k, st, w) \<Rightarrow> case s of (c, es) \<Rightarrow>
     on_track j conn others latest lag k st c es \<and> w = polls (poll_horizon latest st) es)"

lemma next_stage_left:
  assumes "next_stage k st t = (k', st')" and "at_stage j conn others latest k st c"
  shows "stages_left j k' st' < stages_left j k st"
  using assms by (cases st) (auto simp: stages_left_def at_stage_def)

text \<open>The entries that the changes of an advance add, all due at once.\<close>

lemma woken_entries:
  assumes sub: "submitted gv_string j" and "list_all (own_change j) chs" and "(''Task'', slot_meta j k) \<in> set chs"
    and N_def: "N = concat (map (\<lambda>e. map (\<lambda>r. (r, t)) (woken (workers latency vals) e)) chs)"
  shows "list_all (\<lambda>e. own_request j (fst e) \<and> snd e = t) N"
    and "((''Job'', job_key j), t) \<in> set N" and "((''Task'', slot_key j k), t) \<in> set N"
proof -
  show "list_all (\<lambda>e. own_request j (fst e) \<and> snd e = t) N"
    using assms(2) woken_own [OF sub, of _ latency vals] by (fastforce simp: list_all_iff N_def)
  have member: "(r, t) \<in> set N"
    if "e \<in> set chs" and "r \<in> set (woken (workers latency vals) e)" for r e
    unfolding N_def set_concat set_map by (rule UN_I [OF imageI [OF that(1)]]) (use that(2) in auto)
  show "((''Job'', job_key j), t) \<in> set N" "((''Task'', slot_key j k), t) \<in> set N"
    by (rule member [OF assms(3)]; simp only: woken_task [OF sub]; simp)+
qed

lemma on_track_advance:
  assumes "next_stage k st t = (k', st')" and "at_stage j conn others latest k' st' c'" and "cl_Now c' = t"
    and "list_all (\<lambda>e. own_request j (fst e) \<and> t \<le> snd e + lag) es"
    and "list_all (\<lambda>e. own_request j (fst e) \<and> snd e = t) N"
    and "((''Job'', job_key j), t) \<in> set N" and "((''Task'', slot_key j k), t) \<in> set N"
    and "timely latency latest lag"
  shows "on_track j conn others latest lag k' st' c' (es @ N)"
proof -
  have "(wanted_request j k' st', t) \<in> set N \<and> (\<forall>s. st' = Started s \<longrightarrow> t \<le> s + latest + powerActionRequeueAfter)"
    using assms(1,6-8) by (cases st) (auto simp: timely_def go_consts)
  moreover have "list_all (\<lambda>e. own_request j (fst e) \<and> t \<le> snd e + lag) N"
    using assms(5,8) by (auto simp: list_all_iff timely_def)
  ultimately show ?thesis using assms(2-4) by (auto simp: on_track_def)
qed

lemma on_track_step:
  assumes feas: "feasible j others" and track: "on_track j conn others latest lag k st c es" and timely: "timely latency latest lag"
    and step: "work (workers latency vals) first_controller backoff lag (c, es) (c', es')"
  shows "job_done j c' \<or> (\<exists>y. ranked j conn others latest lag y (c', es') \<and>
    (y, k, st, polls (poll_horizon latest st) es) \<in> rank j)"
  using step
proof (cases rule: work.cases)
  case (serve ct c1 due t Q key Q' out)
  let ?r = "(ct_For ct, key)" and ?d = "c1\<lparr>cl_Now := t\<rparr>" and ?h = "poll_horizon latest st"
  let ?new = "concat (map (\<lambda>e. map (\<lambda>r. (r, t)) (woken (workers latency vals) e)) (changes c1 c'))"
  have stage: "at_stage j conn others latest k st ?d"
    using at_stage_observed track serve by (auto simp: on_track_def)
  have own: "list_all (\<lambda>e. own_request j (fst e) \<and> t \<le> snd e + lag) (Q @ Q')" "own_request j ?r"
    using track serve by (auto simp: on_track_def list_all_iff)
  obtain due0 where due0: "(wanted_request j k st, due0) \<in> set es"
    "\<And>s. st = Started s \<Longrightarrow> due0 \<le> s + latest + powerActionRequeueAfter"
    using track by (auto simp: on_track_def)
  have time: "cl_Now ?d < s + task_timeout" if "st = Started s" for s
    using serve due0(1) due0(2) [OF that] timely by (fastforce simp: timely_def)
  have late: "latency h p t \<le> latest" for h p t using timely by (simp add: timely_def)
  have new: "changes c1 c' = changes ?d c'" by (simp add: changes_def)
  have "effect j conn others latest k st ?r ?d out c'"
    by (rule work_effect [where latency = latency and vals = vals, OF feas stage late time own(2)])
      (use serve in auto)
  then show ?thesis
  proof (cases rule: effect.cases)
    case finish
    then show ?thesis by simp
  next
    case idle
    have es': "es' = Q @ Q'" using serve idle new by (simp add: again_def zero_Result_def)
    have "on_track j conn others latest lag k st c' es'"
      using stage own due0 serve idle by (auto simp: on_track_def es')
    moreover have "((k, st, polls ?h es'), k, st, polls ?h es) \<in> rank j"
      by (simp add: rank_def es' serve)
    ultimately show ?thesis by (auto simp: ranked_def)
  next
    case (poll s)
    have es': "es' = Q @ Q' @ [(?r, t + powerActionRequeueAfter)]"
      using serve poll new by (simp add: again_def requeue_after_def zero_Result_def go_consts)
    have "on_track j conn others latest lag k st c' es'"
      using stage own poll timely by (auto simp: on_track_def es' timely_def go_consts)
    moreover have "t < ?h - powerActionRequeueAfter" using poll by (simp add: poll_horizon_def)
    from poll_lowers [OF serve(5) this]
    have "((k, st, polls ?h es'), k, st, polls ?h es) \<in> rank j" unfolding es' serve(1) by (simp add: rank_def)
    ultimately show ?thesis by (auto simp: ranked_def)
  next
    case (advance k' st')
    have es': "es' = (Q @ Q') @ ?new" using serve advance by (simp add: again_def zero_Result_def)
    have sub: "submitted gv_string j" using feas by (simp add: feasible_def)
    have "on_track j conn others latest lag k' st' c' es'"
      unfolding es' new
      by (rule on_track_advance [OF _ advance(3) _ own(1) woken_entries [OF sub advance(5,6) refl] timely])
        (use advance(2,4) in simp_all)
    moreover have "((k', st', polls (poll_horizon latest st') es'), k, st, polls ?h es) \<in> rank j"
      using next_stage_left [OF advance(2) stage] by (simp add: rank_def)
    ultimately show ?thesis by (auto simp: ranked_def)
  qed
qed

lemma on_track_inevitable:
  assumes "feasible j others" and "timely latency latest lag" and "on_track j conn others latest lag k st c es"
  shows "inevitable (work (workers latency vals) first_controller backoff lag) (\<lambda>s. job_done j (fst s)) (c, es)"
proof (rule inevitable_rank [where r = "rank j" and I = "ranked j conn others latest lag"
      and x = "(k, st, polls (poll_horizon latest st) es)"])
  show "wf (rank j)" by (simp add: rank_def wf_lex_prod)
  have lag: "0 \<le> lag" using assms(2) by (simp add: timely_def)
  show "\<exists>s'. work (workers latency vals) first_controller backoff lag s s'"
    if "ranked j conn others latest lag x s" for x s
    using that on_track_live [OF _ lag] by (fastforce simp: ranked_def)
  show "job_done j (fst s') \<or> (\<exists>y. ranked j conn others latest lag y s' \<and> (y, x) \<in> rank j)"
    if now: "ranked j conn others latest lag x s"
      and step: "work (workers latency vals) first_controller backoff lag s s'" for x s s'
  proof -
    obtain k st c es c' es' where x: "x = (k, st, polls (poll_horizon latest st) es)" and s: "s = (c, es)" "s' = (c', es')"
      and track: "on_track j conn others latest lag k st c es"
      using now by (cases s; cases s'; cases x) (auto simp: ranked_def)
    show ?thesis using on_track_step [OF assms(1) track assms(2)] step by (simp add: x s)
  qed
  show "ranked j conn others latest lag (k, st, polls (poll_horizon latest st) es) (c, es)"
    using assms(3) by (simp add: ranked_def)
qed

section \<open>Every Job finishes\<close>

text \<open>A reconciliation of a Machine is one of the writes that may happen between two steps.\<close>

definition observes :: "(slow_cluster, 'a) prog \<Rightarrow> bool" where
  "observes m \<longleftrightarrow> (\<forall>c. observed c (snd (run_state m c)))"

named_theorems observing "programs that write Machine status and events only"

lemma observed_trans:
  assumes "observed c d" and "observed d e"
  shows "observed c e"
proof -
  have "d = c\<lparr>cl_Machines := cl_Machines d, cl_Events := cl_Events d\<rparr>"
    "e = d\<lparr>cl_Machines := cl_Machines e, cl_Events := cl_Events e\<rparr>"
    using assms by (auto simp: observed_def)
  then have "e = c\<lparr>cl_Machines := cl_Machines e, cl_Events := cl_Events e\<rparr>"
    by (metis cluster.surjective cluster.update_convs(1,6))
  with assms show ?thesis by (simp add: observed_def)
qed

lemma observes_return [observing]: "observes (State_Monad.return a)"
  by (simp add: observes_def observed_def)

lemma observes_bind [observing]:
  "observes m \<Longrightarrow> (\<And>a. observes (f a)) \<Longrightarrow> observes (State_Monad.bind m f)"
  by (auto simp: observes_def case_prod_beta intro: observed_trans)

lemma observes_credentials [observing]: "observes (connection_credentials world conn pre)"
proof -
  obtain f where "run_state (connection_credentials world conn pre) c = (f (cl_Secrets c), c)" for c :: slow_cluster
    using secrets_only_credentials [of job_index conn pre] by (auto simp: secrets_only_def)
  then show ?thesis by (simp add: observes_def observed_def)
qed

lemma observes_sum [observing]:
  "(\<And>e. observes (f e)) \<Longrightarrow> (\<And>v. observes (g v)) \<Longrightarrow> observes (case x of Inl e \<Rightarrow> f e | Inr v \<Rightarrow> g v)"
  by (cases x) simp_all

lemma observes_world [observing]:
  "observes (kGetMachine world k)" "observes (kNow world)" "observes (kEventf world bm reason msg)"
  "observes (dialled timeout host user pass opts)" "observes (GetPowerState (slow_bmc latency) h)"
  "observes (Close (slow_bmc latency) h)"
  by (auto simp: observes_def observed_def mem_kube_def slow_bmc_def run_dialled)

lemma observes_patch [observing]: "observes (kPatchMachine world bm b)"
  by (auto simp: observes_def observed_def mem_kube_def lookup_or_404_def Let_def map_of_put split: option.split)

lemma machine_observes: "observes (machine_Reconcile world (slow_bmc latency) (dialled timeout) req)"
  unfolding machine_Reconcile_def machine_doReconcile_def machine_unreachable_def machine_report_def
    machine_patchStatus_def updatePowerState_def deferred_close_def Let_def case_prod_beta
  by (auto intro!: observing)

lemma submitted_stage:
  assumes "feasible j others" and "map_of (cl_Jobs c) (job_key j) = Some j" and "cl_Tasks c = others"
    and "map_of (cl_Machines c) (machine_key j) = Some m" and "has_credentials (msp_Connection (machine_Spec m)) c"
    and "0 < cl_Now c"
  shows "at_stage j (msp_Connection (machine_Spec m)) others latest 0 Absent c"
  using assms by (auto simp: at_stage_def feasible_def submitted_def same_job_def job_finished_def Job_HasCondition_def)

text \<open>C3. Every Job finishes.  A submitted Job whose boot device actions name devices, whose machine
  exists and whose credentials are stored, ends Completed, with a Completed Task for each of
  its actions: every run of the queue from the Job's own request gets there, whatever the
  order of service, the latencies of the BMC (up to \<open>latest\<close>), the moments of service (up to \<open>lag\<close> after an entry is
  due) and the Machine controller's writes in between, and no such run is stuck before.  So the watches that the
  controllers register wake the right one at every stage, a Task is polled until its power change
  shows, and none is given up, provided that \<open>latest\<close>, \<open>lag\<close> and the interval of the polls
  together stay below the ten minutes of a Task.\<close>

theorem job_completes:
  assumes "feasible j (cl_Tasks c)" and "timely latency latest lag"
    and "map_of (cl_Jobs c) (job_key j) = Some j" and "map_of (cl_Machines c) (machine_key j) = Some m"
    and "has_credentials (msp_Connection (machine_Spec m)) c" and "0 < cl_Now c"
  shows "inevitable (work (workers latency vals) first_controller backoff lag) (\<lambda>s. job_done j (fst s))
    (c, [((''Job'', job_key j), cl_Now c)])"
proof -
  have "on_track j (msp_Connection (machine_Spec m)) (cl_Tasks c) latest lag 0 Absent c
      [((''Job'', job_key j), cl_Now c)]"
    using submitted_stage [OF assms(1,3) refl assms(4-6)] assms(2) by (simp add: on_track_def own_request_def timely_def)
  from on_track_inevitable [OF assms(1,2) this] show ?thesis .
qed

text \<open>A Job that turns a machine off and on again, on BMCs that take five minutes for it.\<close>

definition cycling_job :: Job where
  "cycling_job = blank_job
     \<lparr>job_TypeMeta := \<lparr>tm_APIVersion = gv_string GroupVersion, tm_Kind = ''Job''\<rparr>,
      job_ObjectMeta := empty_ObjectMeta\<lparr>om_Name := ''j'', om_Namespace := ''ns''\<rparr>,
      job_Spec := \<lparr>jsp_MachineRef = \<lparr>mr_Name = ''m'', mr_Namespace = ''ns''\<rparr>,
        jsp_Tasks = [empty_Action\<lparr>act_PowerAction := Some PowerHardOff\<rparr>,
          empty_Action\<lparr>act_PowerAction := Some PowerOn\<rparr>]\<rparr>\<rparr>"

definition default_flags :: "string \<Rightarrow> flag_value" where
  "default_flags name = (case map_of flag_set name of Some v \<Rightarrow> v | None \<Rightarrow> FString [])"

definition cycling_cluster :: slow_cluster where
  "cycling_cluster = \<lparr>
     cl_Machines = [(nn ''ns'' ''m'', \<lparr>machine_TypeMeta = empty_TypeMeta, machine_ObjectMeta = empty_ObjectMeta,
       machine_Spec = \<lparr>msp_Connection = empty_Connection\<rparr>, machine_Status = \<lparr>ms_Power = [], ms_Conditions = []\<rparr>\<rparr>)],
     cl_Jobs = [(nn ''ns'' ''j'', cycling_job)], cl_Tasks = [],
     cl_Secrets = [(nn [] [], \<lparr>secret_Data = [''username'' \<mapsto> ''u'', ''password'' \<mapsto> ''p'']\<rparr>)],
     cl_Power = (\<lambda>_. ''on''), cl_Events = [], cl_Now = 7, cl_Change = (\<lambda>_. None)\<rparr>"

theorem job_completes_witness:
  "inevitable (work (workers (\<lambda>_ _ _. 5 * Minute) default_flags) first_controller Second Minute)
    (\<lambda>s. job_done cycling_job (fst s)) (cycling_cluster, [((''Job'', nn ''ns'' ''j''), 7)])"
proof -
  have job: "job_key cycling_job = nn ''ns'' ''j''" "machine_key cycling_job = nn ''ns'' ''m''" "job_conds cycling_job = []"
    by code_simp+
  have "feasible cycling_job (cl_Tasks cycling_cluster)"
    using job by (simp add: feasible_def submitted_def cycling_job_def cycling_cluster_def job_deleted_def Time_IsZero_def
        empty_ObjectMeta_def empty_Action_def)
  moreover have "timely (\<lambda>_ _ _. 5 * Minute) (5 * Minute) Minute"
    by (simp add: timely_def go_consts)
  moreover have "has_credentials empty_Connection cycling_cluster"
    by (simp add: has_credentials_def connection_credentials_def rpc_options_def empty_Connection_def
        resolveAuthSecretRef_def secret_key_def cycling_cluster_def mem_kube_def lookup_or_404_def Let_def)
  ultimately show ?thesis
    using job_completes [of cycling_job cycling_cluster "\<lambda>_ _ _. 5 * Minute" "5 * Minute" Minute _ default_flags Second] job
    by (simp add: cycling_cluster_def)
qed

end
