(* ===== verification/Spec2Isabelle.thy ===== *)
theory Spec2Isabelle
  imports Stale_Reads Client_Traces Patch_Bases Job_Progress
begin

text \<open>
  Rufio (https://github.com/tinkerbell/rufio) is a Kubernetes controller for baseboard management
  controllers (BMCs).  Users create Machines, which say how to reach a BMC, and Jobs, which list actions
  for a Machine.  Three controllers run in one process and talk to each other only through objects of the
  API server: the Machine controller reports the power state of a Machine's BMC in the Machine's status, the
  Job controller creates one Task per action, each once the one before it is Completed, and the Task
  controller carries out a Task's action on the BMC and checks that it took effect.

  \<^bold>\<open>The model.\<close>  Go structs are records, string enumerations are strings with named constants, pointers are
  options, a Go map is an association list (the list is the order a run visits it in) or a function, an error
  is a value of \<open>goerr\<close> with its text, a panic is an outcome of its own.  Code that calls the outside world is a
  program in the state monad over a type \<open>'w\<close> for everything outside the process; the calls are arguments (the
  records \<open>kube\<close>, \<open>bmclib\<close>, \<open>bmcdial\<close>, \<open>convlib\<close>).  An instant is an integer of nanoseconds, a duration is
  clipped to 64 bits as \<open>time.Since\<close> does, a port passed to bmclib is a 32-bit word.  A reconciler changes the object
  it read in place and sends the difference to a deep copy of it; the controllers of the model pass the changed object
  and the object read, both as values, and \<open>Patch_Bases\<close> shows on a memory with pointers that this is what the code
  does.  No definition has fuel: the loops of the sources run over lists and are structural recursions, and the
  loop over a map ends because each pass removes a key.

  \<^item> \<open>Rufio_Prelude\<close>: the lemma collections, running programs and their weakest preconditions, list facts.
  \<^item> \<open>Go_Runtime\<close>: decimal formatting, string search, times, error values of Go's standard library.
  \<^item> \<open>Api_Types\<close>: the structs and constants of \<open>api/v1alpha1\<close>.
  \<^item> \<open>Api_Conditions\<close>: \<open>SetCondition\<close> and \<open>HasCondition\<close> of the three kinds.  The locales \<open>condition_list\<close> and
    \<open>condition_query\<close> state their contract (the list is a map from condition types to statuses, with one entry per
    type); the model's definitions interpret them.
  \<^item> \<open>Go_Memory\<close>: cells, typed loads and stores, allocation, extension of a memory.  \<open>Copiers\<close>: readers of values in memory
    and the pieces of generated deep copies; the locales \<open>reader\<close> and \<open>copier\<close> state their contract (what is read
    depends on the cells it lists only; a copy has the same value and new cells).  \<open>Copiers_Maps\<close>: maps, ranged over in
    any order.  \<open>Copiers_Updates\<close>: writes in place, \<open>append\<close>, and the locale \<open>slice_field\<close> of an object with a
    slice in a field.
  \<^item> \<open>Api_Memory\<close>: the structs of \<open>api/v1alpha1\<close> as they lie in memory and their readers to the records of \<open>Api_Types\<close>.
    \<open>Deep_Copies\<close>: every function of \<open>zz_generated.deepcopy.go\<close>, with its contract.  \<open>Patch_Bases\<close>: \<open>SetCondition\<close> and the other
    status writes in memory refine the functions on values and leave the base of the patch alone; the
    generated copies interpret \<open>copier\<close>, the three kinds interpret \<open>slice_field\<close>.
  \<^item> \<open>External_Interfaces\<close>: the records of the calls to the outside world, results and outcomes.
  \<^item> \<open>Task_Naming\<close>: \<open>FormatTaskName\<close>, the Task built by \<open>createTaskWithOwner\<close>, \<open>TaskOwnerIndexFunc\<close>
    (\<open>controller/job.go\<close>), with the uniqueness of names and the round trip through the owner index.
  \<^item> \<open>Memory_Cluster\<close>: an in-memory instance of the outside world, with BMCs that act at once or after a latency, and
    JSON merge patches of a status.
  \<^item> \<open>Kube_Helpers\<close>: \<open>resolveAuthSecretRef\<close>, \<open>toPowerState\<close> (\<open>controller/kube.go\<close>), \<open>retrieveHMACSecrets\<close>
    (\<open>controller/machine.go\<close>), with their results on every branch.
  \<^item> \<open>Bmc_Options\<close>: \<open>controller/client.go\<close>, the translation of provider options to bmclib options and the client
    factory, and the credentials of a connection, which opens both BMC-facing \<open>doReconcile\<close> methods.
  \<^item> \<open>Machine_Controller\<close>, \<open>Task_Controller\<close>, \<open>Job_Controller\<close>: the handlers of \<open>controller/machine.go\<close>,
    \<open>task.go\<close> and \<open>job.go\<close>, one definition per method, a long method in the parts its comments name.
  \<^item> \<open>Startup\<close>: \<open>main.go\<close> and the constructors and \<open>SetupWithManager\<close> of the controllers: flags, scheme and the panic
    of \<open>init\<close>, options, what each controller is for and watches, and the calls of a start up to the first failure.
  \<^item> \<open>Call_Traces\<close>: an outside world that records every call and answers by arbitrary functions of the history, so
    that a run of a handler is its trace of calls; \<open>Trace_Rules\<close>: observations on traces (patches, creations, reads
    and writes of the BMC, the protocol of a BMC connection) and the rules of the recorded calls.
  \<^item> \<open>Phases\<close>: the phases Pending, Running, Succeeded, Failed with their order, and the moves of a Task.
  \<^item> \<open>Machine_Traces\<close>, \<open>Task_Traces\<close>, \<open>Job_Traces\<close>: the paths of each handler as an inductive relation on outcomes
    and traces, the lemma that the handler follows them, and the facts read off them: connections are closed on
    every path, what is patched and from which base, the order of BMC writes, time-outs, panics, requeues.
    \<open>Client_Traces\<close>: which Secrets are read for a connection, and how a client is built.
  \<^item> \<open>System\<close>: the three controllers together with an API server, runs in flight interleaved call by call, crashes,
    stale reads, patches merged into newer versions and ambiguous failures; the flag \<open>fresh\<close> restricts single
    Tasks to fresh reads, which some conclusions need.  The locale \<open>reconcilers\<close> states what the proof needs of the runs; the
    traces of the handlers interpret it.  \<open>System_Example\<close>: a run of the system from the submission of a Job to
    its completion; \<open>Stale_Reads\<close>: a stale read that turns a Completed Task into a Failed one.  The theorems on the system are below.
  \<^item> \<open>Work_Queue\<close>: the queue of requests that drives the registered controllers: what a changed object wakes by the
    watches of \<open>SetupWithManager\<close>, what a result puts back, and \<open>inevitable\<close>, the states that every run reaches.
    \<open>Job_Stages\<close>: runs of the handlers on the in-memory cluster, stage by stage of a Job.  \<open>Job_Progress\<close>: no wake-up of a
    Job is lost and the queue runs down, so that every feasible Job is Completed when nothing fails.

  \<^bold>\<open>Assumptions.\<close>  Named hypotheses state documented behaviour of libraries: \<open>controller_of_docs\<close> for
  \<open>metav1.GetControllerOf\<close>, \<open>safecast_docs\<close> for \<open>safecast.ToUint32\<close>, \<open>merge_docs\<close> for \<open>mergo.Merge\<close>,
  \<open>metalib_ok\<close> for the deep copies of the metadata library; some facts assume that the
  clock does not show Go's zero time.  In \<open>System\<close>, Tasks are created by the Job controller only and are
  neither deleted nor given another status by anyone but the Task controller; single Tasks are read through the cache, in any
  version stored so far, and a patch is the difference to that version, merged into the stored one (when the flag \<open>fresh\<close> is
  set, the version read is the stored one, and so it still is at the patch); Jobs are not deleted, and are read with
  their kind and API version, as controller-runtime's cache provides.
  \<open>Work_Queue\<close> states the documented service of controller-runtime: a change of an object enqueues its own request and that of
  its controlling owner where this is watched, a result is put back after \<open>RequeueAfter\<close>, and an error after a back-off.
  In \<open>Job_Progress\<close> the bounds are the hypothesis \<open>timely\<close>: the latency of the BMCs, the delay of service and the three
  seconds between two checks add up to less than the ten minutes a Task has.

  \<^bold>\<open>Not modelled.\<close>  Logging and the metadata that is only logged; the packages that \<open>main.go\<close> and the controllers
  call (flag parsing, client-go, controller-runtime, bmclib), which are parameters; the capacity of a slice as
  something other than the rest of its array; metadata fields that the sources neither read nor write; JSON encoding,
  CRD validation and defaulting; contexts (the time-out of a connection attempt is passed on to the library); build
  tools (\<open>tools.go\<close>).
\<close>

section \<open>The system\<close>

text \<open>C1. The Tasks of a Job run one after the other, in every reachable state of the system, with any
  interleaving of reconciliations, crashes, stale reads of Jobs, Tasks and lists, patches merged into
  newer versions, and requests that report an error but were carried out.  The stored Tasks of a
  Job with \<open>n\<close> Tasks are exactly those with the first \<open>n\<close> names, they carry the Job's actions in order, and all
  but the last have been Completed: a version with that condition was stored.  When single Tasks are
  read fresh, they still are Completed.\<close>

theorem tasks_run_in_sequence:
  assumes "reach fresh_reads controller_run g gvs s rs" and "controller_of_docs g" and "st_Jobs s k = Some j"
  shows "\<exists>n \<le> wanted_tasks j.
    (\<forall>i. (st_Tasks s (slot_key j i) \<noteq> None) = (i < n)) \<and>
    (\<forall>i t. st_Tasks s (slot_key j i) = Some t \<longrightarrow>
       task_action t = jsp_Tasks (job_Spec j) ! i \<and>
       (Suc i < n \<longrightarrow> was_completed s (slot_key j i) \<and> (fresh_reads \<longrightarrow> is_completed t)))"
proof -
  from controllers.reach_good [OF assms(1,2)] have good: "good (TaskOwnerIndexFunc g gvs) gvs s"
    and stays: "fresh_reads \<longrightarrow> stays_completed s" by blast+
  from good_job [OF good assms(3)] obtain n where "sequential s j n" by blast
  then show ?thesis
    using still_completed [OF stays] by (intro exI [of _ n]) (simp add: sequential_def, blast)
qed

text \<open>In the example both Tasks are stored, and the first has been Completed before the second.\<close>

theorem tasks_run_in_sequence_witness:
  "{i. st_Tasks (example_state 7) (slot_key example_completed i) \<noteq> None} = {0, 1} \<and>
    was_completed (example_state 7) (slot_key example_completed 0) \<and> is_completed (example_done 0)"
proof -
  note stored = example_completed_stored
  from tasks_run_in_sequence [OF example_reach [of True] first_controller_docs stored(1)]
  obtain n where n: "n \<le> wanted_tasks example_completed"
    "\<And>i. (st_Tasks (example_state 7) (slot_key example_completed i) \<noteq> None) = (i < n)"
    and first: "\<And>t. st_Tasks (example_state 7) (slot_key example_completed 0) = Some t \<Longrightarrow> Suc 0 < n \<Longrightarrow>
      was_completed (example_state 7) (slot_key example_completed 0) \<and> is_completed t" by blast
  have "n = 2" using n(1) n(2) [of 1] stored(2,5) by simp
  then have "{i. st_Tasks (example_state 7) (slot_key example_completed i) \<noteq> None} = {0, 1}"
    using n(2) by auto
  then show ?thesis using first [OF stored(4)] \<open>n = 2\<close> by simp
qed

text \<open>C2. A Job is Completed only when its work is done: in every reachable state each action of
  a Completed Job has its Task, and that Task has been Completed; it still is when single Tasks
  are read fresh.\<close>

theorem completed_job_is_done:
  assumes "reach fresh_reads controller_run g gvs s rs" and "controller_of_docs g" and "st_Jobs s k = Some j"
    and "job_phase j = Succeeded" and "i < wanted_tasks j"
  shows "\<exists>t. st_Tasks s (slot_key j i) = Some t \<and> was_completed s (slot_key j i) \<and> (fresh_reads \<longrightarrow> is_completed t) \<and>
    task_action t = jsp_Tasks (job_Spec j) ! i"
proof -
  from controllers.reach_good [OF assms(1,2)] have good: "good (TaskOwnerIndexFunc g gvs) gvs s"
    and stays: "fresh_reads \<longrightarrow> stays_completed s" by blast+
  from good_job [OF good assms(3)] obtain n where seq: "sequential s j n" by blast
  then have "st_Tasks s (slot_key j i) \<noteq> None" using assms(4,5) by (simp add: sequential_def)
  then obtain t where "st_Tasks s (slot_key j i) = Some t" by blast
  then show ?thesis
    using seq assms(4,5) still_completed [OF stays] by (auto simp: sequential_def)
qed

theorem completed_job_is_done_witness:
  "\<exists>t. st_Tasks (example_state 7) (slot_key example_completed 1) = Some t \<and> is_completed t"
  using completed_job_is_done [OF example_reach [of True] first_controller_docs example_completed_stored(1,3), of 1]
    example_completed_stored(2) by auto

text \<open>C15. The Job controller does not panic: in every reachable state, a run of it that has made all its
  calls has returned.  (The index by owner finds no more Tasks than the Job has actions.)\<close>

theorem job_controller_returns:
  assumes "reach fresh_reads controller_run g gvs s rs" and "controller_of_docs g"
    and "(JobRun, req, out, d, []) \<in> set rs"
  shows "\<exists>res e. out = Return res e"
  using controllers.reach_no_panic [OF assms] by (cases out) auto

theorem job_controller_returns_witness:
  "\<exists>res e. fst (job_run example_last (nn ''ns'' ''j'')) = Return res e"
  by (rule job_controller_returns [OF example_reach [of False] first_controller_docs]) simp

end
